theory Spec2Isabelle
  imports Main "HOL-Library.Sublist"
begin

section \<open>Python values, exceptions and the operating system\<close>

text \<open>
  The module \<^verbatim>\<open>bin/daemon.py\<close> turns the running process into a daemon through a
  fixed sequence of operating-system calls. The embedding follows one process. Every
  call the code makes is appended to a trace; the parts of the process state that the
  code reads back (the table of open descriptors, the files under their paths, the
  advisory locks, the exit hooks) are fields of the \<open>world\<close>. What the operating
  system decides on its own (whether a call fails, what \<^verbatim>\<open>os.fork\<close> returns, what
  other processes do to the filesystem while this one sleeps) is read from an
  environment of oracles, which may look at the calls made so far.
\<close>

type_synonym fd = int
type_synonym pathname = string

text \<open>
  The exceptions the module meets. \<open>OSError errno strerror text\<close> is the built-in
  class (Python 3 semantics: \<^verbatim>\<open>IOError\<close> and \<^verbatim>\<open>EnvironmentError\<close> are aliases
  of it), \<open>text\<close> being what \<^verbatim>\<open>str(exc)\<close> renders. The two classes of the module
  carry their message and their \<^verbatim>\<open>__cause__\<close> attribute.
\<close>

datatype exn =
    OSError int string string
  | ValueError string
  | AttributeError string
  | SystemExit "string option"
  | DaemonOSEnvironmentError string "exn option"
  | DaemonProcessDetachError string "exn option"

text \<open>What a call into the operating system can raise by itself.\<close>

datatype os_fault = EnvFault int string string | ValFault string

fun exn_of_fault :: "os_fault \<Rightarrow> exn" where
  "exn_of_fault (EnvFault n s t) = OSError n s t"
| "exn_of_fault (ValFault t) = ValueError t"

fun isinstance_Exception :: "exn \<Rightarrow> bool" where
  "isinstance_Exception (SystemExit _) = False"
| "isinstance_Exception _ = True"

fun isinstance_OSError :: "exn \<Rightarrow> bool" where
  "isinstance_OSError (OSError _ _ _) = True"
| "isinstance_OSError (DaemonOSEnvironmentError _ _) = True"
| "isinstance_OSError (DaemonProcessDetachError _ _) = True"
| "isinstance_OSError _ = False"

fun isinstance_ValueError :: "exn \<Rightarrow> bool" where
  "isinstance_ValueError (ValueError _) = True"
| "isinstance_ValueError _ = False"

fun isinstance_DaemonError :: "exn \<Rightarrow> bool" where
  "isinstance_DaemonError (DaemonOSEnvironmentError _ _) = True"
| "isinstance_DaemonError (DaemonProcessDetachError _ _) = True"
| "isinstance_DaemonError _ = False"

text \<open>The \<^verbatim>\<open>__cause__\<close> attribute; \<open>None\<close> on an exception nobody chained.\<close>

fun cause :: "exn \<Rightarrow> exn option" where
  "cause (DaemonOSEnvironmentError _ c) = c"
| "cause (DaemonProcessDetachError _ c) = c"
| "cause _ = None"

subsection \<open>Decimal rendering of integers\<close>

definition digit_char :: "nat \<Rightarrow> char" where
  "digit_char d = char_of (48 + d)"

fun str_nat :: "nat \<Rightarrow> string" where
  "str_nat n = (if n < 10 then [digit_char n] else str_nat (n div 10) @ [digit_char (n mod 10)])"

declare str_nat.simps [simp del]

text \<open>\<^verbatim>\<open>str(i)\<close>, \<^verbatim>\<open>repr(i)\<close> and the format \<^verbatim>\<open>{i:d}\<close> of an integer.\<close>

definition str_int :: "int \<Rightarrow> string" where
  "str_int i = (if i < 0 then CHR ''-'' # str_nat (nat (- i)) else str_nat (nat i))"

text \<open>
  \<^verbatim>\<open>int(s)\<close> on a string of an optional sign and decimal digits; \<open>None\<close> is the
  \<^verbatim>\<open>ValueError\<close> of any other string (surrounding blanks and digit separators, which
  \<^verbatim>\<open>int\<close> also accepts, are left out).
\<close>

definition is_digit :: "char \<Rightarrow> bool" where
  "is_digit c = (48 \<le> (of_char c :: nat) \<and> (of_char c :: nat) \<le> 57)"

definition digits_value :: "string \<Rightarrow> nat" where
  "digits_value s = foldl (\<lambda>acc c. 10 * acc + ((of_char c :: nat) - 48)) 0 s"

definition int_of_digits :: "string \<Rightarrow> int option" where
  "int_of_digits s = (if s \<noteq> [] \<and> list_all is_digit s then Some (int (digits_value s)) else None)"

fun int_of_str :: "string \<Rightarrow> int option" where
  "int_of_str [] = None"
| "int_of_str (c # cs) =
     (if c = CHR ''-'' then map_option uminus (int_of_digits cs)
      else if c = CHR ''+'' then int_of_digits cs
      else int_of_digits (c # cs))"

text \<open>The text of an exception, \<^verbatim>\<open>str(exc)\<close>.\<close>

fun exc_str :: "exn \<Rightarrow> string" where
  "exc_str (OSError _ _ t) = t"
| "exc_str (ValueError t) = t"
| "exc_str (AttributeError t) = t"
| "exc_str (SystemExit None) = ''None''"
| "exc_str (SystemExit (Some t)) = t"
| "exc_str (DaemonOSEnvironmentError t _) = t"
| "exc_str (DaemonProcessDetachError t _) = t"

subsection \<open>Objects handed to the context\<close>

text \<open>
  An element of \<^verbatim>\<open>files_preserve\<close>, or a replacement stream: an integer, an object
  with a \<^verbatim>\<open>fileno\<close> method (its result, or \<open>None\<close> when the method raises
  \<^verbatim>\<open>ValueError\<close>), or any other object, told apart by a number and given with the
  integer that it is equal to and hashes as, when there is one (\<^verbatim>\<open>3.0\<close> and
  \<^verbatim>\<open>True\<close> are such objects). Python's \<^verbatim>\<open>None\<close> is the \<open>None\<close> of
  \<open>pyobj option\<close>.
\<close>

datatype pyobj = PyInt int | PyFile "int option" | PyOther nat "int option"

text \<open>
  \<^verbatim>\<open>x == d\<close> for a descriptor \<open>d\<close>, and \<^verbatim>\<open>d in exclude\<close>: the membership test
  of a set goes by equality.
\<close>

fun equals_int :: "pyobj \<Rightarrow> int \<Rightarrow> bool" where
  "equals_int (PyInt n) d = (n = d)"
| "equals_int (PyOther _ (Some n)) d = (n = d)"
| "equals_int _ d = False"

definition in_exclude :: "int \<Rightarrow> pyobj set \<Rightarrow> bool" where
  "in_exclude d exclude = (\<exists>x \<in> exclude. equals_int x d)"

text \<open>
  A value of the signal map: \<^verbatim>\<open>None\<close>, a text string naming an attribute of the
  context, or any other value. A handler as given to \<^verbatim>\<open>signal.signal\<close>:
  \<^verbatim>\<open>signal.SIG_IGN\<close>, the value of the context's attribute of that name, or the
  other value itself.
\<close>

datatype target = TNone | TName string | TDirect nat

datatype handler = SIG_IGN | Attr string | Direct nat

datatype lock_op = LOCK_EX_NB | LOCK_UN

datatype hook = Close_hook

text \<open>The calls into the operating system and the interpreter, as the trace records them.\<close>

datatype event =
    Chdir pathname
  | Chroot pathname
  | GetrlimitCore
  | SetrlimitCore int int
  | Umask int
  | Setgid int
  | Setuid int
  | Fork
  | PathExists pathname
  | Sleep nat
  | OsExit int
  | Setsid
  | Signal int handler
  | GetrlimitNofile
  | Close fd
  | OpenDevnull
  | Dup2 fd fd
  | OpenFile pathname
  | Flock fd lock_op
  | FileSeek fd nat
  | FileTruncate fd
  | Getpid
  | FileWrite fd string
  | FileFlush fd
  | Remove pathname
  | AtexitRegister hook

datatype lock_holder = OtherProcess | OwnFd fd

record world =
  trace :: "event list"
  open_fds :: "fd list"
  fs :: "pathname \<Rightarrow> string option"
  locks :: "pathname \<Rightarrow> lock_holder option"
  offsets :: "fd \<Rightarrow> nat"
  atexit :: "hook list"

record os_env =
  fault :: "event list \<Rightarrow> event \<Rightarrow> os_fault option"
  fork_result :: "event list \<Rightarrow> int"
  during_sleep :: "event list \<Rightarrow> (pathname \<Rightarrow> string option) \<Rightarrow> (pathname \<Rightarrow> string option)"
  rlimit_nofile_hard :: int
  RLIM_INFINITY :: int
  getpid :: int
  signal_module :: "string \<Rightarrow> int option"

text \<open>
  How a call ends: it returns a value, it raises, or the process is gone
  (\<^verbatim>\<open>os._exit\<close>). Each case carries the world it leaves behind.
\<close>

datatype 'a outcome = Returned 'a world | Raised exn world | Exited int world

definition bind :: "'a outcome \<Rightarrow> ('a \<Rightarrow> world \<Rightarrow> 'b outcome) \<Rightarrow> 'b outcome" where
  "bind m f = (case m of Returned x w \<Rightarrow> f x w | Raised e w \<Rightarrow> Raised e w | Exited s w \<Rightarrow> Exited s w)"

definition log :: "event \<Rightarrow> world \<Rightarrow> world" where
  "log ev w = w\<lparr>trace := trace w @ [ev]\<rparr>"

text \<open>A call whose failure only the operating system decides.\<close>

definition os_call :: "os_env \<Rightarrow> event \<Rightarrow> world \<Rightarrow> unit outcome" where
  "os_call env ev w =
     (case fault env (trace w) ev of
        None \<Rightarrow> Returned () (log ev w)
      | Some f \<Rightarrow> Raised (exn_of_fault f) (log ev w))"

definition EBADF :: int where "EBADF = 9"
definition ENOENT :: int where "ENOENT = 2"
definition EWOULDBLOCK :: int where "EWOULDBLOCK = 11"

definition bad_file_descriptor :: exn where
  "bad_file_descriptor = OSError EBADF ''Bad file descriptor'' ''[Errno 9] Bad file descriptor''"

text \<open>The descriptor a successful \<^verbatim>\<open>open\<close> returns: the lowest one not in use.\<close>

definition lowest_free :: "fd list \<Rightarrow> fd" where
  "lowest_free fds =
     (case find (\<lambda>i. i \<notin> set fds) (map int [0..<Suc (length fds)]) of
        Some i \<Rightarrow> i
      | None \<Rightarrow> int (length fds))"

definition release_locks :: "fd \<Rightarrow> (pathname \<Rightarrow> lock_holder option) \<Rightarrow> (pathname \<Rightarrow> lock_holder option)" where
  "release_locks d l = (\<lambda>p. if l p = Some (OwnFd d) then None else l p)"

text \<open>
  \<^verbatim>\<open>os.close(fd)\<close>: \<^verbatim>\<open>EBADF\<close> on a descriptor that is not open; otherwise the
  descriptor is released (and with it a lock held through it), also when the call
  reports an error.
\<close>

definition closed_fd :: "fd \<Rightarrow> world \<Rightarrow> world" where
  "closed_fd d w = w\<lparr>open_fds := removeAll d (open_fds w), locks := release_locks d (locks w)\<rparr>"

definition os_close :: "os_env \<Rightarrow> fd \<Rightarrow> world \<Rightarrow> unit outcome" where
  "os_close env d w =
     (if d \<notin> set (open_fds w) then Raised bad_file_descriptor (log (Close d) w)
      else case os_call env (Close d) w of
             Returned x w' \<Rightarrow> Returned x (closed_fd d w')
           | Raised e w' \<Rightarrow> Raised e (closed_fd d w')
           | Exited s w' \<Rightarrow> Exited s w')"

section \<open>The module's exception classes\<close>

text \<open>
  \<^verbatim>\<open>_chain_exception_from_existing_exception_context(exc, as_cause)\<close> reads
  \<^verbatim>\<open>sys.exc_info()\<close>, the exception being handled at the moment (here the argument
  \<open>existing_exc\<close>, \<open>None\<close> outside of any handler), and stores it as the cause of
  \<open>exc\<close> when \<open>as_cause\<close> is true. The other branch sets \<^verbatim>\<open>__context__\<close>, which
  the embedding does not keep.
\<close>

fun chain_exception_from_existing_exception_context :: "exn option \<Rightarrow> exn \<Rightarrow> bool \<Rightarrow> exn" where
  "chain_exception_from_existing_exception_context existing_exc (DaemonOSEnvironmentError m c) as_cause =
     (if as_cause then DaemonOSEnvironmentError m existing_exc else DaemonOSEnvironmentError m c)"
| "chain_exception_from_existing_exception_context existing_exc (DaemonProcessDetachError m c) as_cause =
     (if as_cause then DaemonProcessDetachError m existing_exc else DaemonProcessDetachError m c)"
| "chain_exception_from_existing_exception_context existing_exc e as_cause = e"

text \<open>
  \<^verbatim>\<open>DaemonError.__init__\<close>: every instance of the two subclasses is chained from the
  exception context in which it is constructed.
\<close>

definition new_DaemonOSEnvironmentError :: "exn option \<Rightarrow> string \<Rightarrow> exn" where
  "new_DaemonOSEnvironmentError existing_exc m =
     chain_exception_from_existing_exception_context existing_exc (DaemonOSEnvironmentError m None) True"

definition new_DaemonProcessDetachError :: "exn option \<Rightarrow> string \<Rightarrow> exn" where
  "new_DaemonProcessDetachError existing_exc m =
     chain_exception_from_existing_exception_context existing_exc (DaemonProcessDetachError m None) True"

section \<open>The helpers around single calls\<close>

text \<open>
  \<^verbatim>\<open>try: ... except Exception as exc: raise DaemonOSEnvironmentError(msg (exc))\<close>,
  the shape of the four \<^verbatim>\<open>change_*\<close> helpers.
\<close>

definition except_Exception :: "string \<Rightarrow> unit outcome \<Rightarrow> unit outcome" where
  "except_Exception msg r =
     (case r of
        Raised exc w \<Rightarrow>
          (if isinstance_Exception exc
           then Raised (new_DaemonOSEnvironmentError (Some exc) (msg @ '' ('' @ exc_str exc @ '')'')) w
           else Raised exc w)
      | _ \<Rightarrow> r)"

definition change_working_directory :: "os_env \<Rightarrow> pathname \<Rightarrow> world \<Rightarrow> unit outcome" where
  "change_working_directory env directory w =
     except_Exception ''Unable to change working directory'' (os_call env (Chdir directory) w)"

definition change_root_directory :: "os_env \<Rightarrow> pathname \<Rightarrow> world \<Rightarrow> unit outcome" where
  "change_root_directory env directory w =
     except_Exception ''Unable to change root directory''
       (bind (os_call env (Chdir directory) w) (\<lambda>_. os_call env (Chroot directory)))"

definition change_file_creation_mask :: "os_env \<Rightarrow> int \<Rightarrow> world \<Rightarrow> unit outcome" where
  "change_file_creation_mask env m w =
     except_Exception ''Unable to change file creation mask'' (os_call env (Umask m) w)"

definition change_process_owner :: "os_env \<Rightarrow> int \<Rightarrow> int \<Rightarrow> world \<Rightarrow> unit outcome" where
  "change_process_owner env uid gid w =
     except_Exception ''Unable to change process owner''
       (bind (os_call env (Setgid gid) w) (\<lambda>_. os_call env (Setuid uid)))"

text \<open>
  Only a \<^verbatim>\<open>ValueError\<close> of \<^verbatim>\<open>getrlimit\<close> is translated; the call that sets the
  limit is outside of the \<^verbatim>\<open>try\<close>.
\<close>

definition prevent_core_dump :: "os_env \<Rightarrow> world \<Rightarrow> unit outcome" where
  "prevent_core_dump env w =
     (case os_call env GetrlimitCore w of
        Raised exc w' \<Rightarrow>
          (if isinstance_ValueError exc
           then Raised (new_DaemonOSEnvironmentError (Some exc)
                  (''System does not support RLIMIT_CORE resource limit ('' @ exc_str exc @ '')'')) w'
           else Raised exc w')
      | Returned _ w' \<Rightarrow> os_call env (SetrlimitCore 0 0) w'
      | Exited s w' \<Rightarrow> Exited s w')"

subsection \<open>Closing descriptors\<close>

definition close_file_descriptor_if_open :: "os_env \<Rightarrow> fd \<Rightarrow> world \<Rightarrow> unit outcome" where
  "close_file_descriptor_if_open env d w =
     (case os_close env d w of
        Raised exc w' \<Rightarrow>
          (case exc of
             OSError n s t \<Rightarrow>
               (if n = EBADF then Returned () w'
                else Raised (new_DaemonOSEnvironmentError (Some exc)
                       (''Failed to close file descriptor '' @ str_int d @ '' ('' @ exc_str exc @ '')'')) w')
           | _ \<Rightarrow> Raised exc w')
      | r \<Rightarrow> r)"

definition MAXFD :: int where
  "MAXFD = 2048"

definition get_maximum_file_descriptors :: "os_env \<Rightarrow> world \<Rightarrow> int outcome" where
  "get_maximum_file_descriptors env w =
     bind (os_call env GetrlimitNofile w)
       (\<lambda>_. Returned (if rlimit_nofile_hard env = RLIM_INFINITY env then MAXFD
                       else rlimit_nofile_hard env))"

text \<open>\<^verbatim>\<open>list(range(n))\<close>.\<close>

definition range_list :: "int \<Rightarrow> int list" where
  "range_list n = map int [0..<nat n]"

fun close_each :: "os_env \<Rightarrow> pyobj set \<Rightarrow> fd list \<Rightarrow> world \<Rightarrow> unit outcome" where
  "close_each env exclude [] w = Returned () w"
| "close_each env exclude (d # ds) w =
     (if \<not> in_exclude d exclude
      then bind (close_file_descriptor_if_open env d w) (\<lambda>_. close_each env exclude ds)
      else close_each env exclude ds w)"

definition close_all_open_files :: "os_env \<Rightarrow> pyobj set \<Rightarrow> world \<Rightarrow> unit outcome" where
  "close_all_open_files env exclude w =
     bind (get_maximum_file_descriptors env w)
       (\<lambda>maxfd. close_each env exclude (rev (range_list maxfd)))"

subsection \<open>Redirecting a standard stream\<close>

text \<open>
  \<^verbatim>\<open>obj.fileno()\<close> for \<open>obj\<close> a replacement stream: an object without the method
  raises \<^verbatim>\<open>AttributeError\<close>.
\<close>

fun call_fileno :: "pyobj \<Rightarrow> world \<Rightarrow> int outcome" where
  "call_fileno (PyFile (Some n)) w = Returned n w"
| "call_fileno (PyFile None) w = Raised (ValueError ''I/O operation on closed file'') w"
| "call_fileno (PyInt _) w = Raised (AttributeError ''object has no attribute fileno'') w"
| "call_fileno (PyOther _ _) w = Raised (AttributeError ''object has no attribute fileno'') w"

definition os_open_devnull :: "os_env \<Rightarrow> world \<Rightarrow> int outcome" where
  "os_open_devnull env w =
     bind (os_call env OpenDevnull w)
       (\<lambda>_ w'. Returned (lowest_free (open_fds w'))
                  (w'\<lparr>open_fds := lowest_free (open_fds w') # open_fds w'\<rparr>))"

definition os_dup2 :: "os_env \<Rightarrow> fd \<Rightarrow> fd \<Rightarrow> world \<Rightarrow> unit outcome" where
  "os_dup2 env src dst w =
     (if src \<notin> set (open_fds w) then Raised bad_file_descriptor (log (Dup2 src dst) w)
      else bind (os_call env (Dup2 src dst) w)
             (\<lambda>_ w'. Returned () (w'\<lparr>open_fds := List.insert dst (open_fds w')\<rparr>)))"

text \<open>
  \<open>system_fd\<close> is \<^verbatim>\<open>system_stream.fileno()\<close>: 0, 1 and 2 for \<^verbatim>\<open>sys.stdin\<close>,
  \<^verbatim>\<open>sys.stdout\<close> and \<^verbatim>\<open>sys.stderr\<close>.
\<close>

definition redirect_stream :: "os_env \<Rightarrow> fd \<Rightarrow> pyobj option \<Rightarrow> world \<Rightarrow> unit outcome" where
  "redirect_stream env system_fd target_stream w =
     bind (case target_stream of
             None \<Rightarrow> os_open_devnull env w
           | Some t \<Rightarrow> call_fileno t w)
       (\<lambda>target_fd. os_dup2 env target_fd system_fd)"

subsection \<open>Signals\<close>

text \<open>
  \<^verbatim>\<open>name_map\<close> of \<^verbatim>\<open>make_default_signal_map\<close>, in the order of its items; a
  dictionary is the list of its items, in their order, with one item for a key.
\<close>

definition name_map :: "(string \<times> target) list" where
  "name_map =
     [(''SIGTSTP'', TNone), (''SIGTTIN'', TNone), (''SIGTTOU'', TNone),
      (''SIGTERM'', TName ''terminate'')]"

fun dict_set :: "'k \<Rightarrow> 'v \<Rightarrow> ('k \<times> 'v) list \<Rightarrow> ('k \<times> 'v) list" where
  "dict_set k v [] = [(k, v)]"
| "dict_set k v ((k', v') # d) = (if k = k' then (k, v) # d else (k', v') # dict_set k v d)"

text \<open>\<^verbatim>\<open>dict(pairs)\<close>: a later pair replaces the value of an earlier one with its key.\<close>

definition dict_of :: "('k \<times> 'v) list \<Rightarrow> ('k \<times> 'v) list" where
  "dict_of pairs = foldl (\<lambda>d (k, v). dict_set k v d) [] pairs"

text \<open>\<^verbatim>\<open>getattr(signal, name)\<close>, which raises for a name the platform does not have.\<close>

definition getattr_signal :: "os_env \<Rightarrow> string \<Rightarrow> exn + int" where
  "getattr_signal env name =
     (case signal_module env name of
        None \<Rightarrow> Inl (AttributeError (''module signal has no attribute '' @ name))
      | Some n \<Rightarrow> Inr n)"

definition hasattr_signal :: "os_env \<Rightarrow> string \<Rightarrow> bool" where
  "hasattr_signal env name = (signal_module env name \<noteq> None)"

text \<open>
  The generator of \<^verbatim>\<open>make_default_signal_map\<close>: the pairs of the names that pass the
  \<^verbatim>\<open>hasattr\<close> test, or the first exception of \<^verbatim>\<open>getattr\<close>.
\<close>

fun signal_pairs :: "os_env \<Rightarrow> (string \<times> target) list \<Rightarrow> exn + (int \<times> target) list" where
  "signal_pairs env [] = Inr []"
| "signal_pairs env ((name, tgt) # rest) =
     (if hasattr_signal env name
      then (case getattr_signal env name of
              Inl e \<Rightarrow> Inl e
            | Inr n \<Rightarrow> (case signal_pairs env rest of
                          Inl e \<Rightarrow> Inl e
                        | Inr ps \<Rightarrow> Inr ((n, tgt) # ps)))
      else signal_pairs env rest)"

definition make_default_signal_map :: "os_env \<Rightarrow> exn + (int \<times> target) list" where
  "make_default_signal_map env =
     (case signal_pairs env name_map of
        Inl e \<Rightarrow> Inl e
      | Inr ps \<Rightarrow> Inr (dict_of ps))"

fun set_signal_handlers :: "os_env \<Rightarrow> (int \<times> handler) list \<Rightarrow> world \<Rightarrow> unit outcome" where
  "set_signal_handlers env [] w = Returned () w"
| "set_signal_handlers env ((signal_number, h) # rest) w =
     bind (os_call env (Signal signal_number h) w) (\<lambda>_. set_signal_handlers env rest)"

definition register_atexit_function :: "hook \<Rightarrow> world \<Rightarrow> unit outcome" where
  "register_atexit_function func w =
     Returned () (log (AtexitRegister func) (w\<lparr>atexit := atexit w @ [func]\<rparr>))"

section \<open>The detach protocol\<close>

text \<open>
  \<^verbatim>\<open>time.sleep(0.1)\<close>: a tenth of a second during which the other processes change
  the filesystem.
\<close>

definition sleep :: "os_env \<Rightarrow> world \<Rightarrow> world" where
  "sleep env w = log (Sleep 100) (w\<lparr>fs := during_sleep env (trace w) (fs w)\<rparr>)"

text \<open>
  \<^verbatim>\<open>while not os.path.exists(p): time.sleep(0.1)\<close>. The loop has no bound: where the
  path never appears the function has no value.
\<close>

partial_function (option) wait_for_path :: "os_env \<Rightarrow> pathname \<Rightarrow> world \<Rightarrow> world option" where
  "wait_for_path env p w =
     (if fs w p \<noteq> None then Some (log (PathExists p) w)
      else wait_for_path env p (sleep env (log (PathExists p) w)))"

record file_obj =
  fo_fd :: fd
  fo_path :: pathname
  fo_closed :: bool

text \<open>
  An instance of \<^verbatim>\<open>PidFile\<close>; \<open>handle\<close> is its attribute \<^verbatim>\<open>self.pidfile\<close>, the
  file object.
\<close>

record PidFile =
  path :: pathname
  enter_err_msg :: "string option"
  handle :: file_obj

text \<open>
  \<^verbatim>\<open>fork_then_exit_parent\<close>, local to \<^verbatim>\<open>detach_process_context\<close>. The handler
  catches \<^verbatim>\<open>OSError\<close> only; \<^verbatim>\<open>pidfile.path\<close> of \<^verbatim>\<open>None\<close> raises
  \<^verbatim>\<open>AttributeError\<close>, which passes through it.
\<close>

definition fork_then_exit_parent ::
  "os_env \<Rightarrow> PidFile option \<Rightarrow> string \<Rightarrow> world \<Rightarrow> unit outcome option" where
  "fork_then_exit_parent env pidfile error_message w =
     (case os_call env Fork w of
        Raised exc w1 \<Rightarrow>
          Some (case exc of
                  OSError n s t \<Rightarrow>
                    Raised (new_DaemonProcessDetachError (Some exc)
                      (error_message @ '': ['' @ str_int n @ ''] '' @ s)) w1
                | _ \<Rightarrow> Raised exc w1)
      | Exited st w1 \<Rightarrow> Some (Exited st w1)
      | Returned _ w1 \<Rightarrow>
          (if fork_result env (trace w1) > 0
           then (case pidfile of
                   None \<Rightarrow> Some (Raised (AttributeError ''NoneType object has no attribute path'') w1)
                 | Some pf \<Rightarrow>
                     (case wait_for_path env (path pf) w1 of
                        None \<Rightarrow> None
                      | Some w2 \<Rightarrow> Some (Exited 0 (log (OsExit 0) w2))))
           else Some (Returned () w1)))"

definition detach_process_context :: "os_env \<Rightarrow> PidFile option \<Rightarrow> world \<Rightarrow> unit outcome option" where
  "detach_process_context env pidfile w =
     (case fork_then_exit_parent env pidfile ''Failed first fork'' w of
        Some (Returned _ w1) \<Rightarrow>
          (case os_call env Setsid w1 of
             Returned _ w2 \<Rightarrow> fork_then_exit_parent env pidfile ''Failed second fork'' w2
           | r \<Rightarrow> Some r)
      | r \<Rightarrow> r)"

section \<open>The lock file\<close>

definition closed_file_error :: exn where
  "closed_file_error = ValueError ''I/O operation on closed file''"

text \<open>
  \<^verbatim>\<open>open(p, 'a+')\<close>: the file is created when it is missing, and the position is
  its end.
\<close>

definition builtin_open :: "os_env \<Rightarrow> pathname \<Rightarrow> world \<Rightarrow> file_obj outcome" where
  "builtin_open env p w =
     bind (os_call env (OpenFile p) w)
       (\<lambda>_ w'. Returned \<lparr>fo_fd = lowest_free (open_fds w'), fo_path = p, fo_closed = False\<rparr>
          (w'\<lparr>open_fds := lowest_free (open_fds w') # open_fds w',
              fs := (case fs w' p of None \<Rightarrow> (fs w')(p \<mapsto> []) | Some c \<Rightarrow> fs w'),
              offsets := (offsets w')(lowest_free (open_fds w') :=
                            (case fs w' p of None \<Rightarrow> 0 | Some c \<Rightarrow> length c))\<rparr>))"

text \<open>
  \<^verbatim>\<open>fcntl.flock(f.fileno(), op)\<close>. The exclusive, non-blocking request fails when the
  lock of the file is held through another open file.
\<close>

definition fcntl_flock :: "os_env \<Rightarrow> file_obj \<Rightarrow> lock_op \<Rightarrow> world \<Rightarrow> unit outcome" where
  "fcntl_flock env f op w =
     (if fo_closed f then Raised closed_file_error w
      else if fo_fd f \<notin> set (open_fds w) then Raised bad_file_descriptor (log (Flock (fo_fd f) op) w)
      else (case op of
              LOCK_EX_NB \<Rightarrow>
                (if locks w (fo_path f) \<noteq> None \<and> locks w (fo_path f) \<noteq> Some (OwnFd (fo_fd f))
                 then Raised (OSError EWOULDBLOCK ''Resource temporarily unavailable''
                                ''[Errno 11] Resource temporarily unavailable'')
                        (log (Flock (fo_fd f) op) w)
                 else bind (os_call env (Flock (fo_fd f) op) w)
                        (\<lambda>_ w'. Returned () (w'\<lparr>locks := (locks w')(fo_path f \<mapsto> OwnFd (fo_fd f))\<rparr>)))
            | LOCK_UN \<Rightarrow>
                bind (os_call env (Flock (fo_fd f) op) w)
                  (\<lambda>_ w'. Returned () (w'\<lparr>locks := release_locks (fo_fd f) (locks w')\<rparr>))))"

text \<open>The file of a path that has been removed is out of reach of the paths.\<close>

definition fs_change :: "pathname \<Rightarrow> (string \<Rightarrow> string) \<Rightarrow> (pathname \<Rightarrow> string option) \<Rightarrow> (pathname \<Rightarrow> string option)" where
  "fs_change p g files = (case files p of None \<Rightarrow> files | Some c \<Rightarrow> files(p \<mapsto> g c))"

definition file_seek :: "os_env \<Rightarrow> file_obj \<Rightarrow> nat \<Rightarrow> world \<Rightarrow> unit outcome" where
  "file_seek env f n w =
     (if fo_closed f then Raised closed_file_error w
      else bind (os_call env (FileSeek (fo_fd f) n) w)
             (\<lambda>_ w'. Returned () (w'\<lparr>offsets := (offsets w')(fo_fd f := n)\<rparr>)))"

text \<open>\<^verbatim>\<open>f.truncate()\<close>: the file is cut at the current position.\<close>

definition file_truncate :: "os_env \<Rightarrow> file_obj \<Rightarrow> world \<Rightarrow> unit outcome" where
  "file_truncate env f w =
     (if fo_closed f then Raised closed_file_error w
      else bind (os_call env (FileTruncate (fo_fd f)) w)
             (\<lambda>_ w'. Returned () (w'\<lparr>fs := fs_change (fo_path f) (take (offsets w' (fo_fd f))) (fs w')\<rparr>)))"

text \<open>
  \<^verbatim>\<open>f.write(s)\<close> on a file opened for appending: the text goes to the end of the
  file, wherever the position is. The buffer between \<^verbatim>\<open>write\<close> and \<^verbatim>\<open>flush\<close>
  is not kept: the text is in the file at once.
\<close>

definition file_write :: "os_env \<Rightarrow> file_obj \<Rightarrow> string \<Rightarrow> world \<Rightarrow> unit outcome" where
  "file_write env f s w =
     (if fo_closed f then Raised closed_file_error w
      else bind (os_call env (FileWrite (fo_fd f) s) w)
             (\<lambda>_ w'. Returned ()
                (w'\<lparr>fs := fs_change (fo_path f) (\<lambda>c. c @ s) (fs w'),
                    offsets := (offsets w')(fo_fd f :=
                       (case fs w' (fo_path f) of None \<Rightarrow> length s | Some c \<Rightarrow> length c + length s))\<rparr>)))"

definition file_flush :: "os_env \<Rightarrow> file_obj \<Rightarrow> world \<Rightarrow> unit outcome" where
  "file_flush env f w =
     (if fo_closed f then Raised closed_file_error w
      else os_call env (FileFlush (fo_fd f)) w)"

text \<open>
  \<^verbatim>\<open>f.close()\<close>: nothing on a file object that is closed already; otherwise the
  object is closed whatever \<^verbatim>\<open>os.close\<close> answers.
\<close>

definition file_close :: "os_env \<Rightarrow> file_obj \<Rightarrow> world \<Rightarrow> file_obj \<times> unit outcome" where
  "file_close env f w =
     (if fo_closed f then (f, Returned () w)
      else (f\<lparr>fo_closed := True\<rparr>, os_close env (fo_fd f) w))"

definition os_remove :: "os_env \<Rightarrow> pathname \<Rightarrow> world \<Rightarrow> unit outcome" where
  "os_remove env p w =
     (if fs w p = None
      then Raised (OSError ENOENT ''No such file or directory'' ''[Errno 2] No such file or directory'')
             (log (Remove p) w)
      else bind (os_call env (Remove p) w)
             (\<lambda>_ w'. Returned () (w'\<lparr>fs := (fs w')(p := None), locks := (locks w')(p := None)\<rparr>)))"

text \<open>\<^verbatim>\<open>sys.exit(arg)\<close> raises \<^verbatim>\<open>SystemExit(arg)\<close>.\<close>

definition sys_exit :: "string option \<Rightarrow> world \<Rightarrow> 'a outcome" where
  "sys_exit arg w = Raised (SystemExit arg) w"

text \<open>\<^verbatim>\<open>try: ... except IOError: sys.exit(msg)\<close>.\<close>

definition except_IOError_exit :: "string option \<Rightarrow> unit outcome \<Rightarrow> unit outcome" where
  "except_IOError_exit msg r =
     (case r of
        Raised exc w \<Rightarrow> (if isinstance_OSError exc then sys_exit msg w else Raised exc w)
      | _ \<Rightarrow> r)"

text \<open>
  \<^verbatim>\<open>PidFile.__init__\<close>: the file is opened outside of the \<^verbatim>\<open>try\<close>; inside it the
  lock is taken and given back, the file is closed and its path removed.
\<close>

definition PidFile_init :: "os_env \<Rightarrow> pathname \<Rightarrow> string option \<Rightarrow> world \<Rightarrow> PidFile outcome" where
  "PidFile_init env p msg w =
     bind (builtin_open env p w)
       (\<lambda>f w1.
          bind (except_IOError_exit msg
                  (bind (fcntl_flock env f LOCK_EX_NB w1)
                     (\<lambda>_ w2. bind (fcntl_flock env f LOCK_UN w2)
                        (\<lambda>_ w3. bind (snd (file_close env f w3))
                           (\<lambda>_. os_remove env p)))))
            (\<lambda>_. Returned \<lparr>path = p, enter_err_msg = msg, handle = fst (file_close env f w1)\<rparr>))"

definition PidFile_enter :: "os_env \<Rightarrow> PidFile \<Rightarrow> world \<Rightarrow> PidFile \<times> file_obj outcome" where
  "PidFile_enter env self w =
     (case builtin_open env (path self) w of
        Raised e w1 \<Rightarrow> (self, Raised e w1)
      | Exited st w1 \<Rightarrow> (self, Exited st w1)
      | Returned f w1 \<Rightarrow>
          (self\<lparr>handle := f\<rparr>,
           bind (except_IOError_exit (enter_err_msg self) (fcntl_flock env f LOCK_EX_NB w1))
             (\<lambda>_ w2. bind (file_seek env f 0 w2)
               (\<lambda>_ w3. bind (file_truncate env f w3)
                 (\<lambda>_ w4. bind (file_write env f (str_int (getpid env)) (log Getpid w4))
                   (\<lambda>_ w5. bind (file_flush env f w5)
                     (\<lambda>_ w6. bind (file_seek env f 0 w6)
                       (\<lambda>_. Returned f))))))))"

definition PidFile_exit :: "os_env \<Rightarrow> PidFile \<Rightarrow> world \<Rightarrow> PidFile \<times> unit outcome" where
  "PidFile_exit env self w =
     (self\<lparr>handle := fst (file_close env (handle self) w)\<rparr>,
      bind (case snd (file_close env (handle self) w) of
              Raised err w1 \<Rightarrow>
                (case err of
                   OSError n s t \<Rightarrow> (if n \<noteq> 9 then Raised err w1 else Returned () w1)
                 | _ \<Rightarrow> Raised err w1)
            | r \<Rightarrow> r)
        (\<lambda>_. os_remove env (path self)))"

section \<open>The daemon context\<close>

record DaemonContext =
  chroot_directory :: "pathname option"
  working_directory :: pathname
  umask :: int
  uid :: int
  gid :: int
  prevent_core :: bool
  detach_process :: bool
  files_preserve :: "pyobj option list option"
  pidfile :: "PidFile option"
  stdin :: "pyobj option"
  stdout :: "pyobj option"
  stderr :: "pyobj option"
  signal_map :: "(int \<times> target) list"
  is_open :: bool
  other_attributes :: "string \<Rightarrow> bool"

text \<open>
  \<^verbatim>\<open>DaemonContext.terminate\<close>: the handler raises \<^verbatim>\<open>SystemExit\<close> with a message
  made of the number of the signal.
\<close>

definition terminate :: "int \<Rightarrow> world \<Rightarrow> unit outcome" where
  "terminate signal_number w =
     Raised (SystemExit (Some (''Terminating on signal '' @ str_int signal_number))) w"

text \<open>
  \<^verbatim>\<open>getattr(self, name)\<close> finds the names that the body of the class and its
  constructor define, which are listed here, and the other attributes of the instance:
  those it inherits, those set on it, those of a subclass. The latter are the field
  \<open>other_attributes\<close> of the context.
\<close>

definition context_attributes :: "string list" where
  "context_attributes =
     [''chroot_directory'', ''working_directory'', ''umask'', ''uid'', ''gid'',
      ''prevent_core'', ''detach_process'', ''files_preserve'', ''pidfile'',
      ''stdin'', ''stdout'', ''stderr'', ''signal_map'', ''_is_open'', ''is_open'',
      ''__init__'', ''open'', ''__enter__'', ''close'', ''__exit__'', ''terminate'',
      ''_get_exclude_file_descriptors'', ''_make_signal_handler'',
      ''_make_signal_handler_map'']"

definition make_signal_handler :: "DaemonContext \<Rightarrow> target \<Rightarrow> exn + handler" where
  "make_signal_handler c tgt =
     (case tgt of
        TNone \<Rightarrow> Inr SIG_IGN
      | TName name \<Rightarrow>
          (if name \<in> set context_attributes \<or> other_attributes c name then Inr (Attr name)
           else Inl (AttributeError (''DaemonContext object has no attribute '' @ name)))
      | TDirect v \<Rightarrow> Inr (Direct v))"

fun handler_pairs :: "DaemonContext \<Rightarrow> (int \<times> target) list \<Rightarrow> exn + (int \<times> handler) list" where
  "handler_pairs c [] = Inr []"
| "handler_pairs c ((signal_number, tgt) # rest) =
     (case make_signal_handler c tgt of
        Inl e \<Rightarrow> Inl e
      | Inr h \<Rightarrow> (case handler_pairs c rest of
                    Inl e \<Rightarrow> Inl e
                  | Inr ps \<Rightarrow> Inr ((signal_number, h) # ps)))"

definition make_signal_handler_map :: "DaemonContext \<Rightarrow> exn + (int \<times> handler) list" where
  "make_signal_handler_map c =
     (case handler_pairs c (signal_map c) of
        Inl e \<Rightarrow> Inl e
      | Inr ps \<Rightarrow> Inr (dict_of ps))"

fun hasattr_fileno :: "pyobj option \<Rightarrow> bool" where
  "hasattr_fileno (Some (PyFile _)) = True"
| "hasattr_fileno _ = False"

fun get_file_descriptor :: "pyobj \<Rightarrow> int option" where
  "get_file_descriptor (PyFile r) = r"
| "get_file_descriptor _ = None"

fun exclude_descriptors :: "pyobj option list \<Rightarrow> pyobj set \<Rightarrow> pyobj set" where
  "exclude_descriptors [] acc = acc"
| "exclude_descriptors (None # items) acc = exclude_descriptors items acc"
| "exclude_descriptors (Some item # items) acc =
     (case get_file_descriptor item of
        Some file_descriptor \<Rightarrow> exclude_descriptors items (insert (PyInt file_descriptor) acc)
      | None \<Rightarrow> exclude_descriptors items (insert item acc))"

text \<open>
  \<^verbatim>\<open>_get_exclude_file_descriptors\<close>. The list of the attribute is extended in place:
  the context keeps the longer list, unless the attribute is \<^verbatim>\<open>None\<close>.
\<close>

definition get_exclude_file_descriptors :: "DaemonContext \<Rightarrow> DaemonContext \<times> pyobj set" where
  "get_exclude_file_descriptors c =
     (case files_preserve c of
        None \<Rightarrow>
          (c, exclude_descriptors (filter hasattr_fileno [stdin c, stdout c, stderr c]) {})
      | Some items \<Rightarrow>
          (c\<lparr>files_preserve := Some (items @ filter hasattr_fileno [stdin c, stdout c, stderr c])\<rparr>,
           exclude_descriptors (items @ filter hasattr_fileno [stdin c, stdout c, stderr c]) {}))"

text \<open>Lines 377 to 385 of \<^verbatim>\<open>open\<close>: root, core dumps, mask, directory, owner.\<close>

definition open_environment :: "os_env \<Rightarrow> DaemonContext \<Rightarrow> world \<Rightarrow> unit outcome" where
  "open_environment env c w =
     bind (case chroot_directory c of
             None \<Rightarrow> Returned () w
           | Some d \<Rightarrow> change_root_directory env d w)
       (\<lambda>_ w1. bind (if prevent_core c then prevent_core_dump env w1 else Returned () w1)
         (\<lambda>_ w2. bind (change_file_creation_mask env (umask c) w2)
           (\<lambda>_ w3. bind (change_working_directory env (working_directory c) w3)
             (\<lambda>_. change_process_owner env (uid c) (gid c)))))"

text \<open>Lines 393 to 398: the descriptors are closed, then the three streams redirected.\<close>

definition open_descriptors :: "os_env \<Rightarrow> DaemonContext \<Rightarrow> pyobj set \<Rightarrow> world \<Rightarrow> unit outcome" where
  "open_descriptors env c exclude_fds w =
     bind (close_all_open_files env exclude_fds w)
       (\<lambda>_ w1. bind (redirect_stream env 0 (stdin c) w1)
         (\<lambda>_ w2. bind (redirect_stream env 1 (stdout c) w2)
           (\<lambda>_. redirect_stream env 2 (stderr c))))"

text \<open>Lines 400 to 405: the lock file is entered, the context marked, the exit hook registered.\<close>

definition open_pidfile :: "os_env \<Rightarrow> DaemonContext \<Rightarrow> world \<Rightarrow> DaemonContext \<times> unit outcome" where
  "open_pidfile env c w =
     (case pidfile c of
        None \<Rightarrow> (c\<lparr>is_open := True\<rparr>, register_atexit_function Close_hook w)
      | Some pf \<Rightarrow>
          (case snd (PidFile_enter env pf w) of
             Returned _ w1 \<Rightarrow>
               (c\<lparr>pidfile := Some (fst (PidFile_enter env pf w)), is_open := True\<rparr>,
                register_atexit_function Close_hook w1)
           | Raised e w1 \<Rightarrow> (c\<lparr>pidfile := Some (fst (PidFile_enter env pf w))\<rparr>, Raised e w1)
           | Exited st w1 \<Rightarrow> (c\<lparr>pidfile := Some (fst (PidFile_enter env pf w))\<rparr>, Exited st w1)))"

text \<open>Lines 390 to 405: everything after the detachment.\<close>

definition open_daemon :: "os_env \<Rightarrow> DaemonContext \<Rightarrow> world \<Rightarrow> DaemonContext \<times> unit outcome" where
  "open_daemon env c w =
     (case make_signal_handler_map c of
        Inl e \<Rightarrow> (c, Raised e w)
      | Inr signal_handler_map \<Rightarrow>
          (case set_signal_handlers env signal_handler_map w of
             Raised e w1 \<Rightarrow> (c, Raised e w1)
           | Exited st w1 \<Rightarrow> (c, Exited st w1)
           | Returned _ w1 \<Rightarrow>
               (case open_descriptors env (fst (get_exclude_file_descriptors c))
                       (snd (get_exclude_file_descriptors c)) w1 of
                  Raised e w2 \<Rightarrow> (fst (get_exclude_file_descriptors c), Raised e w2)
                | Exited st w2 \<Rightarrow> (fst (get_exclude_file_descriptors c), Exited st w2)
                | Returned _ w2 \<Rightarrow> open_pidfile env (fst (get_exclude_file_descriptors c)) w2)))"

text \<open>
  \<^verbatim>\<open>DaemonContext.open\<close>. The result is the context as the call leaves it, with how
  the call ended; it has no value when the parent of a fork waits for ever.
\<close>

definition DaemonContext_open ::
  "os_env \<Rightarrow> DaemonContext \<Rightarrow> world \<Rightarrow> (DaemonContext \<times> unit outcome) option" where
  "DaemonContext_open env c w =
     (if is_open c then Some (c, Returned () w)
      else (case open_environment env c w of
              Raised e w1 \<Rightarrow> Some (c, Raised e w1)
            | Exited st w1 \<Rightarrow> Some (c, Exited st w1)
            | Returned _ w1 \<Rightarrow>
                (case (if detach_process c then detach_process_context env (pidfile c) w1
                       else Some (Returned () w1)) of
                   None \<Rightarrow> None
                 | Some (Raised e w2) \<Rightarrow> Some (c, Raised e w2)
                 | Some (Exited st w2) \<Rightarrow> Some (c, Exited st w2)
                 | Some (Returned _ w2) \<Rightarrow> Some (open_daemon env c w2))))"

text \<open>\<^verbatim>\<open>DaemonContext.close\<close>.\<close>

definition DaemonContext_close :: "os_env \<Rightarrow> DaemonContext \<Rightarrow> world \<Rightarrow> DaemonContext \<times> unit outcome" where
  "DaemonContext_close env c w =
     (if \<not> is_open c then (c, Returned () w)
      else (case pidfile c of
              None \<Rightarrow> (c\<lparr>is_open := False\<rparr>, Returned () w)
            | Some pf \<Rightarrow>
                (case snd (PidFile_exit env pf w) of
                   Returned _ w1 \<Rightarrow>
                     (c\<lparr>pidfile := Some (fst (PidFile_exit env pf w)), is_open := False\<rparr>, Returned () w1)
                 | r \<Rightarrow> (c\<lparr>pidfile := Some (fst (PidFile_exit env pf w))\<rparr>, r))))"

text \<open>The exit hook that \<^verbatim>\<open>open\<close> registers is the bound method \<^verbatim>\<open>self.close\<close>.\<close>

fun call_hook :: "os_env \<Rightarrow> hook \<Rightarrow> DaemonContext \<Rightarrow> world \<Rightarrow> DaemonContext \<times> unit outcome" where
  "call_hook env Close_hook c w = DaemonContext_close env c w"

section \<open>Concrete inputs, expected calls and notions of the proofs\<close>

text \<open>The world in which a call ended.\<close>

fun world_of :: "'a outcome \<Rightarrow> world" where
  "world_of (Returned _ w) = w"
| "world_of (Raised _ w) = w"
| "world_of (Exited _ w) = w"

text \<open>
  An environment without faults, in which every fork returns in the child, and a
  process with the three standard descriptors.
\<close>

definition env0 :: os_env where
  "env0 = \<lparr>fault = (\<lambda>_ _. None), fork_result = (\<lambda>_. 0), during_sleep = (\<lambda>_ f. f),
           rlimit_nofile_hard = 16, RLIM_INFINITY = - 1, getpid = 4242,
           signal_module = (\<lambda>_. None)\<rparr>"

definition world0 :: world where
  "world0 = \<lparr>trace = [], open_fds = [0, 1, 2], fs = (\<lambda>_. None), locks = (\<lambda>_. None),
             offsets = (\<lambda>_. 0), atexit = []\<rparr>"

text \<open>A context with the default options of the constructor, and variants of it.\<close>

definition ctx0 :: DaemonContext where
  "ctx0 = \<lparr>chroot_directory = None, working_directory = ''/'', umask = 0, uid = 1000, gid = 1000,
           prevent_core = True, detach_process = False, files_preserve = None, pidfile = None,
           stdin = None, stdout = None, stderr = None, signal_map = [], is_open = False,
           other_attributes = (\<lambda>name. name \<in> set [''__class__'', ''__dict__'', ''__doc__'',
                                                     ''__module__''])\<rparr>"

definition ctx_preserve :: DaemonContext where
  "ctx_preserve = ctx0\<lparr>files_preserve := Some [Some (PyInt 3), Some (PyInt 7)],
                       stdin := Some (PyFile (Some 10)), stdout := Some (PyFile (Some 11)),
                       stderr := Some (PyFile (Some 12))\<rparr>"

definition world_many :: world where
  "world_many = world0\<lparr>open_fds := [0, 1, 2, 3, 4, 7, 9, 10, 11, 12, 15, 40]\<rparr>"

definition env_eio :: os_env where
  "env_eio = env0\<lparr>fault := (\<lambda>tr ev. if ev = Close 4
      then Some (EnvFault 5 ''Input/output error'' ''[Errno 5] Input/output error'') else None)\<rparr>"

text \<open>
  The pairs that the generator of \<^verbatim>\<open>make_default_signal_map\<close> yields, written out
  name by name.
\<close>

definition default_pairs :: "os_env \<Rightarrow> (int \<times> target) list" where
  "default_pairs env =
     (case signal_module env ''SIGTSTP'' of None \<Rightarrow> [] | Some n \<Rightarrow> [(n, TNone)]) @
     (case signal_module env ''SIGTTIN'' of None \<Rightarrow> [] | Some n \<Rightarrow> [(n, TNone)]) @
     (case signal_module env ''SIGTTOU'' of None \<Rightarrow> [] | Some n \<Rightarrow> [(n, TNone)]) @
     (case signal_module env ''SIGTERM'' of None \<Rightarrow> [] | Some n \<Rightarrow> [(n, TName ''terminate'')])"

text \<open>
  The call of an installed handler when the signal arrives, for the attribute whose body
  the module defines.
\<close>

fun call_handler :: "handler \<Rightarrow> int \<Rightarrow> world \<Rightarrow> unit outcome option" where
  "call_handler (Attr name) signal_number w =
     (if name = ''terminate'' then Some (terminate signal_number w) else None)"
| "call_handler _ signal_number w = None"

text \<open>A platform that has two of the four signals.\<close>

definition env_sig :: os_env where
  "env_sig = env0\<lparr>signal_module :=
     (\<lambda>name. if name = ''SIGTERM'' then Some 15 else if name = ''SIGTSTP'' then Some 20 else None)\<rparr>"

text \<open>
  A lock file as its constructor leaves it, and a world in which its path holds the
  text of an earlier run.
\<close>

definition pidfile0 :: PidFile where
  "pidfile0 = \<lparr>path = ''/run/q.pid'', enter_err_msg = Some ''already running'',
               handle = \<lparr>fo_fd = 3, fo_path = ''/run/q.pid'', fo_closed = True\<rparr>\<rparr>"

definition world_stale :: world where
  "world_stale = world0\<lparr>fs := (\<lambda>p. if p = ''/run/q.pid'' then Some ''977 stale'' else None)\<rparr>"

text \<open>A world in which another process holds the lock of the path.\<close>

definition world_locked :: world where
  "world_locked = world0\<lparr>
     fs := (\<lambda>p. if p = ''/run/q.pid'' then Some ''977'' else None),
     locks := (\<lambda>p. if p = ''/run/q.pid'' then Some OtherProcess else None)\<rparr>"

text \<open>
  The world in which the parent of a fork is after \<open>n\<close> rounds of its loop: it has
  looked for the path and slept \<open>n\<close> times.
\<close>

fun after_polls :: "os_env \<Rightarrow> pathname \<Rightarrow> nat \<Rightarrow> world \<Rightarrow> world" where
  "after_polls env p 0 w = w"
| "after_polls env p (Suc n) w = after_polls env p n (sleep env (log (PathExists p) w))"

text \<open>
  An environment in which the first fork returns in the child and the second in the
  parent, and in which the path of the lock file appears while the parent sleeps.
\<close>

definition env_second_parent :: os_env where
  "env_second_parent = env0\<lparr>
     fork_result := (\<lambda>tr. if tr = [Fork] then 0 else 4243),
     during_sleep := (\<lambda>tr files. files(''/run/q.pid'' \<mapsto> ''4243''))\<rparr>"

text \<open>An environment in which the first fork returns in the parent.\<close>

definition env_first_parent :: os_env where
  "env_first_parent = env0\<lparr>
     fork_result := (\<lambda>tr. 4243),
     during_sleep := (\<lambda>tr files. files(''/run/q.pid'' \<mapsto> ''4243''))\<rparr>"

text \<open>A context that detaches and has no lock file.\<close>

definition ctx_detach :: DaemonContext where
  "ctx_detach = ctx0\<lparr>detach_process := True\<rparr>"

text \<open>
  A call that ends in the world \<open>w'\<close> after a start in \<open>w\<close> has made the calls of one
  of the sequences of \<open>S\<close>, all of them when it returns and the first of them when it
  raises; it does not exit.
\<close>

definition emits :: "'a outcome \<Rightarrow> world \<Rightarrow> event list set \<Rightarrow> bool" where
  "emits r w S =
     (case r of
        Returned x w' \<Rightarrow> (\<exists>seg \<in> S. trace w' = trace w @ seg)
      | Raised e w' \<Rightarrow> (\<exists>seg \<in> S. \<exists>p. trace w' = trace w @ p \<and> prefix p seg)
      | Exited st w' \<Rightarrow> False)"

definition seqs :: "event list set \<Rightarrow> event list set \<Rightarrow> event list set" where
  "seqs S1 S2 = {s1 @ s2 | s1 s2. s1 \<in> S1 \<and> s2 \<in> S2}"

text \<open>
  The calls of a run of \<^verbatim>\<open>open\<close> in which nothing fails, step by step: the root,
  the core dumps, the mask, the working directory, the group and then the user.
\<close>

definition environment_calls :: "DaemonContext \<Rightarrow> event list" where
  "environment_calls c =
     (case chroot_directory c of None \<Rightarrow> [] | Some d \<Rightarrow> [Chdir d, Chroot d]) @
     (if prevent_core c then [GetrlimitCore, SetrlimitCore 0 0] else []) @
     [Umask (umask c)] @
     [Chdir (working_directory c)] @
     [Setgid (gid c), Setuid (uid c)]"

text \<open>The installation of the handlers, one call for each item of the handler map.\<close>

definition signal_calls :: "DaemonContext \<Rightarrow> event list" where
  "signal_calls c =
     (case make_signal_handler_map c of
        Inl e \<Rightarrow> []
      | Inr signal_handler_map \<Rightarrow> map (\<lambda>(n, h). Signal n h) signal_handler_map)"

text \<open>The sweep: the limit is read, then the descriptors are closed from the highest down.\<close>

definition sweep_calls :: "os_env \<Rightarrow> pyobj set \<Rightarrow> event list" where
  "sweep_calls env exclude =
     GetrlimitNofile #
     map Close (filter (\<lambda>d. \<not> in_exclude d exclude)
       (rev (range_list (if rlimit_nofile_hard env = RLIM_INFINITY env then MAXFD
                         else rlimit_nofile_hard env))))"

text \<open>
  The redirection of one standard stream; \<open>t\<close> is the descriptor that the null device
  is opened on when there is no replacement stream.
\<close>

definition redirect_calls :: "pyobj option \<Rightarrow> fd \<Rightarrow> fd \<Rightarrow> event list" where
  "redirect_calls target_stream system_fd t =
     (case target_stream of
        None \<Rightarrow> [OpenDevnull, Dup2 t system_fd]
      | Some s \<Rightarrow> (case get_file_descriptor s of None \<Rightarrow> [] | Some n \<Rightarrow> [Dup2 n system_fd]))"

text \<open>The entry into the lock file, on the descriptor \<open>n\<close>.\<close>

definition pidfile_calls :: "os_env \<Rightarrow> PidFile option \<Rightarrow> fd \<Rightarrow> event list" where
  "pidfile_calls env pfo n =
     (case pfo of
        None \<Rightarrow> []
      | Some pf \<Rightarrow>
          [OpenFile (path pf), Flock n LOCK_EX_NB, FileSeek n 0, FileTruncate n, Getpid,
           FileWrite n (str_int (getpid env)), FileFlush n, FileSeek n 0])"

text \<open>
  The steps after the detachment, up to the entry into the lock file; \<open>t0\<close>,
  \<open>t1\<close>, \<open>t2\<close> and \<open>n\<close> are the descriptors that the operating system hands out
  on the way.
\<close>

definition daemon_calls :: "os_env \<Rightarrow> DaemonContext \<Rightarrow> fd \<Rightarrow> fd \<Rightarrow> fd \<Rightarrow> fd \<Rightarrow> event list" where
  "daemon_calls env c t0 t1 t2 n =
     signal_calls c @
     sweep_calls env (snd (get_exclude_file_descriptors c)) @
     (redirect_calls (stdin c) 0 t0 @ redirect_calls (stdout c) 1 t1 @
      redirect_calls (stderr c) 2 t2) @
     pidfile_calls env (pidfile c) n"

text \<open>The twelve steps of \<^verbatim>\<open>open\<close>; marking the context open is no call.\<close>

definition open_calls :: "os_env \<Rightarrow> DaemonContext \<Rightarrow> fd \<Rightarrow> fd \<Rightarrow> fd \<Rightarrow> fd \<Rightarrow> event list" where
  "open_calls env c t0 t1 t2 n =
     environment_calls c @
     (if detach_process c then [Fork, Setsid, Fork] else []) @
     daemon_calls env c t0 t1 t2 n @
     [AtexitRegister Close_hook]"

text \<open>
  A context with every optional step switched on, and an environment of a small limit
  on descriptors in which both forks return in the child.
\<close>

definition ctx_full :: DaemonContext where
  "ctx_full = ctx0\<lparr>chroot_directory := Some ''/srv'', detach_process := True,
                   pidfile := Some pidfile0, signal_map := [(15, TName ''terminate'')]\<rparr>"

definition env_small :: os_env where
  "env_small = env0\<lparr>rlimit_nofile_hard := 4\<rparr>"

text \<open>The same environment, in which the user cannot be changed.\<close>

definition env_eperm :: os_env where
  "env_eperm = env_small\<lparr>fault := (\<lambda>tr ev. if ev = Setuid 1000
      then Some (EnvFault 1 ''Operation not permitted'' ''[Errno 1] Operation not permitted'')
      else None)\<rparr>"

text \<open>
  An exception of one of the module's classes, raised in the world \<open>w'\<close>, is chained
  when its cause is the exception with which the operating system failed the last call
  made. A call keeps to the built-in exceptions when it raises none of the module's, is
  chained when those of the module's that it raises are, and is faulting when it raises
  nothing but the exception of its last call.
\<close>

definition chained :: "os_env \<Rightarrow> world \<Rightarrow> exn \<Rightarrow> bool" where
  "chained env w' e =
     (isinstance_DaemonError e \<longrightarrow>
        (\<exists>tr ev f. trace w' = tr @ [ev] \<and> fault env tr ev = Some f \<and>
                   cause e = Some (exn_of_fault f)))"

definition builtin_only :: "'a outcome \<Rightarrow> bool" where
  "builtin_only r = (case r of Raised e w \<Rightarrow> \<not> isinstance_DaemonError e | _ \<Rightarrow> True)"

definition chained_only :: "os_env \<Rightarrow> 'a outcome \<Rightarrow> bool" where
  "chained_only env r = (case r of Raised e w \<Rightarrow> chained env w e | _ \<Rightarrow> True)"

definition faulting :: "os_env \<Rightarrow> 'a outcome \<Rightarrow> bool" where
  "faulting env r =
     (case r of
        Raised e w' \<Rightarrow>
          (\<exists>tr ev f. trace w' = tr @ [ev] \<and> fault env tr ev = Some f \<and> e = exn_of_fault f)
      | _ \<Rightarrow> True)"

text \<open>An environment in which a directory is missing and no process can be created.\<close>

definition env_faults :: os_env where
  "env_faults = env0\<lparr>fault := (\<lambda>tr ev.
     if ev = Fork
     then Some (EnvFault 11 ''Resource temporarily unavailable''
                  ''[Errno 11] Resource temporarily unavailable'')
     else if ev = Chdir ''/nowhere''
     then Some (EnvFault 2 ''No such file or directory'' ''[Errno 2] No such file or directory'')
     else None)\<rparr>"

text \<open>
  The calls that the operating system can fail: all but the test of a path, the sleep,
  the exit, the process id and the registration of an exit hook, which the embedding
  lets succeed always.
\<close>

fun fallible :: "event \<Rightarrow> bool" where
  "fallible (PathExists _) = False"
| "fallible (Sleep _) = False"
| "fallible (OsExit _) = False"
| "fallible Getpid = False"
| "fallible (AtexitRegister _) = False"
| "fallible _ = True"

fun is_EBADF :: "os_fault \<Rightarrow> bool" where
  "is_EBADF (EnvFault n _ _) = (n = EBADF)"
| "is_EBADF _ = False"

text \<open>
  The operating system fails the call \<open>ev\<close>, made after the calls \<open>tr\<close>, in a way that
  the code does not ignore. The sweep ignores the failure of \<^verbatim>\<open>os.close\<close> on a
  descriptor that is not open, and \<^verbatim>\<open>EBADF\<close> on one that is; \<open>F\<close> holds the
  descriptors that are open when \<^verbatim>\<open>open\<close> is called, which are those open when the
  sweep comes to them.
\<close>

definition fails :: "os_env \<Rightarrow> fd set \<Rightarrow> event list \<Rightarrow> event \<Rightarrow> bool" where
  "fails env F tr ev =
     (fallible ev \<and>
      (case fault env tr ev of
         None \<Rightarrow> False
       | Some f \<Rightarrow> (case ev of Close d \<Rightarrow> d \<in> F \<and> \<not> is_EBADF f | _ \<Rightarrow> True)))"

text \<open>
  Of the calls \<open>seg\<close> made after the calls \<open>t0\<close>: none fails; if one fails it is the
  last. A call is sound when none of its calls fails unless it raises, and then a call
  that fails is its last.
\<close>

fun no_failure :: "os_env \<Rightarrow> fd set \<Rightarrow> event list \<Rightarrow> event list \<Rightarrow> bool" where
  "no_failure env F t0 [] = True"
| "no_failure env F t0 (ev # rest) = (\<not> fails env F t0 ev \<and> no_failure env F (t0 @ [ev]) rest)"

fun failure_last :: "os_env \<Rightarrow> fd set \<Rightarrow> event list \<Rightarrow> event list \<Rightarrow> bool" where
  "failure_last env F t0 [] = True"
| "failure_last env F t0 (ev # rest) =
     (if fails env F t0 ev then rest = [] else failure_last env F (t0 @ [ev]) rest)"

definition sound :: "os_env \<Rightarrow> fd set \<Rightarrow> world \<Rightarrow> 'a outcome \<Rightarrow> bool" where
  "sound env F w r =
     (\<exists>seg. trace (world_of r) = trace w @ seg \<and>
        (case r of
           Raised e w' \<Rightarrow> failure_last env F (trace w) seg
         | _ \<Rightarrow> no_failure env F (trace w) seg))"

text \<open>A call that leaves the table of open descriptors as it found it.\<close>

definition keeps_fds :: "world \<Rightarrow> 'a outcome \<Rightarrow> bool" where
  "keeps_fds w r = (open_fds (world_of r) = open_fds w)"

text \<open>
  A context that is open on its lock file, in the world that its \<^verbatim>\<open>open\<close> left, and
  an environment in which the first removal of the path fails.
\<close>

definition ctx_entered :: DaemonContext where
  "ctx_entered = ctx0\<lparr>pidfile := Some (pidfile0\<lparr>handle :=
       \<lparr>fo_fd = 3, fo_path = ''/run/q.pid'', fo_closed = False\<rparr>\<rparr>), is_open := True\<rparr>"

definition world_entered :: world where
  "world_entered = world0\<lparr>open_fds := [3, 0, 1, 2],
     fs := (\<lambda>p. if p = ''/run/q.pid'' then Some ''4242'' else None),
     locks := (\<lambda>p. if p = ''/run/q.pid'' then Some (OwnFd 3) else None)\<rparr>"

definition env_remove :: os_env where
  "env_remove = env0\<lparr>fault := (\<lambda>tr ev.
     if ev = Remove ''/run/q.pid'' \<and> Remove ''/run/q.pid'' \<notin> set tr
     then Some (EnvFault 13 ''Permission denied'' ''[Errno 13] Permission denied'')
     else None)\<rparr>"

section \<open>Properties\<close>

subsection \<open>Single calls\<close>

lemma log_simps [simp]:
  "trace (log ev w) = trace w @ [ev]"
  "open_fds (log ev w) = open_fds w"
  "fs (log ev w) = fs w"
  "locks (log ev w) = locks w"
  "offsets (log ev w) = offsets w"
  "atexit (log ev w) = atexit w"
  by (simp_all add: log_def)

lemma os_call_world [simp]: "world_of (os_call env ev w) = log ev w"
  by (simp add: os_call_def split: option.splits)

lemma os_call_Returned: "os_call env ev w = Returned u w' \<Longrightarrow> w' = log ev w \<and> fault env (trace w) ev = None"
  by (auto simp: os_call_def split: option.splits)

lemma os_call_Raised: "os_call env ev w = Raised e w' \<Longrightarrow> w' = log ev w \<and> (\<exists>f. fault env (trace w) ev = Some f \<and> e = exn_of_fault f)"
  by (auto simp: os_call_def split: option.splits)

lemma os_call_Exited [simp]: "os_call env ev w \<noteq> Exited s w'"
  by (auto simp: os_call_def split: option.splits)

lemma closed_fd_simps [simp]:
  "trace (closed_fd d w) = trace w"
  "open_fds (closed_fd d w) = removeAll d (open_fds w)"
  "fs (closed_fd d w) = fs w"
  by (simp_all add: closed_fd_def)

lemma os_close_world:
  "trace (world_of (os_close env d w)) = trace w @ [Close d]"
  "set (open_fds (world_of (os_close env d w))) = set (open_fds w) - {d}"
  by (cases "fault env (trace w) (Close d)"; simp add: os_close_def os_call_def)+

lemma os_close_not_Exited [simp]: "os_close env d w \<noteq> Exited s w'"
  by (cases "fault env (trace w) (Close d)"; simp add: os_close_def os_call_def)

lemma close_if_open_world:
  "trace (world_of (close_file_descriptor_if_open env d w)) = trace w @ [Close d]"
  "set (open_fds (world_of (close_file_descriptor_if_open env d w))) = set (open_fds w) - {d}"
proof -
  note W = os_close_world[of env d w]
  show "trace (world_of (close_file_descriptor_if_open env d w)) = trace w @ [Close d]"
  proof (cases "os_close env d w")
    case (Raised e w1)
    with W show ?thesis by (cases e) (simp_all add: close_file_descriptor_if_open_def)
  qed (use W in \<open>simp_all add: close_file_descriptor_if_open_def\<close>)
  show "set (open_fds (world_of (close_file_descriptor_if_open env d w))) = set (open_fds w) - {d}"
  proof (cases "os_close env d w")
    case (Raised e w1)
    with W show ?thesis by (cases e) (simp_all add: close_file_descriptor_if_open_def)
  qed (use W in \<open>simp_all add: close_file_descriptor_if_open_def\<close>)
qed

lemma close_if_open_not_Exited [simp]: "close_file_descriptor_if_open env d w \<noteq> Exited s w'"
proof (cases "os_close env d w")
  case (Raised e w1)
  then show ?thesis by (cases e) (simp_all add: close_file_descriptor_if_open_def)
qed (simp_all add: close_file_descriptor_if_open_def)


lemma bind_Returned:
  "bind m f = Returned y w' \<Longrightarrow> \<exists>x w1. m = Returned x w1 \<and> f x w1 = Returned y w'"
  by (cases m) (simp_all add: bind_def)

lemma bind_simps [simp]:
  "bind (Returned x w) f = f x w"
  "bind (Raised e w) f = Raised e w"
  "bind (Exited st w) f = Exited st w"
  by (simp_all add: bind_def)

lemma close_each_Returned:
  "close_each env ex ds w = Returned u w' \<Longrightarrow>
     trace w' = trace w @ map Close (filter (\<lambda>d. \<not> in_exclude d ex) ds) \<and>
     set (open_fds w') = set (open_fds w) - {d \<in> set ds. \<not> in_exclude d ex}"
proof (induction ds arbitrary: w)
  case Nil
  then show ?case by simp
next
  case (Cons d ds)
  show ?case
  proof (cases "in_exclude d ex")
    case True
    with Cons.prems have "close_each env ex ds w = Returned u w'" by simp
    from Cons.IH[OF this] True show ?thesis by auto
  next
    case False
    with Cons.prems have "bind (close_file_descriptor_if_open env d w) (\<lambda>_. close_each env ex ds) = Returned u w'"
      by simp
    from bind_Returned[OF this] obtain x w1 where
      1: "close_file_descriptor_if_open env d w = Returned x w1" and
      2: "close_each env ex ds w1 = Returned u w'"
      by blast
    from close_if_open_world[of env d w] 1
    have 3: "trace w1 = trace w @ [Close d]" "set (open_fds w1) = set (open_fds w) - {d}"
      by simp_all
    from Cons.IH[OF 2] have 4: "trace w' = trace w1 @ map Close (filter (\<lambda>d. \<not> in_exclude d ex) ds)"
      "set (open_fds w') = set (open_fds w1) - {d \<in> set ds. \<not> in_exclude d ex}" by simp_all
    have a: "trace w' = trace w @ map Close (filter (\<lambda>d. \<not> in_exclude d ex) (d # ds))"
      using 3(1) 4(1) False by simp
    have b: "set (open_fds w') = set (open_fds w) - {x \<in> set (d # ds). \<not> in_exclude x ex}"
      using 3(2) 4(2) False by auto
    from a b show ?thesis by simp
  qed
qed

lemma close_each_world:
  "\<exists>p. trace (world_of (close_each env ex ds w)) = trace w @ map Close p \<and> set p \<subseteq> {d \<in> set ds. \<not> in_exclude d ex}
     \<and> set (open_fds w) - set ds \<subseteq> set (open_fds (world_of (close_each env ex ds w)))"
proof (induction ds arbitrary: w)
  case Nil
  then show ?case by simp
next
  case (Cons d ds)
  show ?case
  proof (cases "in_exclude d ex")
    case True
    from Cons[of w] obtain p where p: "trace (world_of (close_each env ex ds w)) = trace w @ map Close p"
        "set p \<subseteq> {d \<in> set ds. \<not> in_exclude d ex}"
        "set (open_fds w) - set ds \<subseteq> set (open_fds (world_of (close_each env ex ds w)))" by blast
    have eq: "close_each env ex (d # ds) w = close_each env ex ds w" using True by simp
    show ?thesis unfolding eq using p by (intro exI[of _ p]) auto
  next
    case False
    note W = close_if_open_world[of env d w]
    show ?thesis
    proof (cases "close_file_descriptor_if_open env d w")
      case (Returned u w1)
      from Cons[of w1] obtain p where p: "trace (world_of (close_each env ex ds w1)) = trace w1 @ map Close p"
        "set p \<subseteq> {d \<in> set ds. \<not> in_exclude d ex}"
        "set (open_fds w1) - set ds \<subseteq> set (open_fds (world_of (close_each env ex ds w1)))" by blast
      from W Returned have w1: "trace w1 = trace w @ [Close d]" "set (open_fds w1) = set (open_fds w) - {d}" by simp_all
      have eq: "close_each env ex (d # ds) w = close_each env ex ds w1"
        using False Returned by (simp add: bind_def)
      have a: "trace (world_of (close_each env ex ds w1)) = trace w @ map Close (d # p)"
        using p(1) w1(1) by simp
      have b: "set (d # p) \<subseteq> {x \<in> set (d # ds). \<not> in_exclude x ex}" using p(2) False by auto
      have c: "set (open_fds w) - set (d # ds) \<subseteq> set (open_fds (world_of (close_each env ex ds w1)))"
        using p(3) w1(2) by auto
      show ?thesis unfolding eq using a b c by blast
    next
      case (Raised e w1)
      have eq: "close_each env ex (d # ds) w = Raised e w1"
        using False Raised by (simp add: bind_def)
      from W Raised have w1: "trace w1 = trace w @ [Close d]" "set (open_fds w1) = set (open_fds w) - {d}" by simp_all
      have a: "trace (world_of (Raised e w1 :: unit outcome)) = trace w @ map Close [d]" using w1 by simp
      have b: "set [d] \<subseteq> {x \<in> set (d # ds). \<not> in_exclude x ex}" using False by simp
      have c: "set (open_fds w) - set (d # ds) \<subseteq> set (open_fds (world_of (Raised e w1 :: unit outcome)))"
        using w1(2) by auto
      show ?thesis unfolding eq using a b c by blast
    next
      case (Exited s w1)
      then show ?thesis by simp
    qed
  qed
qed


lemma set_range_list: "set (range_list n) = {d. 0 \<le> d \<and> d < n}"
proof -
  have "\<And>d. (d \<in> int ` {0..<nat n}) = (0 \<le> d \<and> d < n)"
  proof
    fix d assume "d \<in> int ` {0..<nat n}" then show "0 \<le> d \<and> d < n" by auto
  next
    fix d assume "0 \<le> d \<and> d < n"
    then have "nat d \<in> {0..<nat n}" "d = int (nat d)" by auto
    then show "d \<in> int ` {0..<nat n}" by blast
  qed
  then show ?thesis by (auto simp: range_list_def)
qed

lemma get_maximum_Returned:
  "fault env (trace w) GetrlimitNofile = None \<Longrightarrow>
   get_maximum_file_descriptors env w =
     Returned (if rlimit_nofile_hard env = RLIM_INFINITY env then MAXFD else rlimit_nofile_hard env)
       (log GetrlimitNofile w)"
  by (simp add: get_maximum_file_descriptors_def os_call_def)

lemma get_maximum_Raised:
  "fault env (trace w) GetrlimitNofile = Some f \<Longrightarrow>
   get_maximum_file_descriptors env w = Raised (exn_of_fault f) (log GetrlimitNofile w)"
  by (simp add: get_maximum_file_descriptors_def os_call_def)

subsection \<open>The sweep stays below the limit\<close>

text \<open>
  C10. The sweep of \<^verbatim>\<open>close_all_open_files\<close> is bounded by the hard limit on open
  descriptors, and by 2048 when that limit is unlimited: when \<^verbatim>\<open>getrlimit\<close> answers,
  \<^verbatim>\<open>get_maximum_file_descriptors\<close> returns that bound, and whatever the exclude set
  and however the sweep ends, no descriptor at or above the bound is closed by it and
  every such descriptor that was open is still open. A descriptor numbered 2048 or more
  hence survives the sweep under an unlimited hard limit.
\<close>

theorem close_all_bounded:
  "(fault env (trace w) GetrlimitNofile = None \<longrightarrow>
      get_maximum_file_descriptors env w =
        Returned (if rlimit_nofile_hard env = RLIM_INFINITY env then 2048 else rlimit_nofile_hard env)
          (log GetrlimitNofile w)) \<and>
   (\<forall>d. (if rlimit_nofile_hard env = RLIM_INFINITY env then 2048 else rlimit_nofile_hard env) \<le> d \<longrightarrow>
      Close d \<notin> set (drop (length (trace w)) (trace (world_of (close_all_open_files env exclude w)))) \<and>
      (d \<in> set (open_fds w) \<longrightarrow> d \<in> set (open_fds (world_of (close_all_open_files env exclude w)))))"
proof (intro conjI allI impI)
  assume "fault env (trace w) GetrlimitNofile = None"
  then show "get_maximum_file_descriptors env w =
        Returned (if rlimit_nofile_hard env = RLIM_INFINITY env then 2048 else rlimit_nofile_hard env)
          (log GetrlimitNofile w)"
    by (simp add: get_maximum_Returned MAXFD_def)
next
  fix d
  let ?m = "if rlimit_nofile_hard env = RLIM_INFINITY env then 2048 else rlimit_nofile_hard env"
  assume d: "?m \<le> d"
  have "Close d \<notin> set (drop (length (trace w)) (trace (world_of (close_all_open_files env exclude w)))) \<and>
      (d \<in> set (open_fds w) \<longrightarrow> d \<in> set (open_fds (world_of (close_all_open_files env exclude w))))"
  proof (cases "fault env (trace w) GetrlimitNofile")
    case (Some f)
    then show ?thesis by (simp add: close_all_open_files_def get_maximum_Raised)
  next
    case None
    let ?w1 = "log GetrlimitNofile w"
    have eq: "close_all_open_files env exclude w = close_each env exclude (rev (range_list ?m)) ?w1"
      using None by (simp add: close_all_open_files_def get_maximum_Returned MAXFD_def)
    from close_each_world[of env exclude "rev (range_list ?m)" ?w1] obtain p where
      p: "trace (world_of (close_each env exclude (rev (range_list ?m)) ?w1)) = trace ?w1 @ map Close p"
         "set p \<subseteq> {x \<in> set (rev (range_list ?m)). \<not> in_exclude x exclude}"
         "set (open_fds ?w1) - set (rev (range_list ?m)) \<subseteq>
            set (open_fds (world_of (close_each env exclude (rev (range_list ?m)) ?w1)))"
      by blast
    have notin: "d \<notin> set (rev (range_list ?m))" using d by (simp add: set_range_list)
    then have "d \<notin> set p" using p(2) by blast
    then have a: "Close d \<notin> set (drop (length (trace w)) (trace w @ GetrlimitNofile # map Close p))"
      by auto
    have b: "d \<in> set (open_fds w) \<Longrightarrow> d \<in> set (open_fds (world_of (close_each env exclude (rev (range_list ?m)) ?w1)))"
      using p(3) notin by auto
    show ?thesis unfolding eq using a b p(1) by simp
  qed
  then show "Close d \<notin> set (drop (length (trace w)) (trace (world_of (close_all_open_files env exclude w))))"
    and "d \<in> set (open_fds w) \<Longrightarrow> d \<in> set (open_fds (world_of (close_all_open_files env exclude w)))"
    by simp_all
qed

theorem close_all_bounded_witness:
  "2048 \<in> set (open_fds (world_of (close_all_open_files (env0\<lparr>rlimit_nofile_hard := - 1\<rparr>) {}
       (world0\<lparr>open_fds := [0, 5, 2048]\<rparr>))))"
  using close_all_bounded [of "env0\<lparr>rlimit_nofile_hard := - 1\<rparr>" "world0\<lparr>open_fds := [0, 5, 2048]\<rparr>" "{}",
          THEN conjunct2, THEN spec [of _ 2048]]
  by (simp add: env0_def world0_def)

subsection \<open>The exclude set and the sweep\<close>

lemma in_exclude_empty [simp]: "\<not> in_exclude d {}"
  by (simp add: in_exclude_def)

lemma in_exclude_insert [simp]:
  "in_exclude d (insert x A) = (equals_int x d \<or> in_exclude d A)"
  by (auto simp: in_exclude_def)

lemma equals_int_iff:
  "equals_int x d = (x = PyInt d \<or> (\<exists>k. x = PyOther k (Some d)))"
  by (cases "(x, d)" rule: equals_int.cases) auto

lemma exclude_descriptors_int:
  "in_exclude d (exclude_descriptors items acc) =
     (in_exclude d acc \<or>
      (\<exists>item \<in> set items. item = Some (PyInt d) \<or> item = Some (PyFile (Some d)) \<or>
                             (\<exists>k. item = Some (PyOther k (Some d)))))"
proof (induction items acc rule: exclude_descriptors.induct)
  case (1 acc)
  then show ?case by simp
next
  case (2 items acc)
  then show ?case by simp
next
  case (3 item items acc)
  show ?case
  proof (cases item)
    case (PyInt n)
    with 3 show ?thesis by auto
  next
    case (PyFile r)
    with 3 show ?thesis by (cases r) auto
  next
    case (PyOther k q)
    with 3 show ?thesis by (cases q) auto
  qed
qed

lemma stream_in_filter:
  "(\<exists>item \<in> set (filter hasattr_fileno [a, b, c]).
       item = Some (PyInt d) \<or> item = Some (PyFile (Some d)) \<or>
       (\<exists>k. item = Some (PyOther k (Some d)))) =
     (a = Some (PyFile (Some d)) \<or> b = Some (PyFile (Some d)) \<or> c = Some (PyFile (Some d)))"
  by auto

lemma get_exclude_int:
  "in_exclude d (snd (get_exclude_file_descriptors c)) =
     ((\<exists>item \<in> set (case files_preserve c of None \<Rightarrow> [] | Some items \<Rightarrow> items).
          item = Some (PyInt d) \<or> item = Some (PyFile (Some d)) \<or>
          (\<exists>k. item = Some (PyOther k (Some d)))) \<or>
      stdin c = Some (PyFile (Some d)) \<or> stdout c = Some (PyFile (Some d)) \<or>
      stderr c = Some (PyFile (Some d)))"
proof -
  let ?streams = "filter hasattr_fileno [stdin c, stdout c, stderr c]"
  note s = stream_in_filter [of "stdin c" "stdout c" "stderr c" d]
  show ?thesis
  proof (cases "files_preserve c")
    case None
    then have "snd (get_exclude_file_descriptors c) = exclude_descriptors ?streams {}"
      by (simp add: get_exclude_file_descriptors_def)
    then show ?thesis using s None by (simp only: exclude_descriptors_int) simp
  next
    case (Some items)
    then have "snd (get_exclude_file_descriptors c) = exclude_descriptors (items @ ?streams) {}"
      by (simp add: get_exclude_file_descriptors_def)
    then show ?thesis using s Some
      by (simp only: exclude_descriptors_int set_append bex_Un in_exclude_empty) simp
  qed
qed

lemma close_all_Returned:
  assumes "close_all_open_files env ex w = Returned u w'"
  shows "trace w' = trace w @ GetrlimitNofile #
           map Close (filter (\<lambda>d. \<not> in_exclude d ex)
             (rev (map int [0..<nat (if rlimit_nofile_hard env = RLIM_INFINITY env then 2048
                                     else rlimit_nofile_hard env)])))"
    and "set (open_fds w') = set (open_fds w) -
           {d. 0 \<le> d \<and> d < (if rlimit_nofile_hard env = RLIM_INFINITY env then 2048
                              else rlimit_nofile_hard env) \<and> \<not> in_exclude d ex}"
proof -
  let ?m = "if rlimit_nofile_hard env = RLIM_INFINITY env then 2048 else rlimit_nofile_hard env"
  from assms obtain m w1 where 1: "get_maximum_file_descriptors env w = Returned m w1"
    and 2: "close_each env ex (rev (range_list m)) w1 = Returned u w'"
    unfolding close_all_open_files_def by (blast dest: bind_Returned)
  have f: "fault env (trace w) GetrlimitNofile = None"
  proof (cases "fault env (trace w) GetrlimitNofile")
    case (Some f)
    from get_maximum_Raised[OF this] 1 show ?thesis by simp
  qed simp
  from get_maximum_Returned[OF f] 1 have m: "m = ?m" "w1 = log GetrlimitNofile w"
    by (simp_all add: MAXFD_def)
  from close_each_Returned[OF 2] have 3:
    "trace w' = trace w1 @ map Close (filter (\<lambda>d. \<not> in_exclude d ex) (rev (range_list m)))"
    "set (open_fds w') = set (open_fds w1) - {d \<in> set (rev (range_list m)). \<not> in_exclude d ex}"
    by simp_all
  show "trace w' = trace w @ GetrlimitNofile #
           map Close (filter (\<lambda>d. \<not> in_exclude d ex) (rev (map int [0..<nat ?m])))"
    using 3(1) m by (simp add: range_list_def)
  show "set (open_fds w') = set (open_fds w) - {d. 0 \<le> d \<and> d < ?m \<and> \<not> in_exclude d ex}"
    using 3(2) m set_range_list[of ?m] by auto
qed

lemma close_if_open_not_open:
  "d \<notin> set (open_fds w) \<Longrightarrow> close_file_descriptor_if_open env d w = Returned () (log (Close d) w)"
  by (simp add: close_file_descriptor_if_open_def os_close_def bad_file_descriptor_def)

lemma close_if_open_fault:
  "d \<in> set (open_fds w) \<Longrightarrow> fault env (trace w) (Close d) = Some (EnvFault n s t) \<Longrightarrow> n \<noteq> EBADF \<Longrightarrow>
   \<exists>m w'. close_file_descriptor_if_open env d w = Raised (DaemonOSEnvironmentError m (Some (OSError n s t))) w'"
  by (simp add: close_file_descriptor_if_open_def os_close_def os_call_def
        new_DaemonOSEnvironmentError_def)

lemma close_each_member:
  assumes "trace (world_of (close_each env ex ds w)) = trace w @ tr @ Close d # rest"
  shows "d \<in> set ds"
proof -
  from close_each_world[of env ex ds w] obtain p where
    p: "trace (world_of (close_each env ex ds w)) = trace w @ map Close p"
       "set p \<subseteq> {d \<in> set ds. \<not> in_exclude d ex}" by blast
  from p(1) assms have "map Close p = tr @ Close d # rest" by simp
  then have "Close d \<in> set (map Close p)" by simp
  then have "d \<in> set p" by auto
  with p(2) show ?thesis by blast
qed

lemma close_each_fault:
  "distinct ds \<Longrightarrow>
   trace (world_of (close_each env ex ds w)) = trace w @ tr @ Close d # rest \<Longrightarrow>
   d \<in> set (open_fds w) \<Longrightarrow>
   fault env (trace w @ tr) (Close d) = Some (EnvFault n s t) \<Longrightarrow> n \<noteq> EBADF \<Longrightarrow>
   rest = [] \<and>
   (\<exists>m w1. close_each env ex ds w = Raised (DaemonOSEnvironmentError m (Some (OSError n s t))) w1)"
proof (induction ds arbitrary: w tr)
  case Nil
  then show ?case by simp
next
  case (Cons d0 ds)
  show ?case
  proof (cases "in_exclude d0 ex")
    case True
    then have eq: "close_each env ex (d0 # ds) w = close_each env ex ds w" by simp
    from Cons.prems(1) have "distinct ds" by simp
    from Cons.IH[OF this Cons.prems(2)[unfolded eq] Cons.prems(3,4,5)] show ?thesis
      unfolding eq .
  next
    case False
    note W = close_if_open_world[of env d0 w]
    show ?thesis
    proof (cases "close_file_descriptor_if_open env d0 w")
      case (Returned u w1)
      from W Returned have w1: "trace w1 = trace w @ [Close d0]"
        "set (open_fds w1) = set (open_fds w) - {d0}" by simp_all
      have eq: "close_each env ex (d0 # ds) w = close_each env ex ds w1"
        using False Returned by simp
      show ?thesis
      proof (cases tr)
        case Nil
        from close_each_world[of env ex ds w1] w1(1) obtain p where
          "trace (world_of (close_each env ex ds w1)) = trace w @ Close d0 # map Close p" by auto
        with Cons.prems(2)[unfolded eq] Nil have "d = d0" by simp
        with Cons.prems(3,4,5) Nil close_if_open_fault[of d0 w env n s t] Returned
        show ?thesis by auto
      next
        case (Cons a tr')
        from close_each_world[of env ex ds w1] w1(1) obtain p where
          "trace (world_of (close_each env ex ds w1)) = trace w @ Close d0 # map Close p" by auto
        with Cons.prems(2)[unfolded eq] Cons have a: "a = Close d0" by simp
        have t: "trace (world_of (close_each env ex ds w1)) = trace w1 @ tr' @ Close d # rest"
          using Cons.prems(2)[unfolded eq] Cons a w1(1) by simp
        from close_each_member[OF t] have "d \<in> set ds" .
        with Cons.prems(1) have "d \<noteq> d0" by auto
        with Cons.prems(3) w1(2) have o: "d \<in> set (open_fds w1)" by simp
        have f: "fault env (trace w1 @ tr') (Close d) = Some (EnvFault n s t)"
          using Cons.prems(4) Cons a w1(1) by simp
        from Cons.prems(1) have "distinct ds" by simp
        from Cons.IH[OF this t o f Cons.prems(5)] show ?thesis unfolding eq .
      qed
    next
      case (Raised e w1)
      from W Raised have w1: "trace w1 = trace w @ [Close d0]" by simp
      have eq: "close_each env ex (d0 # ds) w = Raised e w1"
        using False Raised by simp
      from Cons.prems(2)[unfolded eq] w1 have "tr @ Close d # rest = [Close d0]" by simp
      then have x: "tr = []" "d = d0" "rest = []"
        by (cases tr; simp)+
      with Cons.prems(3,4,5) close_if_open_fault[of d0 w env n s t] Raised
      show ?thesis unfolding eq by auto
    next
      case (Exited st w1)
      then show ?thesis by simp
    qed
  qed
qed

lemma distinct_range_list: "distinct (rev (range_list m))"
  by (simp add: range_list_def distinct_map inj_on_def)

lemma close_all_fault:
  assumes "trace (world_of (close_all_open_files env ex w)) = trace w @ tr @ Close d # rest"
    and "d \<in> set (open_fds w)"
    and "fault env (trace w @ tr) (Close d) = Some (EnvFault n s t)" and "n \<noteq> EBADF"
  shows "rest = [] \<and>
   (\<exists>m w1. close_all_open_files env ex w = Raised (DaemonOSEnvironmentError m (Some (OSError n s t))) w1)"
proof (cases "fault env (trace w) GetrlimitNofile")
  case None
  let ?m = "if rlimit_nofile_hard env = RLIM_INFINITY env then MAXFD else rlimit_nofile_hard env"
  let ?w1 = "log GetrlimitNofile w"
  have eq: "close_all_open_files env ex w = close_each env ex (rev (range_list ?m)) ?w1"
    using None by (simp add: close_all_open_files_def get_maximum_Returned)
  from close_each_world[of env ex "rev (range_list ?m)" ?w1] obtain p where
    p: "trace (world_of (close_each env ex (rev (range_list ?m)) ?w1)) = trace w @ GetrlimitNofile # map Close p"
    by auto
  with assms(1)[unfolded eq] have "tr @ Close d # rest = GetrlimitNofile # map Close p" by simp
  then obtain tr' where tr: "tr = GetrlimitNofile # tr'" by (cases tr) auto
  have t: "trace (world_of (close_each env ex (rev (range_list ?m)) ?w1)) = trace ?w1 @ tr' @ Close d # rest"
    using assms(1)[unfolded eq] tr by simp
  have o: "d \<in> set (open_fds ?w1)" using assms(2) by simp
  have f: "fault env (trace ?w1 @ tr') (Close d) = Some (EnvFault n s t)" using assms(3) tr by simp
  from close_each_fault[OF distinct_range_list t o f assms(4)] show ?thesis unfolding eq .
next
  case (Some f)
  then have "close_all_open_files env ex w = Raised (exn_of_fault f) (log GetrlimitNofile w)"
    by (simp add: close_all_open_files_def get_maximum_Raised)
  with assms(1) have "tr @ Close d # rest = [GetrlimitNofile]" by simp
  then show ?thesis by (cases tr) auto
qed

lemma close_each_no_fault:
  "\<forall>tr ev. fault env tr ev = None \<Longrightarrow> \<exists>w'. close_each env ex ds w = Returned () w'"
proof (induction ds arbitrary: w)
  case Nil
  then show ?case by simp
next
  case (Cons d ds)
  have "\<exists>w1. close_file_descriptor_if_open env d w = Returned () w1"
    using Cons.prems
    by (simp add: close_file_descriptor_if_open_def os_close_def os_call_def bad_file_descriptor_def)
  then obtain w1 where "close_file_descriptor_if_open env d w = Returned () w1" by blast
  then show ?case using Cons.IH[OF Cons.prems, of w1] Cons.IH[OF Cons.prems, of w] by simp
qed

lemma close_all_no_fault:
  "\<forall>tr ev. fault env tr ev = None \<Longrightarrow> \<exists>w'. close_all_open_files env ex w = Returned () w'"
  using close_each_no_fault[of env]
  by (simp add: close_all_open_files_def get_maximum_Returned)

text \<open>
  C6. A descriptor is in the exclude set, by the equality which the membership test of
  the sweep uses, exactly when it is an item of \<^verbatim>\<open>files_preserve\<close> (an integer, or an
  object that is equal to it and has no \<^verbatim>\<open>fileno\<close>), the \<^verbatim>\<open>fileno()\<close> of an item,
  or the \<^verbatim>\<open>fileno()\<close> of a replacement stream that is set. A sweep that returns has
  closed, from the highest descriptor below the maximum down to 0, every descriptor
  outside of that set, and left the other open descriptors alone. Closing a descriptor
  that is not open is ignored, and a sweep in which the operating system reports no
  error returns, whichever descriptors are open. An \<^verbatim>\<open>OSError\<close> of \<^verbatim>\<open>os.close\<close> with
  another errno is raised as \<^verbatim>\<open>DaemonOSEnvironmentError\<close> by the helper, and by the
  sweep: when the close of an open descriptor fails in this way during the sweep, that
  call is the last one and the sweep raises the error made of this failure. With 3 and
  7 to preserve and streams on 10, 11 and 12, the descriptors open after the sweep are
  those open before it that are one of these five or are not below the maximum.
\<close>

theorem close_all_excludes:
  "(in_exclude d (snd (get_exclude_file_descriptors c)) =
      ((\<exists>item \<in> set (case files_preserve c of None \<Rightarrow> [] | Some items \<Rightarrow> items).
           item = Some (PyInt d) \<or> item = Some (PyFile (Some d)) \<or>
           (\<exists>k. item = Some (PyOther k (Some d)))) \<or>
       stdin c = Some (PyFile (Some d)) \<or> stdout c = Some (PyFile (Some d)) \<or>
       stderr c = Some (PyFile (Some d)))) \<and>
   (close_all_open_files env exclude w = Returned u w' \<longrightarrow>
      trace w' = trace w @ GetrlimitNofile #
        map Close (filter (\<lambda>d. \<not> in_exclude d exclude)
          (rev (map int [0..<nat (if rlimit_nofile_hard env = RLIM_INFINITY env then 2048
                                  else rlimit_nofile_hard env)]))) \<and>
      set (open_fds w') = set (open_fds w) -
        {d. 0 \<le> d \<and> d < (if rlimit_nofile_hard env = RLIM_INFINITY env then 2048
                           else rlimit_nofile_hard env) \<and> \<not> in_exclude d exclude}) \<and>
   (d \<notin> set (open_fds w) \<longrightarrow>
      close_file_descriptor_if_open env d w = Returned () (log (Close d) w)) \<and>
   ((\<forall>tr ev. fault env tr ev = None) \<longrightarrow>
      (\<exists>w1. close_all_open_files env exclude w = Returned () w1)) \<and>
   (d \<in> set (open_fds w) \<and> fault env (trace w) (Close d) = Some (EnvFault n s t) \<and> n \<noteq> EBADF \<longrightarrow>
      (\<exists>m w1. close_file_descriptor_if_open env d w =
                 Raised (DaemonOSEnvironmentError m (Some (OSError n s t))) w1)) \<and>
   (trace (world_of (close_all_open_files env exclude w)) = trace w @ tr @ Close d # rest \<and>
    d \<in> set (open_fds w) \<and> fault env (trace w @ tr) (Close d) = Some (EnvFault n s t) \<and>
    n \<noteq> EBADF \<longrightarrow>
      rest = [] \<and>
      (\<exists>m w1. close_all_open_files env exclude w =
                 Raised (DaemonOSEnvironmentError m (Some (OSError n s t))) w1)) \<and>
   (files_preserve c = Some [Some (PyInt 3), Some (PyInt 7)] \<and>
    stdin c = Some (PyFile (Some 10)) \<and> stdout c = Some (PyFile (Some 11)) \<and>
    stderr c = Some (PyFile (Some 12)) \<and>
    close_all_open_files env (snd (get_exclude_file_descriptors c)) w = Returned u w' \<longrightarrow>
      set (open_fds w') = set (open_fds w) -
        {d. 0 \<le> d \<and> d < (if rlimit_nofile_hard env = RLIM_INFINITY env then 2048
                           else rlimit_nofile_hard env) \<and> d \<notin> {3, 7, 10, 11, 12}})"
proof (intro conjI impI)
  show "in_exclude d (snd (get_exclude_file_descriptors c)) =
      ((\<exists>item \<in> set (case files_preserve c of None \<Rightarrow> [] | Some items \<Rightarrow> items).
           item = Some (PyInt d) \<or> item = Some (PyFile (Some d)) \<or>
           (\<exists>k. item = Some (PyOther k (Some d)))) \<or>
       stdin c = Some (PyFile (Some d)) \<or> stdout c = Some (PyFile (Some d)) \<or>
       stderr c = Some (PyFile (Some d)))"
    by (rule get_exclude_int)
next
  assume "close_all_open_files env exclude w = Returned u w'"
  from close_all_Returned[OF this]
  show "trace w' = trace w @ GetrlimitNofile #
        map Close (filter (\<lambda>d. \<not> in_exclude d exclude)
          (rev (map int [0..<nat (if rlimit_nofile_hard env = RLIM_INFINITY env then 2048
                                  else rlimit_nofile_hard env)])))"
    and "set (open_fds w') = set (open_fds w) -
        {d. 0 \<le> d \<and> d < (if rlimit_nofile_hard env = RLIM_INFINITY env then 2048
                           else rlimit_nofile_hard env) \<and> \<not> in_exclude d exclude}"
    by blast+
next
  assume "d \<notin> set (open_fds w)"
  then show "close_file_descriptor_if_open env d w = Returned () (log (Close d) w)"
    by (rule close_if_open_not_open)
next
  assume "\<forall>tr ev. fault env tr ev = None"
  then show "\<exists>w1. close_all_open_files env exclude w = Returned () w1"
    by (rule close_all_no_fault)
next
  assume "d \<in> set (open_fds w) \<and> fault env (trace w) (Close d) = Some (EnvFault n s t) \<and> n \<noteq> EBADF"
  then show "\<exists>m w1. close_file_descriptor_if_open env d w =
                 Raised (DaemonOSEnvironmentError m (Some (OSError n s t))) w1"
    using close_if_open_fault by blast
next
  assume a: "trace (world_of (close_all_open_files env exclude w)) = trace w @ tr @ Close d # rest \<and>
    d \<in> set (open_fds w) \<and> fault env (trace w @ tr) (Close d) = Some (EnvFault n s t) \<and>
    n \<noteq> EBADF"
  with close_all_fault[of env exclude w tr d rest n s t]
  show "rest = []" and "\<exists>m w1. close_all_open_files env exclude w =
                 Raised (DaemonOSEnvironmentError m (Some (OSError n s t))) w1"
    by blast+
next
  assume a: "files_preserve c = Some [Some (PyInt 3), Some (PyInt 7)] \<and>
    stdin c = Some (PyFile (Some 10)) \<and> stdout c = Some (PyFile (Some 11)) \<and>
    stderr c = Some (PyFile (Some 12)) \<and>
    close_all_open_files env (snd (get_exclude_file_descriptors c)) w = Returned u w'"
  then have ex: "\<And>x. in_exclude x (snd (get_exclude_file_descriptors c)) = (x \<in> {3, 7, 10, 11, 12})"
    by (simp add: get_exclude_int)
  from a have "close_all_open_files env (snd (get_exclude_file_descriptors c)) w = Returned u w'"
    by simp
  from close_all_Returned(2)[OF this]
  show "set (open_fds w') = set (open_fds w) -
        {d. 0 \<le> d \<and> d < (if rlimit_nofile_hard env = RLIM_INFINITY env then 2048
                           else rlimit_nofile_hard env) \<and> d \<notin> {3, 7, 10, 11, 12}}"
    by (simp only: ex)
qed

lemma upt_16: "[0..<16] = [0, 1, 2, 3, 4, 5, 6, 7, 8, 9, 10, 11, 12, 13, 14, 15]"
  by (simp add: upt_rec)

lemmas sweep_eval_defs =
  close_all_open_files_def get_maximum_file_descriptors_def os_call_def
  world_many_def world0_def ctx_preserve_def ctx0_def get_exclude_file_descriptors_def
  range_list_def upt_16 close_file_descriptor_if_open_def os_close_def log_def
  closed_fd_def bad_file_descriptor_def EBADF_def

lemma sweep_example:
  "\<exists>w'. close_all_open_files env0 (snd (get_exclude_file_descriptors ctx_preserve)) world_many = Returned () w'"
  by (simp add: sweep_eval_defs env0_def)

lemma sweep_preserve_failure_example:
  "trace (world_of (close_all_open_files env_eio (snd (get_exclude_file_descriptors ctx_preserve))
      world_many)) =
     trace world_many @
       [GetrlimitNofile, Close 15, Close 14, Close 13, Close 9, Close 8, Close 6, Close 5] @
       Close 4 # []"
  by (simp add: sweep_eval_defs env_eio_def env0_def new_DaemonOSEnvironmentError_def)

theorem close_all_excludes_witness:
  "(\<exists>w'. close_all_open_files env0 (snd (get_exclude_file_descriptors ctx_preserve)) world_many = Returned () w' \<and>
         set (open_fds w') = {3, 7, 10, 11, 12, 40}) \<and>
   close_file_descriptor_if_open env0 5 world_many = Returned () (log (Close 5) world_many) \<and>
   (\<exists>w1. close_all_open_files env0 {} world_many = Returned () w1) \<and>
   (\<exists>m w1. close_file_descriptor_if_open env_eio 4 world_many =
      Raised (DaemonOSEnvironmentError m
        (Some (OSError 5 ''Input/output error'' ''[Errno 5] Input/output error''))) w1) \<and>
   (\<exists>m w1. close_all_open_files env_eio (snd (get_exclude_file_descriptors ctx_preserve)) world_many =
      Raised (DaemonOSEnvironmentError m
        (Some (OSError 5 ''Input/output error'' ''[Errno 5] Input/output error''))) w1)"
proof (intro conjI)
  from sweep_example obtain w' where
    r: "close_all_open_files env0 (snd (get_exclude_file_descriptors ctx_preserve)) world_many = Returned () w'"
    by blast
  have c: "files_preserve ctx_preserve = Some [Some (PyInt 3), Some (PyInt 7)] \<and>
    stdin ctx_preserve = Some (PyFile (Some 10)) \<and> stdout ctx_preserve = Some (PyFile (Some 11)) \<and>
    stderr ctx_preserve = Some (PyFile (Some 12))"
    by (simp add: ctx_preserve_def ctx0_def)
  from close_all_excludes [of 0 ctx_preserve env0 "{}" world_many "()" w' 0 "[]" "[]" "[]" "[]"] c r
  have "set (open_fds w') = set (open_fds world_many) -
        {d. 0 \<le> d \<and> d < (if rlimit_nofile_hard env0 = RLIM_INFINITY env0 then 2048
                           else rlimit_nofile_hard env0) \<and> d \<notin> {3, 7, 10, 11, 12}}"
    by blast
  also have "\<dots> = {3, 7, 10, 11, 12, 40}"
    by (auto simp: world_many_def world0_def env0_def)
  finally show "\<exists>w'. close_all_open_files env0 (snd (get_exclude_file_descriptors ctx_preserve)) world_many = Returned () w' \<and>
         set (open_fds w') = {3, 7, 10, 11, 12, 40}"
    using r by blast
next
  have "5 \<notin> set (open_fds world_many)" by (simp add: world_many_def world0_def)
  with close_all_excludes [of 5 ctx_preserve env0 "{}" world_many "()" world_many 0 "[]" "[]" "[]" "[]"]
  show "close_file_descriptor_if_open env0 5 world_many = Returned () (log (Close 5) world_many)"
    by blast
next
  have "\<forall>tr ev. fault env0 tr ev = None" by (simp add: env0_def)
  with close_all_excludes [of 5 ctx_preserve env0 "{}" world_many "()" world_many 0 "[]" "[]" "[]" "[]"]
  show "\<exists>w1. close_all_open_files env0 {} world_many = Returned () w1"
    by blast
next
  have "4 \<in> set (open_fds world_many) \<and>
        fault env_eio (trace world_many) (Close 4) =
          Some (EnvFault 5 ''Input/output error'' ''[Errno 5] Input/output error'') \<and> 5 \<noteq> EBADF"
    by (simp add: world_many_def world0_def env_eio_def env0_def EBADF_def)
  with close_all_excludes [of 4 ctx_preserve env_eio "{}" world_many "()" world_many 5
      "''Input/output error''" "''[Errno 5] Input/output error''" "[]" "[]"]
  show "\<exists>m w1. close_file_descriptor_if_open env_eio 4 world_many =
      Raised (DaemonOSEnvironmentError m
        (Some (OSError 5 ''Input/output error'' ''[Errno 5] Input/output error''))) w1"
    by blast
next
  let ?tr = "[GetrlimitNofile, Close 15, Close 14, Close 13, Close 9, Close 8, Close 6, Close 5]"
  have "4 \<in> set (open_fds world_many) \<and>
        fault env_eio (trace world_many @ ?tr) (Close 4) =
          Some (EnvFault 5 ''Input/output error'' ''[Errno 5] Input/output error'') \<and> 5 \<noteq> EBADF"
    by (simp add: world_many_def world0_def env_eio_def env0_def EBADF_def)
  with close_all_excludes [of 4 ctx_preserve env_eio "snd (get_exclude_file_descriptors ctx_preserve)"
      world_many "()" world_many 5
      "''Input/output error''" "''[Errno 5] Input/output error''" ?tr "[]"]
    sweep_preserve_failure_example
  show "\<exists>m w1. close_all_open_files env_eio (snd (get_exclude_file_descriptors ctx_preserve)) world_many =
      Raised (DaemonOSEnvironmentError m
        (Some (OSError 5 ''Input/output error'' ''[Errno 5] Input/output error''))) w1"
    by blast
qed

subsection \<open>The default signal map\<close>

lemma signal_pairs_eq:
  "signal_pairs env l =
     Inr (List.map_filter (\<lambda>(name, t). map_option (\<lambda>n. (n, t)) (signal_module env name)) l)"
proof (induction l)
  case Nil
  then show ?case by (simp add: map_filter_simps)
next
  case (Cons a l)
  obtain name t where a: "a = (name, t)" by (cases a)
  show ?case
    by (cases "signal_module env name")
       (simp_all add: a Cons hasattr_signal_def getattr_signal_def map_filter_simps)
qed

lemma map_of_dict_set: "map_of (dict_set k v d) = (map_of d)(k \<mapsto> v)"
  by (induction d) auto

lemma keys_dict_set: "fst ` set (dict_set k v d) = insert k (fst ` set d)"
proof (induction d)
  case Nil
  then show ?case by simp
next
  case (Cons a d)
  obtain k' v' where a: "a = (k', v')" by (cases a)
  show ?case
  proof (cases "k = k'")
    case True
    then show ?thesis by (simp add: a)
  next
    case False
    then show ?thesis using Cons by (simp add: a insert_commute)
  qed
qed

lemma distinct_dict_set: "distinct (map fst d) \<Longrightarrow> distinct (map fst (dict_set k v d))"
  by (induction d) (auto simp: keys_dict_set)

lemma set_dict_set: "set (dict_set k v d) \<subseteq> insert (k, v) (set d)"
  by (induction d) (auto split: if_splits)

lemma dict_set_new: "k \<notin> fst ` set d \<Longrightarrow> dict_set k v d = d @ [(k, v)]"
  by (induction d) auto

lemma foldl_dict_set:
  "map_of (foldl (\<lambda>d (k, v). dict_set k v d) d0 ps) = map_of d0 ++ map_of (rev ps)"
proof (induction ps arbitrary: d0)
  case Nil
  then show ?case by simp
next
  case (Cons p ps)
  obtain k v where p: "p = (k, v)" by (cases p)
  have "map_of (foldl (\<lambda>d (k, v). dict_set k v d) d0 (p # ps)) =
        map_of (dict_set k v d0) ++ map_of (rev ps)"
    using Cons[of "dict_set k v d0"] by (simp add: p)
  also have "\<dots> = map_of d0 ++ map_of (rev (p # ps))"
    by (simp add: p map_of_dict_set map_add_def fun_eq_iff split: option.splits)
  finally show ?case .
qed

lemma foldl_dict_keys:
  "fst ` set (foldl (\<lambda>d (k, v). dict_set k v d) d0 ps) = fst ` set d0 \<union> fst ` set ps"
proof (induction ps arbitrary: d0)
  case Nil
  then show ?case by simp
next
  case (Cons p ps)
  obtain k v where p: "p = (k, v)" by (cases p)
  show ?case using Cons[of "dict_set k v d0"] by (simp add: p keys_dict_set)
qed

lemma foldl_dict_distinct:
  "distinct (map fst d0) \<Longrightarrow> distinct (map fst (foldl (\<lambda>d (k, v). dict_set k v d) d0 ps))"
proof (induction ps arbitrary: d0)
  case Nil
  then show ?case by simp
next
  case (Cons p ps)
  obtain k v where p: "p = (k, v)" by (cases p)
  show ?case using Cons.IH[of "dict_set k v d0"] Cons.prems by (simp add: p distinct_dict_set)
qed

lemma foldl_dict_distinct_id:
  "distinct (map fst (d0 @ ps)) \<Longrightarrow> foldl (\<lambda>d (k, v). dict_set k v d) d0 ps = d0 @ ps"
proof (induction ps arbitrary: d0)
  case Nil
  then show ?case by simp
next
  case (Cons p ps)
  obtain k v where p: "p = (k, v)" by (cases p)
  from Cons.prems have k: "k \<notin> fst ` set d0" by (auto simp: p)
  from Cons.prems have "distinct (map fst ((d0 @ [(k, v)]) @ ps))" by (simp add: p)
  from Cons.IH[OF this] show ?case by (simp add: p dict_set_new[OF k])
qed

lemma dict_of_map_of: "map_of (dict_of ps) = map_of (rev ps)"
  by (simp add: dict_of_def foldl_dict_set)

lemma dict_of_keys: "fst ` set (dict_of ps) = fst ` set ps"
  by (simp add: dict_of_def foldl_dict_keys)

lemma dict_of_distinct: "distinct (map fst (dict_of ps))"
  by (simp add: dict_of_def foldl_dict_distinct)

lemma dict_of_id: "distinct (map fst ps) \<Longrightarrow> dict_of ps = ps"
  using foldl_dict_distinct_id[of "[]" ps] by (simp add: dict_of_def)

lemma handler_pairs_default:
  "\<forall>(n, t) \<in> set l. t = TNone \<or> t = TName ''terminate'' \<Longrightarrow>
   handler_pairs c l = Inr (map (\<lambda>(n, t). (n, if t = TNone then SIG_IGN else Attr ''terminate'')) l)"
proof (induction l)
  case Nil
  then show ?case by simp
next
  case (Cons a l)
  obtain n t where a: "a = (n, t)" by (cases a)
  from Cons.prems have t: "t = TNone \<or> t = TName ''terminate''" by (simp add: a)
  from Cons have IH: "handler_pairs c l = Inr (map (\<lambda>(n, t). (n, if t = TNone then SIG_IGN else Attr ''terminate'')) l)"
    by simp
  from t show ?case
    by (auto simp: a IH make_signal_handler_def context_attributes_def)
qed

lemma set_signal_handlers_ok:
  "\<forall>tr n h. fault env tr (Signal n h) = None \<Longrightarrow>
   set_signal_handlers env hm w = Returned () (w\<lparr>trace := trace w @ map (\<lambda>(n, h). Signal n h) hm\<rparr>)"
proof (induction hm arbitrary: w)
  case Nil
  then show ?case by simp
next
  case (Cons a hm)
  obtain n h where a: "a = (n, h)" by (cases a)
  from Cons.prems have "os_call env (Signal n h) w = Returned () (log (Signal n h) w)"
    by (simp add: os_call_def)
  then show ?case using Cons.IH[OF Cons.prems, of "log (Signal n h) w"]
    by (simp add: a log_def)
qed

lemma foldl_dict_subset:
  "set (foldl (\<lambda>d (k, v). dict_set k v d) d0 ps) \<subseteq> set d0 \<union> set ps"
proof (induction ps arbitrary: d0)
  case Nil
  then show ?case by simp
next
  case (Cons p ps)
  obtain k v where p: "p = (k, v)" by (cases p)
  from Cons[of "dict_set k v d0"] set_dict_set[of k v d0]
  show ?case by (auto simp: p)
qed

lemma dict_of_subset: "set (dict_of ps) \<subseteq> set ps"
  using foldl_dict_subset[of "[]" ps] by (simp add: dict_of_def)

lemma signal_pairs_name_map: "signal_pairs env name_map = Inr (default_pairs env)"
  by (simp add: signal_pairs_eq name_map_def default_pairs_def map_filter_simps split: option.splits)

lemma make_default_eq: "make_default_signal_map env = Inr (dict_of (default_pairs env))"
  by (simp add: make_default_signal_map_def signal_pairs_name_map)

lemma default_pairs_keys:
  "fst ` set (default_pairs env) =
     {n. \<exists>name \<in> {''SIGTSTP'', ''SIGTTIN'', ''SIGTTOU'', ''SIGTERM''}. signal_module env name = Some n}"
  by (auto simp: default_pairs_def split: option.splits)

lemma default_pairs_values:
  "(n, t) \<in> set (default_pairs env) \<Longrightarrow>
     (t = TNone \<and> (\<exists>name \<in> {''SIGTSTP'', ''SIGTTIN'', ''SIGTTOU''}. signal_module env name = Some n)) \<or>
     (t = TName ''terminate'' \<and> signal_module env ''SIGTERM'' = Some n)"
  by (auto simp: default_pairs_def split: option.splits)

lemma default_pairs_targets:
  "\<forall>(n, t) \<in> set (default_pairs env). t = TNone \<or> t = TName ''terminate''"
  by (auto simp: default_pairs_def split: option.splits)

lemma default_pairs_term:
  "signal_module env ''SIGTERM'' = Some n \<Longrightarrow> map_of (rev (default_pairs env)) n = Some (TName ''terminate'')"
  by (simp add: default_pairs_def)

lemma default_pairs_stop:
  "name \<in> {''SIGTSTP'', ''SIGTTIN'', ''SIGTTOU''} \<Longrightarrow> signal_module env name = Some n \<Longrightarrow>
   signal_module env ''SIGTERM'' \<noteq> Some n \<Longrightarrow> map_of (rev (default_pairs env)) n = Some TNone"
  by (auto simp: default_pairs_def split: option.splits)

lemma map_fst_handler: "map fst (map (\<lambda>(n, t). (n, f t)) l) = map fst l"
  by (induction l) auto

lemma map_signal_handler:
  "map (\<lambda>(n, h). Signal n h) (map (\<lambda>(n, t). (n, f t)) l) = map (\<lambda>(n, t). Signal n (f t)) l"
  by (induction l) auto

lemma default_handler_map:
  "make_signal_handler_map (c\<lparr>signal_map := dict_of (default_pairs env)\<rparr>) =
     Inr (map (\<lambda>(n, t). (n, if t = TNone then SIG_IGN else Attr ''terminate''))
            (dict_of (default_pairs env)))"
proof -
  let ?m = "dict_of (default_pairs env)"
  let ?g = "\<lambda>(n, t). (n, if t = TNone then SIG_IGN else Attr ''terminate'')"
  have "\<forall>(n, t) \<in> set ?m. t = TNone \<or> t = TName ''terminate''"
    using default_pairs_targets[of env] dict_of_subset[of "default_pairs env"] by blast
  from handler_pairs_default[OF this]
  have hp: "handler_pairs (c\<lparr>signal_map := ?m\<rparr>) ?m = Inr (map ?g ?m)" .
  have "map fst (map ?g ?m) = map fst ?m" by (rule map_fst_handler)
  then have "distinct (map fst (map ?g ?m))" using dict_of_distinct[of "default_pairs env"]
    by (simp only:)
  from dict_of_id[OF this] hp show ?thesis by (simp add: make_signal_handler_map_def)
qed

text \<open>
  C7. \<^verbatim>\<open>make_default_signal_map\<close> never raises. The keys of its map are exactly the
  numbers of those of \<^verbatim>\<open>SIGTSTP\<close>, \<^verbatim>\<open>SIGTTIN\<close>, \<^verbatim>\<open>SIGTTOU\<close> and \<^verbatim>\<open>SIGTERM\<close>
  that the platform has, one item for a number; a name the platform lacks adds nothing.
  Every item is a stop signal with the target \<^verbatim>\<open>None\<close> or \<^verbatim>\<open>SIGTERM\<close> with the
  target \<open>terminate\<close>, and the map has these items for the signals present. For a
  context with this map, the handler map is built without an exception: \<^verbatim>\<open>SIG_IGN\<close>
  for the stop signals, the context's attribute \<open>terminate\<close> for \<^verbatim>\<open>SIGTERM\<close>; where
  \<^verbatim>\<open>signal.signal\<close> itself does not fail, the installation returns after one call for
  each item. The handler \<open>terminate\<close> raises \<^verbatim>\<open>SystemExit\<close> with a message that
  names the number of the signal.
\<close>

theorem default_signal_map:
  "\<exists>m. make_default_signal_map env = Inr m \<and>
     fst ` set m =
       {n. \<exists>name \<in> {''SIGTSTP'', ''SIGTTIN'', ''SIGTTOU'', ''SIGTERM''}. signal_module env name = Some n} \<and>
     distinct (map fst m) \<and>
     (\<forall>n t. (n, t) \<in> set m \<longrightarrow>
        (t = TNone \<and> (\<exists>name \<in> {''SIGTSTP'', ''SIGTTIN'', ''SIGTTOU''}. signal_module env name = Some n)) \<or>
        (t = TName ''terminate'' \<and> signal_module env ''SIGTERM'' = Some n)) \<and>
     (\<forall>n. signal_module env ''SIGTERM'' = Some n \<longrightarrow> map_of m n = Some (TName ''terminate'')) \<and>
     (\<forall>name n. name \<in> {''SIGTSTP'', ''SIGTTIN'', ''SIGTTOU''} \<and> signal_module env name = Some n \<and>
        signal_module env ''SIGTERM'' \<noteq> Some n \<longrightarrow> map_of m n = Some TNone) \<and>
     make_signal_handler_map (c\<lparr>signal_map := m\<rparr>) =
       Inr (map (\<lambda>(n, t). (n, if t = TNone then SIG_IGN else Attr ''terminate'')) m) \<and>
     ((\<forall>tr n h. fault env tr (Signal n h) = None) \<longrightarrow>
        set_signal_handlers env (map (\<lambda>(n, t). (n, if t = TNone then SIG_IGN else Attr ''terminate'')) m) w =
          Returned () (w\<lparr>trace := trace w @
             map (\<lambda>(n, t). Signal n (if t = TNone then SIG_IGN else Attr ''terminate'')) m\<rparr>)) \<and>
     call_handler (Attr ''terminate'') k w =
       Some (Raised (SystemExit (Some (''Terminating on signal '' @ str_int k))) w)"
proof -
  let ?m = "dict_of (default_pairs env)"
  let ?g = "\<lambda>(n, t). (n, if t = TNone then SIG_IGN else Attr ''terminate'')"
  have 1: "make_default_signal_map env = Inr ?m" by (rule make_default_eq)
  have 2: "fst ` set ?m =
       {n. \<exists>name \<in> {''SIGTSTP'', ''SIGTTIN'', ''SIGTTOU'', ''SIGTERM''}. signal_module env name = Some n}"
    by (simp only: dict_of_keys default_pairs_keys)
  have 3: "distinct (map fst ?m)" by (rule dict_of_distinct)
  have 4: "\<forall>n t. (n, t) \<in> set ?m \<longrightarrow>
        (t = TNone \<and> (\<exists>name \<in> {''SIGTSTP'', ''SIGTTIN'', ''SIGTTOU''}. signal_module env name = Some n)) \<or>
        (t = TName ''terminate'' \<and> signal_module env ''SIGTERM'' = Some n)"
  proof (intro allI impI)
    fix n t assume "(n, t) \<in> set ?m"
    then have "(n, t) \<in> set (default_pairs env)" using dict_of_subset[of "default_pairs env"] by blast
    then show "(t = TNone \<and> (\<exists>name \<in> {''SIGTSTP'', ''SIGTTIN'', ''SIGTTOU''}. signal_module env name = Some n)) \<or>
        (t = TName ''terminate'' \<and> signal_module env ''SIGTERM'' = Some n)"
      by (rule default_pairs_values)
  qed
  have 5: "\<forall>n. signal_module env ''SIGTERM'' = Some n \<longrightarrow> map_of ?m n = Some (TName ''terminate'')"
    by (simp add: dict_of_map_of default_pairs_term)
  have 6: "\<forall>name n. name \<in> {''SIGTSTP'', ''SIGTTIN'', ''SIGTTOU''} \<and> signal_module env name = Some n \<and>
        signal_module env ''SIGTERM'' \<noteq> Some n \<longrightarrow> map_of ?m n = Some TNone"
  proof (intro allI impI)
    fix name n assume "name \<in> {''SIGTSTP'', ''SIGTTIN'', ''SIGTTOU''} \<and> signal_module env name = Some n \<and>
        signal_module env ''SIGTERM'' \<noteq> Some n"
    then have "map_of (rev (default_pairs env)) n = Some TNone"
      using default_pairs_stop[of name env n] by blast
    then show "map_of ?m n = Some TNone" by (simp only: dict_of_map_of)
  qed
  have 7: "make_signal_handler_map (c\<lparr>signal_map := ?m\<rparr>) = Inr (map ?g ?m)"
    by (rule default_handler_map)
  have 8: "(\<forall>tr n h. fault env tr (Signal n h) = None) \<longrightarrow>
        set_signal_handlers env (map ?g ?m) w =
          Returned () (w\<lparr>trace := trace w @
             map (\<lambda>(n, t). Signal n (if t = TNone then SIG_IGN else Attr ''terminate'')) ?m\<rparr>)"
  proof
    assume "\<forall>tr n h. fault env tr (Signal n h) = None"
    from set_signal_handlers_ok[OF this, of "map ?g ?m" w]
    have "set_signal_handlers env (map ?g ?m) w =
            Returned () (w\<lparr>trace := trace w @ map (\<lambda>(n, h). Signal n h) (map ?g ?m)\<rparr>)" .
    moreover have "map (\<lambda>(n, h). Signal n h) (map ?g ?m) =
        map (\<lambda>(n, t). Signal n (if t = TNone then SIG_IGN else Attr ''terminate'')) ?m"
      by (rule map_signal_handler)
    ultimately show "set_signal_handlers env (map ?g ?m) w =
          Returned () (w\<lparr>trace := trace w @
             map (\<lambda>(n, t). Signal n (if t = TNone then SIG_IGN else Attr ''terminate'')) ?m\<rparr>)"
      by (simp only:)
  qed
  have 9: "call_handler (Attr ''terminate'') k w =
       Some (Raised (SystemExit (Some (''Terminating on signal '' @ str_int k))) w)"
    by (simp add: terminate_def)
  show ?thesis
    by (rule exI[of _ ?m]) (intro conjI; fact 1 2 3 4 5 6 7 8 9)
qed

lemma sig_eval:
  "signal_module env_sig ''SIGTSTP'' = Some 20" "signal_module env_sig ''SIGTTIN'' = None"
  "signal_module env_sig ''SIGTTOU'' = None" "signal_module env_sig ''SIGTERM'' = Some 15"
  by (simp_all add: env_sig_def)

lemma default_map_example:
  "make_default_signal_map env_sig = Inr [(20, TNone), (15, TName ''terminate'')]"
  by (simp add: make_default_eq default_pairs_def sig_eval dict_of_def)

theorem default_signal_map_witness:
  "make_default_signal_map env_sig = Inr [(20, TNone), (15, TName ''terminate'')] \<and>
   set_signal_handlers env_sig [(20, SIG_IGN), (15, Attr ''terminate'')] world0 =
     Returned () (world0\<lparr>trace := [Signal 20 SIG_IGN, Signal 15 (Attr ''terminate'')]\<rparr>)"
proof -
  from default_signal_map [of env_sig ctx0 world0 15] obtain m where
    m: "make_default_signal_map env_sig = Inr m"
    and h: "(\<forall>tr n h. fault env_sig tr (Signal n h) = None) \<longrightarrow>
        set_signal_handlers env_sig (map (\<lambda>(n, t). (n, if t = TNone then SIG_IGN else Attr ''terminate'')) m) world0 =
          Returned () (world0\<lparr>trace := trace world0 @
             map (\<lambda>(n, t). Signal n (if t = TNone then SIG_IGN else Attr ''terminate'')) m\<rparr>)"
    by (elim exE conjE)
  from m default_map_example have m': "m = [(20, TNone), (15, TName ''terminate'')]" by simp
  have f: "\<forall>tr n h. fault env_sig tr (Signal n h) = None" by (simp add: env_sig_def env0_def)
  have t: "trace world0 = []" by (simp add: world0_def)
  from h f have "set_signal_handlers env_sig (map (\<lambda>(n, t). (n, if t = TNone then SIG_IGN else Attr ''terminate'')) m) world0 =
          Returned () (world0\<lparr>trace := trace world0 @
             map (\<lambda>(n, t). Signal n (if t = TNone then SIG_IGN else Attr ''terminate'')) m\<rparr>)"
    by (rule mp)
  then have "set_signal_handlers env_sig [(20, SIG_IGN), (15, Attr ''terminate'')] world0 =
     Returned () (world0\<lparr>trace := [Signal 20 SIG_IGN, Signal 15 (Attr ''terminate'')]\<rparr>)"
    by (simp add: m' t)
  with default_map_example show ?thesis by (rule conjI)
qed

subsection \<open>Decimal text\<close>

lemma of_char_digit_char: "d < 10 \<Longrightarrow> (of_char (digit_char d) :: nat) = 48 + d"
  by (simp add: digit_char_def)

lemma is_digit_digit_char: "d < 10 \<Longrightarrow> is_digit (digit_char d)"
  by (simp add: is_digit_def of_char_digit_char)

lemma digits_value_snoc: "digits_value (s @ [c]) = 10 * digits_value s + ((of_char c :: nat) - 48)"
  by (simp add: digits_value_def)

lemma str_nat_digits: "str_nat n \<noteq> [] \<and> list_all is_digit (str_nat n) \<and> digits_value (str_nat n) = n"
proof (induction n rule: str_nat.induct)
  case (1 n)
  show ?case
  proof (cases "n < 10")
    case True
    then show ?thesis
      by (simp add: str_nat.simps[of n] is_digit_digit_char digits_value_def of_char_digit_char)
  next
    case False
    with 1 have IH: "str_nat (n div 10) \<noteq> []" "list_all is_digit (str_nat (n div 10))"
      "digits_value (str_nat (n div 10)) = n div 10" by simp_all
    have m: "n mod 10 < 10" by simp
    from False IH m show ?thesis
      by (simp add: str_nat.simps[of n] is_digit_digit_char digits_value_snoc of_char_digit_char)
  qed
qed

lemma int_of_digits_str_nat: "int_of_digits (str_nat n) = Some (int n)"
  using str_nat_digits[of n] by (simp add: int_of_digits_def)

lemma is_digit_not_sign: "is_digit c \<Longrightarrow> c \<noteq> CHR ''-'' \<and> c \<noteq> CHR ''+''"
  by (auto simp: is_digit_def)

lemma int_of_str_str_nat: "int_of_str (str_nat n) = Some (int n)"
proof (cases "str_nat n")
  case Nil
  with str_nat_digits[of n] show ?thesis by simp
next
  case (Cons c cs)
  with str_nat_digits[of n] have "is_digit c" by simp
  from is_digit_not_sign[OF this] int_of_digits_str_nat[of n] Cons show ?thesis by simp
qed

lemma int_of_str_str_int: "int_of_str (str_int i) = Some i"
proof (cases "i < 0")
  case True
  then show ?thesis by (simp add: str_int_def int_of_digits_str_nat)
next
  case False
  then show ?thesis by (simp add: str_int_def int_of_str_str_nat)
qed

subsection \<open>The lock file\<close>

lemma bind_os_call_Returned:
  "bind (os_call env ev w) k = Returned y w'' \<Longrightarrow>
     fault env (trace w) ev = None \<and> k () (log ev w) = Returned y w''"
  by (cases "fault env (trace w) ev") (simp_all add: os_call_def)

lemma builtin_open_Returned:
  assumes "builtin_open env p w = Returned f w1"
  shows "fo_path f = p" "\<not> fo_closed f" "fs w1 p \<noteq> None" "fo_fd f \<in> set (open_fds w1)"
    "trace w1 = trace w @ [OpenFile p]" "locks w1 = locks w"
proof -
  note r = bind_os_call_Returned[OF assms[unfolded builtin_open_def]]
  have f: "f = \<lparr>fo_fd = lowest_free (open_fds w), fo_path = p, fo_closed = False\<rparr>"
    using r by auto
  have w1: "w1 = (log (OpenFile p) w)\<lparr>open_fds := lowest_free (open_fds w) # open_fds w,
              fs := (case fs w p of None \<Rightarrow> (fs w)(p \<mapsto> []) | Some c \<Rightarrow> fs w),
              offsets := (offsets w)(lowest_free (open_fds w) :=
                            (case fs w p of None \<Rightarrow> 0 | Some c \<Rightarrow> length c))\<rparr>"
    using r by (cases "fs w p") auto
  show "fo_path f = p" "\<not> fo_closed f" by (simp_all add: f)
  show "fs w1 p \<noteq> None" by (cases "fs w p") (simp_all add: w1)
  show "fo_fd f \<in> set (open_fds w1)" by (simp add: f w1)
  show "trace w1 = trace w @ [OpenFile p]" "locks w1 = locks w" by (simp_all add: w1)
qed

lemma except_IOError_exit_Returned:
  "except_IOError_exit msg r = Returned u w \<Longrightarrow> r = Returned u w"
  by (cases r) (simp_all add: except_IOError_exit_def sys_exit_def split: if_splits)

lemma flock_ex_Returned:
  assumes "fcntl_flock env f LOCK_EX_NB w = Returned u w'"
  shows "fs w' = fs w" "open_fds w' = open_fds w" "locks w' (fo_path f) = Some (OwnFd (fo_fd f))"
    "offsets w' = offsets w"
proof -
  from assms have "bind (os_call env (Flock (fo_fd f) LOCK_EX_NB) w)
      (\<lambda>_ w'. Returned () (w'\<lparr>locks := (locks w')(fo_path f \<mapsto> OwnFd (fo_fd f))\<rparr>)) = Returned u w'"
    by (simp add: fcntl_flock_def split: if_splits)
  from bind_os_call_Returned[OF this]
  have w': "w' = (log (Flock (fo_fd f) LOCK_EX_NB) w)\<lparr>locks := (locks w)(fo_path f \<mapsto> OwnFd (fo_fd f))\<rparr>"
    by simp
  show "fs w' = fs w" "open_fds w' = open_fds w" "locks w' (fo_path f) = Some (OwnFd (fo_fd f))"
    "offsets w' = offsets w"
    by (simp_all add: w')
qed

lemma file_seek_Returned:
  assumes "file_seek env f n w = Returned u w'"
  shows "fs w' = fs w" "open_fds w' = open_fds w" "locks w' = locks w" "offsets w' (fo_fd f) = n"
proof -
  from assms have "\<not> fo_closed f" by (auto simp: file_seek_def split: if_splits)
  with assms have "bind (os_call env (FileSeek (fo_fd f) n) w)
             (\<lambda>_ w'. Returned () (w'\<lparr>offsets := (offsets w')(fo_fd f := n)\<rparr>)) = Returned u w'"
    by (simp add: file_seek_def)
  from bind_os_call_Returned[OF this]
  have w': "w' = (log (FileSeek (fo_fd f) n) w)\<lparr>offsets := (offsets w)(fo_fd f := n)\<rparr>" by simp
  show "fs w' = fs w" "open_fds w' = open_fds w" "locks w' = locks w" "offsets w' (fo_fd f) = n"
    by (simp_all add: w')
qed

lemma file_truncate_Returned:
  assumes "file_truncate env f w = Returned u w'"
  shows "fs w' = fs_change (fo_path f) (take (offsets w (fo_fd f))) (fs w)"
    "open_fds w' = open_fds w" "locks w' = locks w" "offsets w' = offsets w"
proof -
  from assms have "\<not> fo_closed f" by (auto simp: file_truncate_def split: if_splits)
  with assms have "bind (os_call env (FileTruncate (fo_fd f)) w)
             (\<lambda>_ w'. Returned () (w'\<lparr>fs := fs_change (fo_path f) (take (offsets w' (fo_fd f))) (fs w')\<rparr>)) = Returned u w'"
    by (simp add: file_truncate_def)
  from bind_os_call_Returned[OF this]
  have w': "w' = (log (FileTruncate (fo_fd f)) w)\<lparr>fs := fs_change (fo_path f) (take (offsets w (fo_fd f))) (fs w)\<rparr>"
    by simp
  show "fs w' = fs_change (fo_path f) (take (offsets w (fo_fd f))) (fs w)"
    "open_fds w' = open_fds w" "locks w' = locks w" "offsets w' = offsets w"
    by (simp_all add: w')
qed

lemma file_write_Returned:
  assumes "file_write env f s w = Returned u w'"
  shows "fs w' = fs_change (fo_path f) (\<lambda>c. c @ s) (fs w)"
    "open_fds w' = open_fds w" "locks w' = locks w"
proof -
  from assms have "\<not> fo_closed f" by (auto simp: file_write_def split: if_splits)
  with assms have "bind (os_call env (FileWrite (fo_fd f) s) w)
             (\<lambda>_ w'. Returned ()
                (w'\<lparr>fs := fs_change (fo_path f) (\<lambda>c. c @ s) (fs w'),
                    offsets := (offsets w')(fo_fd f :=
                       (case fs w' (fo_path f) of None \<Rightarrow> length s | Some c \<Rightarrow> length c + length s))\<rparr>)) = Returned u w'"
    by (simp add: file_write_def)
  from bind_os_call_Returned[OF this]
  have w': "w' = (log (FileWrite (fo_fd f) s) w)\<lparr>fs := fs_change (fo_path f) (\<lambda>c. c @ s) (fs w),
                    offsets := (offsets w)(fo_fd f :=
                       (case fs w (fo_path f) of None \<Rightarrow> length s | Some c \<Rightarrow> length c + length s))\<rparr>"
    by simp
  show "fs w' = fs_change (fo_path f) (\<lambda>c. c @ s) (fs w)"
    "open_fds w' = open_fds w" "locks w' = locks w"
    by (simp_all add: w')
qed

lemma file_flush_Returned:
  assumes "file_flush env f w = Returned u w'"
  shows "fs w' = fs w" "open_fds w' = open_fds w" "locks w' = locks w"
proof -
  from assms have "\<not> fo_closed f" by (auto simp: file_flush_def split: if_splits)
  with assms have "os_call env (FileFlush (fo_fd f)) w = Returned u w'" by (simp add: file_flush_def)
  from os_call_Returned[OF this] have w': "w' = log (FileFlush (fo_fd f)) w" by simp
  show "fs w' = fs w" "open_fds w' = open_fds w" "locks w' = locks w" by (simp_all add: w')
qed

lemma PidFile_enter_Returned:
  assumes "snd (PidFile_enter env self w) = Returned f w'"
  shows "fs w' (path self) = Some (str_int (getpid env))"
    and "handle (fst (PidFile_enter env self w)) = f"
    and "fo_path f = path self" and "\<not> fo_closed f" and "fo_fd f \<in> set (open_fds w')"
    and "locks w' (path self) = Some (OwnFd (fo_fd f))"
proof -
  let ?p = "path self"
  let ?s = "str_int (getpid env)"
  obtain f0 w1 where o: "builtin_open env ?p w = Returned f0 w1"
    using assms by (cases "builtin_open env ?p w") (simp_all add: PidFile_enter_def)
  note O = builtin_open_Returned[OF o]
  have e: "PidFile_enter env self w =
     (self\<lparr>handle := f0\<rparr>,
      bind (except_IOError_exit (enter_err_msg self) (fcntl_flock env f0 LOCK_EX_NB w1))
        (\<lambda>_ w2. bind (file_seek env f0 0 w2)
          (\<lambda>_ w3. bind (file_truncate env f0 w3)
            (\<lambda>_ w4. bind (file_write env f0 ?s (log Getpid w4))
              (\<lambda>_ w5. bind (file_flush env f0 w5)
                (\<lambda>_ w6. bind (file_seek env f0 0 w6)
                  (\<lambda>_. Returned f0)))))))"
    by (simp add: PidFile_enter_def o)
  from assms e obtain u2 w2 where
    s1: "except_IOError_exit (enter_err_msg self) (fcntl_flock env f0 LOCK_EX_NB w1) = Returned u2 w2"
    and c2: "bind (file_seek env f0 0 w2)
          (\<lambda>_ w3. bind (file_truncate env f0 w3)
            (\<lambda>_ w4. bind (file_write env f0 ?s (log Getpid w4))
              (\<lambda>_ w5. bind (file_flush env f0 w5)
                (\<lambda>_ w6. bind (file_seek env f0 0 w6)
                  (\<lambda>_. Returned f0))))) = Returned f w'"
    by (auto dest: bind_Returned)
  from bind_Returned[OF c2] obtain u3 w3 where
    s2: "file_seek env f0 0 w2 = Returned u3 w3"
    and c3: "bind (file_truncate env f0 w3)
            (\<lambda>_ w4. bind (file_write env f0 ?s (log Getpid w4))
              (\<lambda>_ w5. bind (file_flush env f0 w5)
                (\<lambda>_ w6. bind (file_seek env f0 0 w6)
                  (\<lambda>_. Returned f0)))) = Returned f w'"
    by blast
  from bind_Returned[OF c3] obtain u4 w4 where
    s3: "file_truncate env f0 w3 = Returned u4 w4"
    and c4: "bind (file_write env f0 ?s (log Getpid w4))
              (\<lambda>_ w5. bind (file_flush env f0 w5)
                (\<lambda>_ w6. bind (file_seek env f0 0 w6)
                  (\<lambda>_. Returned f0))) = Returned f w'"
    by blast
  from bind_Returned[OF c4] obtain u5 w5 where
    s4: "file_write env f0 ?s (log Getpid w4) = Returned u5 w5"
    and c5: "bind (file_flush env f0 w5)
                (\<lambda>_ w6. bind (file_seek env f0 0 w6)
                  (\<lambda>_. Returned f0)) = Returned f w'"
    by blast
  from bind_Returned[OF c5] obtain u6 w6 where
    s5': "file_flush env f0 w5 = Returned u6 w6"
    and c6: "bind (file_seek env f0 0 w6) (\<lambda>_. Returned f0) = Returned f w'"
    by blast
  from bind_Returned[OF c6] obtain u7 w7 where
    s6: "file_seek env f0 0 w6 = Returned u7 w7" and r: "Returned f0 w7 = Returned f w'"
    by blast
  from r have ff: "f = f0" and ww: "w' = w7" by simp_all
  note F = flock_ex_Returned[OF except_IOError_exit_Returned[OF s1]]
  note S2 = file_seek_Returned[OF s2]
  note S3 = file_truncate_Returned[OF s3]
  note S4 = file_write_Returned[OF s4]
  note S5 = file_flush_Returned[OF s5']
  note S6 = file_seek_Returned[OF s6]
  from O(3) obtain c where c: "fs w1 ?p = Some c" by blast
  have "fs w3 ?p = Some c" using c F(1) S2(1) by simp
  then have "fs w4 ?p = Some []" using S3(1) S2(4) O(1) by (simp add: fs_change_def)
  then have "fs w5 ?p = Some ?s" using S4(1) O(1) by (simp add: fs_change_def)
  then show "fs w' ?p = Some ?s" using S5(1) S6(1) ww by simp
  show "handle (fst (PidFile_enter env self w)) = f" by (simp add: e ff)
  show "fo_path f = ?p" "\<not> fo_closed f" using O(1,2) ff by simp_all
  have "open_fds w' = open_fds w1"
    using F(2) S2(2) S3(2) S4(2) S5(2) S6(2) ww by simp
  then show "fo_fd f \<in> set (open_fds w')" using O(4) ff by simp
  have "locks w' = locks w2" using S2(3) S3(3) S4(3) S5(3) S6(3) ww by simp
  then show "locks w' ?p = Some (OwnFd (fo_fd f))" using F(3) O(1) ff by simp
qed

lemma os_remove_Returned:
  assumes "os_remove env p w = Returned u w'"
  shows "fs w' p = None" "open_fds w' = open_fds w"
proof -
  from assms have "bind (os_call env (Remove p) w)
             (\<lambda>_ w'. Returned () (w'\<lparr>fs := (fs w')(p := None), locks := (locks w')(p := None)\<rparr>)) = Returned u w'"
    by (simp add: os_remove_def split: if_splits)
  from bind_os_call_Returned[OF this]
  have w': "w' = (log (Remove p) w)\<lparr>fs := (fs w)(p := None), locks := (locks w)(p := None)\<rparr>" by simp
  show "fs w' p = None" "open_fds w' = open_fds w" by (simp_all add: w')
qed

lemma PidFile_exit_Returned:
  assumes "snd (PidFile_exit env self w) = Returned u w'"
  shows "fs w' (path self) = None"
    and "fo_closed (handle (fst (PidFile_exit env self w)))"
    and "\<not> fo_closed (handle self) \<Longrightarrow> fo_fd (handle self) \<notin> set (open_fds w')"
proof -
  let ?c = "case snd (file_close env (handle self) w) of
              Raised err w1 \<Rightarrow>
                (case err of
                   OSError n s t \<Rightarrow> (if n \<noteq> 9 then Raised err w1 else Returned () w1)
                 | _ \<Rightarrow> Raised err w1)
            | r \<Rightarrow> r"
  from assms have "bind ?c (\<lambda>_. os_remove env (path self)) = Returned u w'"
    by (simp add: PidFile_exit_def)
  from bind_Returned[OF this] obtain x w1 where
    c: "?c = Returned x w1" and r: "os_remove env (path self) w1 = Returned u w'"
    by blast
  from os_remove_Returned[OF r] show "fs w' (path self) = None" by simp
  show "fo_closed (handle (fst (PidFile_exit env self w)))"
    by (simp add: PidFile_exit_def file_close_def)
  assume n: "\<not> fo_closed (handle self)"
  then have fc: "snd (file_close env (handle self) w) = os_close env (fo_fd (handle self)) w"
    by (simp add: file_close_def)
  have "world_of ?c = world_of (os_close env (fo_fd (handle self)) w)"
  proof (cases "os_close env (fo_fd (handle self)) w")
    case (Raised e w2)
    then show ?thesis by (cases e) (simp_all add: fc)
  qed (simp_all add: fc)
  with c have "w1 = world_of (os_close env (fo_fd (handle self)) w)" by simp
  with os_close_world(2)[of env "fo_fd (handle self)" w]
  have "fo_fd (handle self) \<notin> set (open_fds w1)" by simp
  then show "fo_fd (handle self) \<notin> set (open_fds w')" using os_remove_Returned(2)[OF r] by simp
qed

text \<open>
  C4. When \<^verbatim>\<open>PidFile.__enter__\<close> returns, the file at the path holds exactly the
  decimal text of the process id, whatever it held before, so that reading it back as
  an integer gives the process id; the object holds the open file it returns, with the
  lock. When \<^verbatim>\<open>PidFile.__exit__\<close> returns, the file object is closed, its descriptor
  is not open any more, and the path does not exist.
\<close>

theorem pidfile_enter_exit:
  "(snd (PidFile_enter env self w) = Returned f w' \<longrightarrow>
      fs w' (path self) = Some (str_int (getpid env)) \<and>
      Option.bind (fs w' (path self)) int_of_str = Some (getpid env) \<and>
      handle (fst (PidFile_enter env self w)) = f \<and> \<not> fo_closed f \<and>
      fo_fd f \<in> set (open_fds w') \<and> locks w' (path self) = Some (OwnFd (fo_fd f))) \<and>
   (snd (PidFile_exit env self w) = Returned u w' \<longrightarrow>
      fs w' (path self) = None \<and>
      fo_closed (handle (fst (PidFile_exit env self w))) \<and>
      (\<not> fo_closed (handle self) \<longrightarrow> fo_fd (handle self) \<notin> set (open_fds w')))"
proof (intro conjI impI)
  assume a: "snd (PidFile_enter env self w) = Returned f w'"
  note E = PidFile_enter_Returned[OF a]
  show "fs w' (path self) = Some (str_int (getpid env))" by (rule E(1))
  show "Option.bind (fs w' (path self)) int_of_str = Some (getpid env)"
    by (simp add: E(1) int_of_str_str_int)
  show "handle (fst (PidFile_enter env self w)) = f" by (rule E(2))
  show "\<not> fo_closed f" by (rule E(4))
  show "fo_fd f \<in> set (open_fds w')" by (rule E(5))
  show "locks w' (path self) = Some (OwnFd (fo_fd f))" by (rule E(6))
next
  assume a: "snd (PidFile_exit env self w) = Returned u w'"
  note X = PidFile_exit_Returned[OF a]
  show "fs w' (path self) = None" by (rule X(1))
  show "fo_closed (handle (fst (PidFile_exit env self w)))" by (rule X(2))
  assume "\<not> fo_closed (handle self)"
  then show "fo_fd (handle self) \<notin> set (open_fds w')" by (rule X(3))
qed

lemmas eval_defs =
  PidFile_enter_def PidFile_exit_def builtin_open_def fcntl_flock_def file_seek_def
  file_truncate_def file_write_def file_flush_def file_close_def os_remove_def os_close_def
  os_call_def except_IOError_exit_def sys_exit_def log_def closed_fd_def fs_change_def
  lowest_free_def release_locks_def bad_file_descriptor_def

lemma str_int_4242: "str_int 4242 = ''4242''"
  by code_simp

lemma enter_example:
  "\<exists>f. snd (PidFile_enter env0 pidfile0 world_stale) =
     Returned f (world_of (snd (PidFile_enter env0 pidfile0 world_stale)))"
  by (simp add: eval_defs pidfile0_def world_stale_def world0_def env0_def upt_rec)

lemma exit_example:
  "\<exists>u w''. snd (PidFile_exit env0 (fst (PidFile_enter env0 pidfile0 world_stale))
              (world_of (snd (PidFile_enter env0 pidfile0 world_stale)))) = Returned u w''"
  by (simp add: eval_defs pidfile0_def world_stale_def world0_def env0_def upt_rec)

theorem pidfile_enter_exit_witness:
  "(\<exists>f. snd (PidFile_enter env0 pidfile0 world_stale) =
          Returned f (world_of (snd (PidFile_enter env0 pidfile0 world_stale)))) \<and>
   fs (world_of (snd (PidFile_enter env0 pidfile0 world_stale))) ''/run/q.pid'' = Some ''4242'' \<and>
   int_of_str ''4242'' = Some 4242 \<and>
   (\<exists>u w''. snd (PidFile_exit env0 (fst (PidFile_enter env0 pidfile0 world_stale))
               (world_of (snd (PidFile_enter env0 pidfile0 world_stale)))) = Returned u w'' \<and>
            fs w'' ''/run/q.pid'' = None)"
proof -
  let ?r = "PidFile_enter env0 pidfile0 world_stale"
  from enter_example obtain f where e: "snd ?r = Returned f (world_of (snd ?r))" by blast
  from exit_example obtain u w'' where
    x: "snd (PidFile_exit env0 (fst ?r) (world_of (snd ?r))) = Returned u w''" by blast
  have p: "path pidfile0 = ''/run/q.pid''" "path (fst ?r) = ''/run/q.pid''"
    by (simp_all add: pidfile0_def PidFile_enter_def split: outcome.splits)
  have g: "getpid env0 = 4242" by (simp add: env0_def)
  from pidfile_enter_exit [of env0 pidfile0 world_stale f "world_of (snd ?r)" "()"] e
  have 1: "fs (world_of (snd ?r)) (path pidfile0) = Some (str_int (getpid env0))"
    and 2: "Option.bind (fs (world_of (snd ?r)) (path pidfile0)) int_of_str = Some (getpid env0)"
    by blast+
  from pidfile_enter_exit [of env0 "fst ?r" "world_of (snd ?r)" f w'' u] x
  have 3: "fs w'' (path (fst ?r)) = None" by blast
  from 1 have a: "fs (world_of (snd ?r)) ''/run/q.pid'' = Some ''4242''"
    by (simp only: p g str_int_4242)
  from 2 a have b: "int_of_str ''4242'' = Some 4242" by (simp only: p g Option.bind.simps)
  from 3 have c: "fs w'' ''/run/q.pid'' = None" by (simp only: p)
  from e a b x c show ?thesis by blast
qed

subsection \<open>A lock that is held\<close>

lemma builtin_open_ok:
  "fault env (trace w) (OpenFile p) = None \<Longrightarrow> \<exists>f w1. builtin_open env p w = Returned f w1"
  by (simp add: builtin_open_def os_call_def)

lemma flock_fails_locked:
  "\<not> fo_closed f \<Longrightarrow> fo_fd f \<in> set (open_fds w) \<Longrightarrow> locks w (fo_path f) = Some OtherProcess \<Longrightarrow>
   fcntl_flock env f LOCK_EX_NB w =
     Raised (OSError EWOULDBLOCK ''Resource temporarily unavailable''
               ''[Errno 11] Resource temporarily unavailable'')
       (log (Flock (fo_fd f) LOCK_EX_NB) w)"
  by (simp add: fcntl_flock_def)

lemma PidFile_enter_locked:
  assumes "locks w (path self) = Some OtherProcess" "fault env (trace w) (OpenFile (path self)) = None"
  shows "\<exists>w'. snd (PidFile_enter env self w) = Raised (SystemExit (enter_err_msg self)) w'"
proof -
  from builtin_open_ok[OF assms(2)] obtain f w1 where o: "builtin_open env (path self) w = Returned f w1"
    by blast
  note O = builtin_open_Returned[OF o]
  from O assms(1) have "locks w1 (fo_path f) = Some OtherProcess" by simp
  from flock_fails_locked[OF O(2) O(4) this, of env]
  show ?thesis by (simp add: PidFile_enter_def o except_IOError_exit_def sys_exit_def)
qed

lemma PidFile_init_locked:
  assumes "locks w p = Some OtherProcess" "fault env (trace w) (OpenFile p) = None"
  shows "\<exists>w'. PidFile_init env p msg w = Raised (SystemExit msg) w'"
proof -
  from builtin_open_ok[OF assms(2)] obtain f w1 where o: "builtin_open env p w = Returned f w1"
    by blast
  note O = builtin_open_Returned[OF o]
  from O assms(1) have "locks w1 (fo_path f) = Some OtherProcess" by simp
  from flock_fails_locked[OF O(2) O(4) this, of env]
  show ?thesis by (simp add: PidFile_init_def o except_IOError_exit_def sys_exit_def)
qed

lemma PidFile_init_locked_trace:
  assumes "locks w p = Some OtherProcess" "fault env (trace w) (OpenFile p) = None"
  shows "\<exists>w'. PidFile_init env p msg w = Raised (SystemExit msg) w' \<and>
           trace w' = trace w @ [OpenFile p, Flock (lowest_free (open_fds w)) LOCK_EX_NB]"
  using assms
  by (simp add: PidFile_init_def builtin_open_def os_call_def fcntl_flock_def
      except_IOError_exit_def sys_exit_def EWOULDBLOCK_def)

lemma PidFile_init_free:
  assumes "locks w p = None" "n = lowest_free (open_fds w)"
    "fault env (trace w) (OpenFile p) = None"
    "fault env (trace w @ [OpenFile p]) (Flock n LOCK_EX_NB) = None"
    "fault env (trace w @ [OpenFile p, Flock n LOCK_EX_NB]) (Flock n LOCK_UN) = None"
    "fault env (trace w @ [OpenFile p, Flock n LOCK_EX_NB, Flock n LOCK_UN]) (Close n) = None"
    "fault env (trace w @ [OpenFile p, Flock n LOCK_EX_NB, Flock n LOCK_UN, Close n]) (Remove p) = None"
  shows "\<exists>pf w'. PidFile_init env p msg w = Returned pf w' \<and>
           path pf = p \<and> enter_err_msg pf = msg \<and> fo_closed (handle pf) \<and>
           trace w' = trace w @ [OpenFile p, Flock n LOCK_EX_NB, Flock n LOCK_UN, Close n, Remove p] \<and>
           fs w' p = None \<and> locks w' p = None \<and> n \<notin> set (open_fds w')"
  using assms
  by (cases "fs w p")
     (simp_all add: PidFile_init_def builtin_open_def os_call_def fcntl_flock_def
      except_IOError_exit_def sys_exit_def file_close_def os_close_def os_remove_def
      closed_fd_def release_locks_def)

text \<open>
  C5, as the code has it. Where another process holds the lock of the path and the file
  can be opened, the constructor of \<^verbatim>\<open>PidFile\<close> and \<^verbatim>\<open>__enter__\<close> both end in
  the exception \<^verbatim>\<open>SystemExit\<close> that carries the configured message: the exception of
  \<^verbatim>\<open>sys.exit\<close>, raised to the caller, and not the end of the process. The
  constructor fails fast: it has opened the file and asked for the lock, and made no
  other call. Where nobody holds the lock and the operating system fails none of the
  calls, the constructor takes the lock, gives it back, closes the file and removes the
  path, in this order, and returns the object with its path and its message.
\<close>

theorem lock_failure_raises_SystemExit:
  "(locks w p = Some OtherProcess \<and> fault env (trace w) (OpenFile p) = None \<longrightarrow>
     (\<exists>w'. PidFile_init env p msg w = Raised (SystemExit msg) w' \<and>
            trace w' = trace w @ [OpenFile p, Flock (lowest_free (open_fds w)) LOCK_EX_NB]) \<and>
     (path self = p \<longrightarrow>
        (\<exists>w'. snd (PidFile_enter env self w) = Raised (SystemExit (enter_err_msg self)) w'))) \<and>
   (locks w p = None \<and> n = lowest_free (open_fds w) \<and>
    fault env (trace w) (OpenFile p) = None \<and>
    fault env (trace w @ [OpenFile p]) (Flock n LOCK_EX_NB) = None \<and>
    fault env (trace w @ [OpenFile p, Flock n LOCK_EX_NB]) (Flock n LOCK_UN) = None \<and>
    fault env (trace w @ [OpenFile p, Flock n LOCK_EX_NB, Flock n LOCK_UN]) (Close n) = None \<and>
    fault env (trace w @ [OpenFile p, Flock n LOCK_EX_NB, Flock n LOCK_UN, Close n]) (Remove p) = None \<longrightarrow>
     (\<exists>pf w'. PidFile_init env p msg w = Returned pf w' \<and>
        path pf = p \<and> enter_err_msg pf = msg \<and> fo_closed (handle pf) \<and>
        trace w' = trace w @ [OpenFile p, Flock n LOCK_EX_NB, Flock n LOCK_UN, Close n, Remove p] \<and>
        fs w' p = None \<and> locks w' p = None \<and> n \<notin> set (open_fds w')))"
  using PidFile_init_locked_trace[of w p env msg] PidFile_enter_locked[of w self env]
    PidFile_init_free[of w p n env msg]
  by blast

lemma lowest_free_world0: "lowest_free [0, 1, 2] = 3"
  by (simp add: lowest_free_def upt_rec)

theorem lock_failure_raises_SystemExit_witness:
  "(\<exists>w'. PidFile_init env0 ''/run/q.pid'' (Some ''already running'') world_locked =
           Raised (SystemExit (Some ''already running'')) w' \<and>
         trace w' = [OpenFile ''/run/q.pid'', Flock 3 LOCK_EX_NB]) \<and>
   (\<exists>w'. snd (PidFile_enter env0 pidfile0 world_locked) =
           Raised (SystemExit (Some ''already running'')) w') \<and>
   (\<exists>pf w'. PidFile_init env0 ''/run/q.pid'' (Some ''already running'') world_stale =
               Returned pf w' \<and>
      path pf = ''/run/q.pid'' \<and> enter_err_msg pf = Some ''already running'' \<and>
      fo_closed (handle pf) \<and>
      trace w' = [OpenFile ''/run/q.pid'', Flock 3 LOCK_EX_NB, Flock 3 LOCK_UN, Close 3,
                  Remove ''/run/q.pid''] \<and>
      fs w' ''/run/q.pid'' = None \<and> locks w' ''/run/q.pid'' = None \<and> 3 \<notin> set (open_fds w'))"
proof (intro conjI)
  have l: "locks world_locked ''/run/q.pid'' = Some OtherProcess \<and>
        fault env0 (trace world_locked) (OpenFile ''/run/q.pid'') = None"
    by (simp add: world_locked_def world0_def env0_def)
  have t: "trace world_locked = []" "lowest_free (open_fds world_locked) = 3"
    by (simp_all add: world_locked_def world0_def lowest_free_world0)
  have p: "path pidfile0 = ''/run/q.pid''" "enter_err_msg pidfile0 = Some ''already running''"
    by (simp_all add: pidfile0_def)
  note T = lock_failure_raises_SystemExit [of world_locked "''/run/q.pid''" env0
        "Some ''already running''" pidfile0 3]
  from T l t show "\<exists>w'. PidFile_init env0 ''/run/q.pid'' (Some ''already running'') world_locked =
           Raised (SystemExit (Some ''already running'')) w' \<and>
         trace w' = [OpenFile ''/run/q.pid'', Flock 3 LOCK_EX_NB]"
    by simp
  from T l p show "\<exists>w'. snd (PidFile_enter env0 pidfile0 world_locked) =
           Raised (SystemExit (Some ''already running'')) w'"
    by simp
next
  have l: "locks world_stale ''/run/q.pid'' = None" "3 = lowest_free (open_fds world_stale)"
    "trace world_stale = []" "\<And>tr ev. fault env0 tr ev = None"
    by (simp_all add: world_stale_def world0_def env0_def lowest_free_world0)
  with lock_failure_raises_SystemExit [of world_stale "''/run/q.pid''" env0
        "Some ''already running''" pidfile0 3]
  show "\<exists>pf w'. PidFile_init env0 ''/run/q.pid'' (Some ''already running'') world_stale =
               Returned pf w' \<and>
      path pf = ''/run/q.pid'' \<and> enter_err_msg pf = Some ''already running'' \<and>
      fo_closed (handle pf) \<and>
      trace w' = [OpenFile ''/run/q.pid'', Flock 3 LOCK_EX_NB, Flock 3 LOCK_UN, Close 3,
                  Remove ''/run/q.pid''] \<and>
      fs w' ''/run/q.pid'' = None \<and> locks w' ''/run/q.pid'' = None \<and> 3 \<notin> set (open_fds w')"
    by simp
qed

text \<open>
  At this input the call does not end the process: it ends in an exception that goes to
  its caller.
\<close>

theorem lock_failure_counterexample:
  "snd (PidFile_enter env0 pidfile0 world_locked) =
     Raised (SystemExit (Some ''already running''))
       (world_locked\<lparr>trace := [OpenFile ''/run/q.pid'', Flock 3 LOCK_EX_NB],
          open_fds := [3, 0, 1, 2],
          offsets := (offsets world_locked)(3 := 3)\<rparr>)"
  by (simp add: eval_defs pidfile0_def world_locked_def world0_def env0_def upt_rec
      EWOULDBLOCK_def eval_nat_numeral)

subsection \<open>The detach protocol\<close>

lemma sleep_simps [simp]:
  "trace (sleep env w) = trace w @ [Sleep 100]"
  "fs (sleep env w) = during_sleep env (trace w) (fs w)"
  "open_fds (sleep env w) = open_fds w"
  by (simp_all add: sleep_def)

lemma trace_after_polls:
  "trace (after_polls env p n w) = trace w @ concat (replicate n [PathExists p, Sleep 100])"
  by (induction n arbitrary: w) simp_all

lemma wait_for_path_after_polls:
  "(\<forall>k<n. fs (after_polls env p k w) p = None) \<Longrightarrow> fs (after_polls env p n w) p \<noteq> None \<Longrightarrow>
   wait_for_path env p w = Some (log (PathExists p) (after_polls env p n w))"
proof (induction n arbitrary: w)
  case 0
  then show ?case by (simp add: wait_for_path.simps[of env p w])
next
  case (Suc n)
  let ?w1 = "sleep env (log (PathExists p) w)"
  from Suc.prems(1) have 0: "fs w p = None" by (auto dest: spec[of _ 0])
  have 1: "\<forall>k<n. fs (after_polls env p k ?w1) p = None"
  proof (intro allI impI)
    fix k assume "k < n"
    then have "Suc k < Suc n" by simp
    with Suc.prems(1) have "fs (after_polls env p (Suc k) w) p = None" by blast
    then show "fs (after_polls env p k ?w1) p = None" by simp
  qed
  from Suc.prems(2) have 2: "fs (after_polls env p n ?w1) p \<noteq> None" by simp
  from Suc.IH[OF 1 2] 0 show ?case by (simp add: wait_for_path.simps[of env p w])
qed

lemma fork_child:
  "fault env (trace w) Fork = None \<Longrightarrow> \<not> 0 < fork_result env (trace w @ [Fork]) \<Longrightarrow>
   fork_then_exit_parent env pfo msg w = Some (Returned () (log Fork w))"
  by (simp add: fork_then_exit_parent_def os_call_def)

lemma fork_parent_None:
  "fault env (trace w) Fork = None \<Longrightarrow> 0 < fork_result env (trace w @ [Fork]) \<Longrightarrow>
   fork_then_exit_parent env None msg w =
     Some (Raised (AttributeError ''NoneType object has no attribute path'') (log Fork w))"
  by (simp add: fork_then_exit_parent_def os_call_def)

lemma fork_parent_polls:
  assumes "fault env (trace w) Fork = None" "0 < fork_result env (trace w @ [Fork])"
    "\<forall>k<n. fs (after_polls env (path pf) k (log Fork w)) (path pf) = None"
    "fs (after_polls env (path pf) n (log Fork w)) (path pf) \<noteq> None"
  shows "fork_then_exit_parent env (Some pf) msg w =
     Some (Exited 0 (log (OsExit 0) (log (PathExists (path pf)) (after_polls env (path pf) n (log Fork w)))))"
  using assms(1,2) wait_for_path_after_polls[OF assms(3,4)]
  by (simp add: fork_then_exit_parent_def os_call_def)

lemma detach_first_parent:
  assumes "fault env (trace w) Fork = None" "0 < fork_result env (trace w @ [Fork])"
    "\<forall>k<n. fs (after_polls env (path pf) k (log Fork w)) (path pf) = None"
    "fs (after_polls env (path pf) n (log Fork w)) (path pf) \<noteq> None"
  shows "detach_process_context env (Some pf) w =
     Some (Exited 0 (log (OsExit 0) (log (PathExists (path pf)) (after_polls env (path pf) n (log Fork w)))))"
  by (simp add: detach_process_context_def fork_parent_polls[OF assms])

lemma detach_second_parent:
  assumes "fault env (trace w) Fork = None" "\<not> 0 < fork_result env (trace w @ [Fork])"
    "fault env (trace w @ [Fork]) Setsid = None"
    "fault env (trace w @ [Fork, Setsid]) Fork = None"
    "0 < fork_result env (trace w @ [Fork, Setsid, Fork])"
    "\<forall>k<n. fs (after_polls env (path pf) k (log Fork (log Setsid (log Fork w)))) (path pf) = None"
    "fs (after_polls env (path pf) n (log Fork (log Setsid (log Fork w)))) (path pf) \<noteq> None"
  shows "detach_process_context env (Some pf) w =
     Some (Exited 0 (log (OsExit 0) (log (PathExists (path pf))
        (after_polls env (path pf) n (log Fork (log Setsid (log Fork w)))))))"
proof -
  let ?w2 = "log Setsid (log Fork w)"
  have 1: "fork_then_exit_parent env (Some pf) ''Failed first fork'' w = Some (Returned () (log Fork w))"
    using assms(1,2) by (rule fork_child)
  have 2: "os_call env Setsid (log Fork w) = Returned () ?w2"
    using assms(3) by (simp add: os_call_def)
  have 3: "fork_then_exit_parent env (Some pf) ''Failed second fork'' ?w2 =
     Some (Exited 0 (log (OsExit 0) (log (PathExists (path pf)) (after_polls env (path pf) n (log Fork ?w2)))))"
    using assms(4,5,6,7) by (intro fork_parent_polls) simp_all
  show ?thesis by (simp add: detach_process_context_def 1 2 3)
qed

lemma detach_children:
  assumes "fault env (trace w) Fork = None" "\<not> 0 < fork_result env (trace w @ [Fork])"
    "fault env (trace w @ [Fork]) Setsid = None"
    "fault env (trace w @ [Fork, Setsid]) Fork = None"
    "\<not> 0 < fork_result env (trace w @ [Fork, Setsid, Fork])"
  shows "detach_process_context env pfo w = Some (Returned () (log Fork (log Setsid (log Fork w))))"
proof -
  let ?w2 = "log Setsid (log Fork w)"
  have 1: "fork_then_exit_parent env pfo ''Failed first fork'' w = Some (Returned () (log Fork w))"
    using assms(1,2) by (rule fork_child)
  have 2: "os_call env Setsid (log Fork w) = Returned () ?w2"
    using assms(3) by (simp add: os_call_def)
  have 3: "fork_then_exit_parent env pfo ''Failed second fork'' ?w2 = Some (Returned () (log Fork ?w2))"
    using assms(4,5) by (intro fork_child) simp_all
  show ?thesis by (simp add: detach_process_context_def 1 2 3)
qed

text \<open>
  C3, as the code has it. Both forks go through \<^verbatim>\<open>fork_then_exit_parent\<close>, so the
  parent of the second fork does what the parent of the first does: it looks for the
  path of the lock file, sleeps a tenth of a second while the path is missing, and
  leaves with \<^verbatim>\<open>os._exit(0)\<close> once the path exists. The process that is the child of
  both forks returns from the protocol after \<^verbatim>\<open>fork\<close>, \<^verbatim>\<open>setsid\<close>, \<^verbatim>\<open>fork\<close>.
\<close>

theorem detach_parents_poll:
  "(fault env (trace w) Fork = None \<and> 0 < fork_result env (trace w @ [Fork]) \<and>
    (\<forall>k<n. fs (after_polls env (path pf) k (log Fork w)) (path pf) = None) \<and>
    fs (after_polls env (path pf) n (log Fork w)) (path pf) \<noteq> None \<longrightarrow>
      (\<exists>w'. detach_process_context env (Some pf) w = Some (Exited 0 w') \<and>
            trace w' = trace w @ [Fork] @ concat (replicate n [PathExists (path pf), Sleep 100]) @
                         [PathExists (path pf), OsExit 0])) \<and>
   (fault env (trace w) Fork = None \<and> \<not> 0 < fork_result env (trace w @ [Fork]) \<and>
    fault env (trace w @ [Fork]) Setsid = None \<and>
    fault env (trace w @ [Fork, Setsid]) Fork = None \<and>
    0 < fork_result env (trace w @ [Fork, Setsid, Fork]) \<and>
    (\<forall>k<n. fs (after_polls env (path pf) k (log Fork (log Setsid (log Fork w)))) (path pf) = None) \<and>
    fs (after_polls env (path pf) n (log Fork (log Setsid (log Fork w)))) (path pf) \<noteq> None \<longrightarrow>
      (\<exists>w'. detach_process_context env (Some pf) w = Some (Exited 0 w') \<and>
            trace w' = trace w @ [Fork, Setsid, Fork] @
                         concat (replicate n [PathExists (path pf), Sleep 100]) @
                         [PathExists (path pf), OsExit 0])) \<and>
   (fault env (trace w) Fork = None \<and> \<not> 0 < fork_result env (trace w @ [Fork]) \<and>
    fault env (trace w @ [Fork]) Setsid = None \<and>
    fault env (trace w @ [Fork, Setsid]) Fork = None \<and>
    \<not> 0 < fork_result env (trace w @ [Fork, Setsid, Fork]) \<longrightarrow>
      detach_process_context env (Some pf) w =
        Some (Returned () (w\<lparr>trace := trace w @ [Fork, Setsid, Fork]\<rparr>)))"
proof (intro conjI impI)
  assume a: "fault env (trace w) Fork = None \<and> 0 < fork_result env (trace w @ [Fork]) \<and>
    (\<forall>k<n. fs (after_polls env (path pf) k (log Fork w)) (path pf) = None) \<and>
    fs (after_polls env (path pf) n (log Fork w)) (path pf) \<noteq> None"
  then have "detach_process_context env (Some pf) w =
     Some (Exited 0 (log (OsExit 0) (log (PathExists (path pf)) (after_polls env (path pf) n (log Fork w)))))"
    by (intro detach_first_parent) simp_all
  then show "\<exists>w'. detach_process_context env (Some pf) w = Some (Exited 0 w') \<and>
            trace w' = trace w @ [Fork] @ concat (replicate n [PathExists (path pf), Sleep 100]) @
                         [PathExists (path pf), OsExit 0]"
    by (simp add: trace_after_polls)
next
  assume a: "fault env (trace w) Fork = None \<and> \<not> 0 < fork_result env (trace w @ [Fork]) \<and>
    fault env (trace w @ [Fork]) Setsid = None \<and>
    fault env (trace w @ [Fork, Setsid]) Fork = None \<and>
    0 < fork_result env (trace w @ [Fork, Setsid, Fork]) \<and>
    (\<forall>k<n. fs (after_polls env (path pf) k (log Fork (log Setsid (log Fork w)))) (path pf) = None) \<and>
    fs (after_polls env (path pf) n (log Fork (log Setsid (log Fork w)))) (path pf) \<noteq> None"
  then have "detach_process_context env (Some pf) w =
     Some (Exited 0 (log (OsExit 0) (log (PathExists (path pf))
        (after_polls env (path pf) n (log Fork (log Setsid (log Fork w)))))))"
    by (intro detach_second_parent) simp_all
  then show "\<exists>w'. detach_process_context env (Some pf) w = Some (Exited 0 w') \<and>
            trace w' = trace w @ [Fork, Setsid, Fork] @
                         concat (replicate n [PathExists (path pf), Sleep 100]) @
                         [PathExists (path pf), OsExit 0]"
    by (simp add: trace_after_polls)
next
  assume a: "fault env (trace w) Fork = None \<and> \<not> 0 < fork_result env (trace w @ [Fork]) \<and>
    fault env (trace w @ [Fork]) Setsid = None \<and>
    fault env (trace w @ [Fork, Setsid]) Fork = None \<and>
    \<not> 0 < fork_result env (trace w @ [Fork, Setsid, Fork])"
  then have "detach_process_context env (Some pf) w = Some (Returned () (log Fork (log Setsid (log Fork w))))"
    by (intro detach_children) simp_all
  then show "detach_process_context env (Some pf) w =
        Some (Returned () (w\<lparr>trace := trace w @ [Fork, Setsid, Fork]\<rparr>))"
    by (simp add: log_def)
qed

theorem detach_parents_poll_witness:
  "(\<exists>w'. detach_process_context env_first_parent (Some pidfile0) world0 = Some (Exited 0 w') \<and>
         trace w' = [Fork, PathExists ''/run/q.pid'', Sleep 100, PathExists ''/run/q.pid'', OsExit 0]) \<and>
   (\<exists>w'. detach_process_context env_second_parent (Some pidfile0) world0 = Some (Exited 0 w') \<and>
         trace w' = [Fork, Setsid, Fork, PathExists ''/run/q.pid'', Sleep 100,
                     PathExists ''/run/q.pid'', OsExit 0]) \<and>
   detach_process_context env0 (Some pidfile0) world0 =
     Some (Returned () (world0\<lparr>trace := [Fork, Setsid, Fork]\<rparr>))"
proof (intro conjI)
  have "fault env_first_parent (trace world0) Fork = None \<and>
    0 < fork_result env_first_parent (trace world0 @ [Fork]) \<and>
    (\<forall>k<1. fs (after_polls env_first_parent (path pidfile0) k (log Fork world0)) (path pidfile0) = None) \<and>
    fs (after_polls env_first_parent (path pidfile0) 1 (log Fork world0)) (path pidfile0) \<noteq> None"
    by (simp add: env_first_parent_def env0_def world0_def pidfile0_def)
  with detach_parents_poll [of env_first_parent world0 1 pidfile0]
  show "\<exists>w'. detach_process_context env_first_parent (Some pidfile0) world0 = Some (Exited 0 w') \<and>
         trace w' = [Fork, PathExists ''/run/q.pid'', Sleep 100, PathExists ''/run/q.pid'', OsExit 0]"
    by (simp add: world0_def pidfile0_def)
next
  have "fault env_second_parent (trace world0) Fork = None \<and>
    \<not> 0 < fork_result env_second_parent (trace world0 @ [Fork]) \<and>
    fault env_second_parent (trace world0 @ [Fork]) Setsid = None \<and>
    fault env_second_parent (trace world0 @ [Fork, Setsid]) Fork = None \<and>
    0 < fork_result env_second_parent (trace world0 @ [Fork, Setsid, Fork]) \<and>
    (\<forall>k<1. fs (after_polls env_second_parent (path pidfile0) k (log Fork (log Setsid (log Fork world0))))
              (path pidfile0) = None) \<and>
    fs (after_polls env_second_parent (path pidfile0) 1 (log Fork (log Setsid (log Fork world0))))
       (path pidfile0) \<noteq> None"
    by (simp add: env_second_parent_def env0_def world0_def pidfile0_def)
  with detach_parents_poll [of env_second_parent world0 1 pidfile0]
  show "\<exists>w'. detach_process_context env_second_parent (Some pidfile0) world0 = Some (Exited 0 w') \<and>
         trace w' = [Fork, Setsid, Fork, PathExists ''/run/q.pid'', Sleep 100,
                     PathExists ''/run/q.pid'', OsExit 0]"
    by (simp add: world0_def pidfile0_def)
next
  have "fault env0 (trace world0) Fork = None \<and> \<not> 0 < fork_result env0 (trace world0 @ [Fork]) \<and>
    fault env0 (trace world0 @ [Fork]) Setsid = None \<and>
    fault env0 (trace world0 @ [Fork, Setsid]) Fork = None \<and>
    \<not> 0 < fork_result env0 (trace world0 @ [Fork, Setsid, Fork])"
    by (simp add: env0_def)
  with detach_parents_poll [of env0 world0 0 pidfile0]
  show "detach_process_context env0 (Some pidfile0) world0 =
     Some (Returned () (world0\<lparr>trace := [Fork, Setsid, Fork]\<rparr>))"
    by (simp add: world0_def)
qed

text \<open>
  At this input the parent of the second fork does not leave at once: it looks for the
  path, sleeps, and looks again before it exits.
\<close>

theorem second_parent_counterexample:
  "detach_process_context env_second_parent (Some pidfile0) world0 =
     Some (Exited 0 (world0\<lparr>
       trace := [Fork, Setsid, Fork, PathExists ''/run/q.pid'', Sleep 100,
                 PathExists ''/run/q.pid'', OsExit 0],
       fs := (fs world0)(''/run/q.pid'' \<mapsto> ''4243'')\<rparr>))"
  by (simp add: detach_process_context_def fork_then_exit_parent_def os_call_def
      wait_for_path.simps sleep_def log_def env_second_parent_def env0_def world0_def pidfile0_def)

subsection \<open>Detaching without a lock file\<close>

text \<open>
  C9. With no lock file, the parent branch of a fork of the detach protocol evaluates
  \<^verbatim>\<open>pidfile.path\<close> on \<^verbatim>\<open>None\<close>: the protocol ends in \<^verbatim>\<open>AttributeError\<close>, which
  its handler for \<^verbatim>\<open>OSError\<close> lets through, and not in an exit. For a context that
  is closed, detaches and has no lock file, \<^verbatim>\<open>open\<close> ends in that exception in the
  process in which the first fork returns a child's id, once the steps before the
  detachment have succeeded; the context stays closed.
\<close>

theorem detach_without_pidfile:
  "(fault env (trace w) Fork = None \<and> 0 < fork_result env (trace w @ [Fork]) \<longrightarrow>
      detach_process_context env None w =
        Some (Raised (AttributeError ''NoneType object has no attribute path'') (log Fork w))) \<and>
   (\<not> is_open c \<and> detach_process c \<and> pidfile c = None \<and>
    open_environment env c w = Returned () w1 \<and>
    fault env (trace w1) Fork = None \<and> 0 < fork_result env (trace w1 @ [Fork]) \<longrightarrow>
      DaemonContext_open env c w =
        Some (c, Raised (AttributeError ''NoneType object has no attribute path'') (log Fork w1)))"
proof (intro conjI impI)
  assume "fault env (trace w) Fork = None \<and> 0 < fork_result env (trace w @ [Fork])"
  then show "detach_process_context env None w =
        Some (Raised (AttributeError ''NoneType object has no attribute path'') (log Fork w))"
    by (simp add: detach_process_context_def fork_parent_None)
next
  assume a: "\<not> is_open c \<and> detach_process c \<and> pidfile c = None \<and>
    open_environment env c w = Returned () w1 \<and>
    fault env (trace w1) Fork = None \<and> 0 < fork_result env (trace w1 @ [Fork])"
  then have "detach_process_context env None w1 =
        Some (Raised (AttributeError ''NoneType object has no attribute path'') (log Fork w1))"
    by (simp add: detach_process_context_def fork_parent_None)
  with a show "DaemonContext_open env c w =
        Some (c, Raised (AttributeError ''NoneType object has no attribute path'') (log Fork w1))"
    by (simp add: DaemonContext_open_def)
qed

lemma open_environment_example:
  "open_environment env_first_parent ctx_detach world0 =
     Returned () (world0\<lparr>trace := [GetrlimitCore, SetrlimitCore 0 0, Umask 0, Chdir ''/'',
                                    Setgid 1000, Setuid 1000]\<rparr>)"
  by (simp add: open_environment_def ctx_detach_def ctx0_def prevent_core_dump_def
      change_file_creation_mask_def change_working_directory_def change_process_owner_def
      except_Exception_def os_call_def log_def env_first_parent_def env0_def world0_def)

theorem detach_without_pidfile_witness:
  "DaemonContext_open env_first_parent ctx_detach world0 =
     Some (ctx_detach, Raised (AttributeError ''NoneType object has no attribute path'')
       (world0\<lparr>trace := [GetrlimitCore, SetrlimitCore 0 0, Umask 0, Chdir ''/'',
                          Setgid 1000, Setuid 1000, Fork]\<rparr>))"
proof -
  let ?w1 = "world0\<lparr>trace := [GetrlimitCore, SetrlimitCore 0 0, Umask 0, Chdir ''/'',
                                 Setgid 1000, Setuid 1000]\<rparr>"
  have "\<not> is_open ctx_detach \<and> detach_process ctx_detach \<and> pidfile ctx_detach = None \<and>
    open_environment env_first_parent ctx_detach world0 = Returned () ?w1 \<and>
    fault env_first_parent (trace ?w1) Fork = None \<and>
    0 < fork_result env_first_parent (trace ?w1 @ [Fork])"
    by (simp add: open_environment_example) (simp add: ctx_detach_def ctx0_def env_first_parent_def env0_def)
  with detach_without_pidfile [of env_first_parent world0 ctx_detach ?w1]
  show ?thesis by (simp add: log_def)
qed

subsection \<open>The calls of a step\<close>

lemma emits_Returned [simp]: "emits (Returned x w) w {[]}"
  by (simp add: emits_def)

lemma emits_Raised_nil: "S \<noteq> {} \<Longrightarrow> emits (Raised e w) w S"
  by (auto simp: emits_def)

lemma emits_os_call: "emits (os_call env ev w) w {[ev]}"
  by (cases "fault env (trace w) ev") (simp_all add: emits_def os_call_def)

lemma emits_bind:
  assumes m: "emits m w S1"
    and f: "\<And>x w1. m = Returned x w1 \<Longrightarrow> emits (f x w1) w1 S2"
    and ne: "S2 \<noteq> {}"
  shows "emits (bind m f) w (seqs S1 S2)"
proof (cases m)
  case (Returned x w1)
  with m obtain s1 where s1: "s1 \<in> S1" "trace w1 = trace w @ s1" by (auto simp: emits_def)
  note F = f[OF Returned]
  show ?thesis
  proof (cases "f x w1")
    case r: (Returned y w')
    with F obtain s2 where "s2 \<in> S2" "trace w' = trace w1 @ s2" by (auto simp: emits_def)
    with s1 have "s1 @ s2 \<in> seqs S1 S2" "trace w' = trace w @ (s1 @ s2)" by (auto simp: seqs_def)
    then show ?thesis unfolding emits_def using Returned r by (simp del: append_assoc; blast)
  next
    case r: (Raised e w')
    with F obtain s2 p where "s2 \<in> S2" "trace w' = trace w1 @ p" "prefix p s2" by (auto simp: emits_def)
    with s1 have "s1 @ s2 \<in> seqs S1 S2" "trace w' = trace w @ (s1 @ p)" "prefix (s1 @ p) (s1 @ s2)"
      by (auto simp: seqs_def)
    then show ?thesis unfolding emits_def using Returned r by (simp del: append_assoc; blast)
  next
    case (Exited st w')
    with F show ?thesis by (simp add: emits_def)
  qed
next
  case (Raised e w1)
  with m obtain s1 p where s1: "s1 \<in> S1" "trace w1 = trace w @ p" "prefix p s1" by (auto simp: emits_def)
  from ne obtain s2 where s2: "s2 \<in> S2" by blast
  from s1 s2 have "s1 @ s2 \<in> seqs S1 S2" "prefix p (s1 @ s2)" by (auto simp: seqs_def)
  with s1(2) show ?thesis unfolding emits_def using Raised by (simp; blast)
next
  case (Exited st w1)
  with m show ?thesis by (simp add: emits_def)
qed

lemma seqs_single [simp]: "seqs {a} {b} = {a @ b}"
  by (auto simp: seqs_def)

lemma emits_except_Exception: "emits r w S \<Longrightarrow> emits (except_Exception msg r) w S"
  by (cases r) (simp_all add: emits_def except_Exception_def)

lemma emits_change_working_directory:
  "emits (change_working_directory env d w) w {[Chdir d]}"
  unfolding change_working_directory_def by (intro emits_except_Exception emits_os_call)

lemma emits_change_file_creation_mask:
  "emits (change_file_creation_mask env m w) w {[Umask m]}"
  unfolding change_file_creation_mask_def by (intro emits_except_Exception emits_os_call)

lemma emits_two_calls:
  "emits (bind (os_call env a w) (\<lambda>_. os_call env b)) w {[a, b]}"
  using emits_bind[OF emits_os_call[of env a w], of "\<lambda>_. os_call env b" "{[b]}"]
  by (simp add: emits_os_call)

lemma emits_change_root_directory:
  "emits (change_root_directory env d w) w {[Chdir d, Chroot d]}"
  unfolding change_root_directory_def by (intro emits_except_Exception emits_two_calls)

lemma emits_change_process_owner:
  "emits (change_process_owner env u g w) w {[Setgid g, Setuid u]}"
  unfolding change_process_owner_def by (intro emits_except_Exception emits_two_calls)

lemma emits_prevent_core_dump:
  "emits (prevent_core_dump env w) w {[GetrlimitCore, SetrlimitCore 0 0]}"
proof (cases "fault env (trace w) GetrlimitCore")
  case None
  then have "prevent_core_dump env w = os_call env (SetrlimitCore 0 0) (log GetrlimitCore w)"
    by (simp add: prevent_core_dump_def os_call_def)
  moreover have "emits (os_call env (SetrlimitCore 0 0) (log GetrlimitCore w)) (log GetrlimitCore w) {[SetrlimitCore 0 0]}"
    by (rule emits_os_call)
  ultimately show ?thesis
    by (cases "fault env (trace (log GetrlimitCore w)) (SetrlimitCore 0 0)")
       (simp_all add: emits_def os_call_def)
next
  case (Some f)
  then show ?thesis by (cases f) (simp_all add: prevent_core_dump_def os_call_def emits_def)
qed

lemma emits_open_environment: "emits (open_environment env c w) w {environment_calls c}"
proof -
  let ?a = "case chroot_directory c of None \<Rightarrow> [] | Some d \<Rightarrow> [Chdir d, Chroot d]"
  let ?b = "if prevent_core c then [GetrlimitCore, SetrlimitCore 0 0] else []"
  have A: "emits (case chroot_directory c of None \<Rightarrow> Returned () w
                    | Some d \<Rightarrow> change_root_directory env d w) w {?a}"
    by (cases "chroot_directory c") (simp_all add: emits_change_root_directory)
  have B: "\<And>w1. emits (if prevent_core c then prevent_core_dump env w1 else Returned () w1) w1 {?b}"
    by (simp add: emits_prevent_core_dump)
  have "emits (open_environment env c w) w
          (seqs {?a} (seqs {?b} (seqs {[Umask (umask c)]} (seqs {[Chdir (working_directory c)]}
             {[Setgid (gid c), Setuid (uid c)]}))))"
    unfolding open_environment_def
    by (intro emits_bind A B emits_change_file_creation_mask emits_change_working_directory
          emits_change_process_owner) simp_all
  then show ?thesis by (simp add: environment_calls_def)
qed

lemma emits_mono: "emits r w S \<Longrightarrow> S \<subseteq> S' \<Longrightarrow> emits r w S'"
  by (cases r) (auto simp: emits_def)

lemma emits_world_of:
  "trace (world_of r) = trace w @ seg \<Longrightarrow> (\<And>st w'. r \<noteq> Exited st w') \<Longrightarrow> emits r w {seg}"
  by (cases r) (auto simp: emits_def)

lemma emits_log: "emits r (log ev w) S \<Longrightarrow> emits r w ((#) ev ` S)"
  by (cases r) (auto simp: emits_def)

lemma emits_set_signal_handlers:
  "emits (set_signal_handlers env hm w) w {map (\<lambda>(n, h). Signal n h) hm}"
proof (induction hm arbitrary: w)
  case Nil
  then show ?case by simp
next
  case (Cons a hm)
  obtain n h where a: "a = (n, h)" by (cases a)
  have "emits (bind (os_call env (Signal n h) w) (\<lambda>_. set_signal_handlers env hm)) w
          (seqs {[Signal n h]} {map (\<lambda>(n, h). Signal n h) hm})"
    by (intro emits_bind emits_os_call Cons) simp
  then show ?case by (simp add: a)
qed

lemma emits_close_if_open: "emits (close_file_descriptor_if_open env d w) w {[Close d]}"
  by (rule emits_world_of) (simp_all add: close_if_open_world)

lemma emits_close_each:
  "emits (close_each env ex ds w) w {map Close (filter (\<lambda>d. \<not> in_exclude d ex) ds)}"
proof (induction ds arbitrary: w)
  case Nil
  then show ?case by simp
next
  case (Cons d ds)
  show ?case
  proof (cases "in_exclude d ex")
    case True
    then show ?thesis using Cons[of w] by simp
  next
    case False
    have "emits (bind (close_file_descriptor_if_open env d w) (\<lambda>_. close_each env ex ds)) w
            (seqs {[Close d]} {map Close (filter (\<lambda>d. \<not> in_exclude d ex) ds)})"
      by (intro emits_bind emits_close_if_open Cons) simp
    then show ?thesis using False by simp
  qed
qed

lemma emits_close_all: "emits (close_all_open_files env ex w) w {sweep_calls env ex}"
proof (cases "fault env (trace w) GetrlimitNofile")
  case None
  let ?m = "if rlimit_nofile_hard env = RLIM_INFINITY env then MAXFD else rlimit_nofile_hard env"
  have "close_all_open_files env ex w = close_each env ex (rev (range_list ?m)) (log GetrlimitNofile w)"
    using None by (simp add: close_all_open_files_def get_maximum_Returned)
  moreover have "emits (close_each env ex (rev (range_list ?m)) (log GetrlimitNofile w)) w
     ((#) GetrlimitNofile ` {map Close (filter (\<lambda>d. \<not> in_exclude d ex) (rev (range_list ?m)))})"
    by (intro emits_log emits_close_each)
  ultimately show ?thesis by (simp add: sweep_calls_def)
next
  case (Some f)
  then show ?thesis
    by (simp add: close_all_open_files_def get_maximum_Raised emits_def sweep_calls_def)
qed

lemma emits_os_dup2: "emits (os_dup2 env src dst w) w {[Dup2 src dst]}"
proof (cases "src \<in> set (open_fds w)")
  case True
  then show ?thesis
    by (cases "fault env (trace w) (Dup2 src dst)") (simp_all add: os_dup2_def os_call_def emits_def)
next
  case False
  then show ?thesis by (simp add: os_dup2_def emits_def)
qed

lemma emits_os_open_devnull: "emits (os_open_devnull env w) w {[OpenDevnull]}"
  by (cases "fault env (trace w) OpenDevnull") (simp_all add: os_open_devnull_def os_call_def emits_def)

lemma emits_redirect_stream:
  "emits (redirect_stream env system_fd target_stream w) w (range (redirect_calls target_stream system_fd))"
proof (cases target_stream)
  case None
  have "emits (bind (os_open_devnull env w) (\<lambda>target_fd. os_dup2 env target_fd system_fd)) w
          (seqs {[OpenDevnull]} (range (\<lambda>t. [Dup2 t system_fd])))"
  proof (intro emits_bind emits_os_open_devnull)
    fix x w1
    show "emits (os_dup2 env x system_fd w1) w1 (range (\<lambda>t. [Dup2 t system_fd]))"
      by (rule emits_mono[OF emits_os_dup2]) auto
  qed auto
  moreover have "seqs {[OpenDevnull]} (range (\<lambda>t. [Dup2 t system_fd])) = range (redirect_calls None system_fd)"
    by (auto simp: seqs_def redirect_calls_def)
  ultimately show ?thesis by (simp add: None redirect_stream_def)
next
  case (Some s)
  show ?thesis
  proof (cases "get_file_descriptor s")
    case None
    then have "\<exists>e. call_fileno s w = Raised e w" by (cases s) auto
    then show ?thesis by (auto simp: Some redirect_stream_def emits_def)
  next
    case (Some n)
    then have s: "s = PyFile (Some n)" by (cases s) auto
    have "emits (os_dup2 env n system_fd w) w (range (redirect_calls (Some s) system_fd))"
      by (rule emits_mono[OF emits_os_dup2]) (auto simp: redirect_calls_def s)
    then show ?thesis by (simp add: \<open>target_stream = Some s\<close> redirect_stream_def s)
  qed
qed

lemma emits_shift: "trace w1 = trace w @ a \<Longrightarrow> emits r w1 S \<Longrightarrow> emits r w ((@) a ` S)"
  by (cases r) (auto simp: emits_def)

lemma emits_except_IOError_exit: "emits r w S \<Longrightarrow> emits (except_IOError_exit msg r) w S"
  by (cases r) (simp_all add: emits_def except_IOError_exit_def sys_exit_def)

lemma emits_fcntl_flock: "emits (fcntl_flock env f op w) w {[Flock (fo_fd f) op]}"
proof (cases "fo_closed f \<or> fo_fd f \<notin> set (open_fds w)")
  case True
  then show ?thesis by (auto simp: fcntl_flock_def emits_def)
next
  case False
  show ?thesis
  proof (cases op)
    case LOCK_EX_NB
    show ?thesis
    proof (cases "locks w (fo_path f) \<noteq> None \<and> locks w (fo_path f) \<noteq> Some (OwnFd (fo_fd f))")
      case True
      with False LOCK_EX_NB show ?thesis by (simp add: fcntl_flock_def emits_def)
    next
      case F: False
      have "fcntl_flock env f op w = bind (os_call env (Flock (fo_fd f) op) w)
                        (\<lambda>_ w'. Returned () (w'\<lparr>locks := (locks w')(fo_path f \<mapsto> OwnFd (fo_fd f))\<rparr>))"
        using False F LOCK_EX_NB by (auto simp: fcntl_flock_def)
      then show ?thesis
        by (cases "fault env (trace w) (Flock (fo_fd f) op)") (simp_all add: os_call_def emits_def)
    qed
  next
    case LOCK_UN
    with False show ?thesis
      by (cases "fault env (trace w) (Flock (fo_fd f) op)") (simp_all add: fcntl_flock_def os_call_def emits_def)
  qed
qed

lemma emits_file_seek: "emits (file_seek env f n w) w {[FileSeek (fo_fd f) n]}"
  by (cases "fault env (trace w) (FileSeek (fo_fd f) n)")
     (simp_all add: file_seek_def os_call_def emits_def)

lemma emits_file_truncate: "emits (file_truncate env f w) w {[FileTruncate (fo_fd f)]}"
  by (cases "fault env (trace w) (FileTruncate (fo_fd f))")
     (simp_all add: file_truncate_def os_call_def emits_def)

lemma emits_file_write: "emits (file_write env f s w) w {[FileWrite (fo_fd f) s]}"
  by (cases "fault env (trace w) (FileWrite (fo_fd f) s)")
     (simp_all add: file_write_def os_call_def emits_def)

lemma emits_file_flush: "emits (file_flush env f w) w {[FileFlush (fo_fd f)]}"
  by (cases "fault env (trace w) (FileFlush (fo_fd f))")
     (simp_all add: file_flush_def os_call_def emits_def)

lemma emits_builtin_open: "emits (builtin_open env p w) w {[OpenFile p]}"
  by (cases "fault env (trace w) (OpenFile p)")
     (simp_all add: builtin_open_def os_call_def emits_def)

lemma emits_PidFile_enter:
  "emits (snd (PidFile_enter env pf w)) w (range (pidfile_calls env (Some pf)))"
proof (cases "builtin_open env (path pf) w")
  case (Returned f w1)
  let ?n = "fo_fd f"
  let ?s = "str_int (getpid env)"
  from emits_builtin_open[of env "path pf" w] Returned
  have t: "trace w1 = trace w @ [OpenFile (path pf)]" by (simp add: emits_def)
  have W: "\<And>w4. emits (file_write env f ?s (log Getpid w4)) w4 {[Getpid, FileWrite ?n ?s]}"
    using emits_log[OF emits_file_write] by simp
  have "emits (bind (except_IOError_exit (enter_err_msg pf) (fcntl_flock env f LOCK_EX_NB w1))
             (\<lambda>_ w2. bind (file_seek env f 0 w2)
               (\<lambda>_ w3. bind (file_truncate env f w3)
                 (\<lambda>_ w4. bind (file_write env f ?s (log Getpid w4))
                   (\<lambda>_ w5. bind (file_flush env f w5)
                     (\<lambda>_ w6. bind (file_seek env f 0 w6)
                       (\<lambda>_. Returned f))))))) w1
          (seqs {[Flock ?n LOCK_EX_NB]} (seqs {[FileSeek ?n 0]} (seqs {[FileTruncate ?n]}
             (seqs {[Getpid, FileWrite ?n ?s]} (seqs {[FileFlush ?n]} (seqs {[FileSeek ?n 0]} {[]}))))))"
    by (intro emits_bind emits_except_IOError_exit emits_fcntl_flock emits_file_seek
          emits_file_truncate W emits_file_flush emits_Returned) simp_all
  then have "emits (snd (PidFile_enter env pf w)) w1
       {[Flock ?n LOCK_EX_NB, FileSeek ?n 0, FileTruncate ?n, Getpid, FileWrite ?n ?s,
         FileFlush ?n, FileSeek ?n 0]}"
    by (simp add: PidFile_enter_def Returned)
  from emits_shift[OF t this] have "emits (snd (PidFile_enter env pf w)) w {pidfile_calls env (Some pf) ?n}"
    by (simp add: pidfile_calls_def)
  then show ?thesis by (rule emits_mono) auto
next
  case (Raised e w1)
  from emits_builtin_open[of env "path pf" w] Raised
  have "\<exists>p. trace w1 = trace w @ p \<and> prefix p [OpenFile (path pf)]" by (simp add: emits_def)
  then obtain p where p: "trace w1 = trace w @ p" "prefix p [OpenFile (path pf)]" by blast
  have "prefix [OpenFile (path pf)] (pidfile_calls env (Some pf) 0)" by (simp add: pidfile_calls_def)
  with p(2) have "prefix p (pidfile_calls env (Some pf) 0)" by (rule prefix_order.trans)
  with p(1) show ?thesis by (auto simp: PidFile_enter_def Raised emits_def)
next
  case (Exited st w1)
  with emits_builtin_open[of env "path pf" w] show ?thesis by (simp add: emits_def)
qed

lemma emits_open_descriptors:
  "emits (open_descriptors env c ex w) w
     (seqs {sweep_calls env ex} (seqs (range (redirect_calls (stdin c) 0))
        (seqs (range (redirect_calls (stdout c) 1)) (range (redirect_calls (stderr c) 2)))))"
  unfolding open_descriptors_def
  by (intro emits_bind emits_close_all emits_redirect_stream) (auto simp: seqs_def)

subsection \<open>The calls of \<^verbatim>\<open>open\<close>\<close>

lemma get_exclude_fields [simp]:
  "stdin (fst (get_exclude_file_descriptors c)) = stdin c"
  "stdout (fst (get_exclude_file_descriptors c)) = stdout c"
  "stderr (fst (get_exclude_file_descriptors c)) = stderr c"
  "pidfile (fst (get_exclude_file_descriptors c)) = pidfile c"
  "is_open (fst (get_exclude_file_descriptors c)) = is_open c"
  by (cases "files_preserve c"; simp add: get_exclude_file_descriptors_def)+

lemma open_pidfile_Returned:
  assumes "open_pidfile env c w = (c', Returned u w')"
  shows "\<exists>n. trace w' = trace w @ pidfile_calls env (pidfile c) n @ [AtexitRegister Close_hook]"
    and "is_open c'"
proof -
  show "\<exists>n. trace w' = trace w @ pidfile_calls env (pidfile c) n @ [AtexitRegister Close_hook]"
  proof (cases "pidfile c")
    case None
    with assms show ?thesis
      by (auto simp: open_pidfile_def register_atexit_function_def pidfile_calls_def)
  next
    case (Some pf)
    note E = emits_PidFile_enter[of env pf w]
    show ?thesis
    proof (cases "snd (PidFile_enter env pf w)")
      case (Returned f w1)
      with E obtain n where "trace w1 = trace w @ pidfile_calls env (Some pf) n"
        by (auto simp: emits_def)
      moreover from assms Some Returned have "w' = log (AtexitRegister Close_hook) (w1\<lparr>atexit := atexit w1 @ [Close_hook]\<rparr>)"
        by (simp add: open_pidfile_def register_atexit_function_def)
      ultimately show ?thesis using Some by auto
    next
      case (Raised e w1)
      with assms Some show ?thesis by (simp add: open_pidfile_def)
    next
      case (Exited st w1)
      with assms Some show ?thesis by (simp add: open_pidfile_def)
    qed
  qed
  show "is_open c'"
  proof (cases "pidfile c")
    case None
    with assms show ?thesis by (auto simp: open_pidfile_def)
  next
    case (Some pf)
    with assms show ?thesis
      by (cases "snd (PidFile_enter env pf w)") (auto simp: open_pidfile_def)
  qed
qed

lemma open_pidfile_Raised:
  assumes "open_pidfile env c w = (c', Raised e w')"
  shows "\<exists>n p. trace w' = trace w @ p \<and> prefix p (pidfile_calls env (pidfile c) n)"
    and "is_open c' = is_open c"
proof -
  from assms obtain pf where Some: "pidfile c = Some pf"
    by (cases "pidfile c") (auto simp: open_pidfile_def register_atexit_function_def)
  note E = emits_PidFile_enter[of env pf w]
  from assms Some have r: "snd (PidFile_enter env pf w) = Raised e w'"
    and c': "c' = c\<lparr>pidfile := Some (fst (PidFile_enter env pf w))\<rparr>"
    by (cases "snd (PidFile_enter env pf w)"; simp add: open_pidfile_def register_atexit_function_def)+
  from E r show "\<exists>n p. trace w' = trace w @ p \<and> prefix p (pidfile_calls env (pidfile c) n)"
    by (auto simp: emits_def Some)
  from c' show "is_open c' = is_open c" by simp
qed

lemma open_pidfile_not_Exited: "open_pidfile env c w \<noteq> (c', Exited st w')"
proof (cases "pidfile c")
  case None
  then show ?thesis by (simp add: open_pidfile_def register_atexit_function_def)
next
  case (Some pf)
  from emits_PidFile_enter[of env pf w] show ?thesis
    by (cases "snd (PidFile_enter env pf w)")
       (simp_all add: open_pidfile_def Some register_atexit_function_def emits_def)
qed

lemma descriptor_seqs:
  "seg \<in> seqs {a} (seqs (range f0) (seqs (range f1) (range f2))) \<Longrightarrow>
   \<exists>t0 t1 t2. seg = a @ f0 t0 @ f1 t1 @ f2 t2"
  by (auto simp: seqs_def)

lemma prefix_append_left: "prefix p b \<Longrightarrow> prefix (a @ p) (a @ b @ c)"
  by (auto simp: prefix_def)

lemma prefix_append_more: "prefix p a \<Longrightarrow> prefix p (a @ b)"
  by (auto simp: prefix_def)

lemma open_daemon_Returned:
  assumes "open_daemon env c w = (c', Returned u w')"
  shows "\<exists>t0 t1 t2 n. trace w' = trace w @ daemon_calls env c t0 t1 t2 n @ [AtexitRegister Close_hook]"
    and "is_open c'"
proof -
  let ?c1 = "fst (get_exclude_file_descriptors c)"
  let ?ex = "snd (get_exclude_file_descriptors c)"
  from assms obtain hm where hm: "make_signal_handler_map c = Inr hm"
    by (cases "make_signal_handler_map c") (simp_all add: open_daemon_def)
  from assms hm obtain u1 w1 where s1: "set_signal_handlers env hm w = Returned u1 w1"
    by (cases "set_signal_handlers env hm w") (simp_all add: open_daemon_def)
  from assms hm s1 obtain u2 w2 where s2: "open_descriptors env ?c1 ?ex w1 = Returned u2 w2"
    by (cases "open_descriptors env ?c1 ?ex w1") (simp_all add: open_daemon_def)
  from assms hm s1 s2 have s3: "open_pidfile env ?c1 w2 = (c', Returned u w')"
    by (simp add: open_daemon_def)
  from emits_set_signal_handlers[of env hm w] s1 hm
  have t1: "trace w1 = trace w @ signal_calls c" by (simp add: emits_def signal_calls_def)
  from emits_open_descriptors[of env ?c1 ?ex w1] s2
  obtain seg where "seg \<in> seqs {sweep_calls env ?ex} (seqs (range (redirect_calls (stdin c) 0))
        (seqs (range (redirect_calls (stdout c) 1)) (range (redirect_calls (stderr c) 2))))"
    and t2: "trace w2 = trace w1 @ seg"
    by (auto simp: emits_def)
  from descriptor_seqs[OF this(1)] obtain t0 t1' t2' where
    seg: "seg = sweep_calls env ?ex @ redirect_calls (stdin c) 0 t0 @ redirect_calls (stdout c) 1 t1' @
            redirect_calls (stderr c) 2 t2'" by blast
  from open_pidfile_Returned(1)[OF s3] obtain n where
    t3: "trace w' = trace w2 @ pidfile_calls env (pidfile c) n @ [AtexitRegister Close_hook]"
    by auto
  have "trace w' = trace w @ daemon_calls env c t0 t1' t2' n @ [AtexitRegister Close_hook]"
    by (simp add: t3 t2 t1 seg daemon_calls_def)
  then show "\<exists>t0 t1 t2 n. trace w' = trace w @ daemon_calls env c t0 t1 t2 n @ [AtexitRegister Close_hook]"
    by blast
  from open_pidfile_Returned(2)[OF s3] show "is_open c'" .
qed

lemma open_daemon_Raised:
  assumes "open_daemon env c w = (c', Raised e w')"
  shows "\<exists>t0 t1 t2 n p. trace w' = trace w @ p \<and> prefix p (daemon_calls env c t0 t1 t2 n)"
    and "is_open c' = is_open c"
proof -
  let ?c1 = "fst (get_exclude_file_descriptors c)"
  let ?ex = "snd (get_exclude_file_descriptors c)"
  let ?goal = "\<exists>t0 t1 t2 n p. trace w' = trace w @ p \<and> prefix p (daemon_calls env c t0 t1 t2 n)"
  have "?goal \<and> is_open c' = is_open c"
  proof (cases "make_signal_handler_map c")
    case (Inl e0)
    with assms have "w' = w" "c' = c" by (simp_all add: open_daemon_def)
    then show ?thesis by auto
  next
    case (Inr hm)
    note S = emits_set_signal_handlers[of env hm w]
    show ?thesis
    proof (cases "set_signal_handlers env hm w")
      case (Raised e1 w1)
      with assms Inr have eq: "w' = w1" "c' = c" by (simp_all add: open_daemon_def)
      from S Raised Inr obtain p where "trace w1 = trace w @ p" "prefix p (signal_calls c)"
        by (auto simp: emits_def signal_calls_def)
      then have "trace w' = trace w @ p \<and> prefix p (daemon_calls env c 0 0 0 0)"
        using eq by (simp add: daemon_calls_def prefix_append_more)
      then show ?thesis using eq by blast
    next
      case (Exited st w1)
      with S show ?thesis by (simp add: emits_def)
    next
      case (Returned u1 w1)
      with S Inr have t1: "trace w1 = trace w @ signal_calls c"
        by (simp add: emits_def signal_calls_def)
      note D = emits_open_descriptors[of env ?c1 ?ex w1]
      show ?thesis
      proof (cases "open_descriptors env ?c1 ?ex w1")
        case r: (Raised e2 w2)
        with assms Inr Returned have eq: "w' = w2" "c' = ?c1" by (simp_all add: open_daemon_def)
        from D r obtain seg p where
          "seg \<in> seqs {sweep_calls env ?ex} (seqs (range (redirect_calls (stdin c) 0))
             (seqs (range (redirect_calls (stdout c) 1)) (range (redirect_calls (stderr c) 2))))"
          and p: "trace w2 = trace w1 @ p" "prefix p seg"
          by (auto simp: emits_def)
        from descriptor_seqs[OF this(1)] obtain t0 t1' t2' where
          seg: "seg = sweep_calls env ?ex @ redirect_calls (stdin c) 0 t0 @
                  redirect_calls (stdout c) 1 t1' @ redirect_calls (stderr c) 2 t2'" by blast
        have "prefix (signal_calls c @ p) (daemon_calls env c t0 t1' t2' 0)"
          unfolding daemon_calls_def using p(2) seg
          by (metis append.assoc prefix_append_left)
        moreover have "trace w' = trace w @ (signal_calls c @ p)" using eq p(1) t1 by simp
        ultimately show ?thesis using eq by (simp only: get_exclude_fields) blast
      next
        case (Exited st w2)
        with D show ?thesis by (simp add: emits_def)
      next
        case r: (Returned u2 w2)
        with assms Inr Returned have s3: "open_pidfile env ?c1 w2 = (c', Raised e w')"
          by (simp add: open_daemon_def)
        from D r obtain seg where
          "seg \<in> seqs {sweep_calls env ?ex} (seqs (range (redirect_calls (stdin c) 0))
             (seqs (range (redirect_calls (stdout c) 1)) (range (redirect_calls (stderr c) 2))))"
          and t2: "trace w2 = trace w1 @ seg"
          by (auto simp: emits_def)
        from descriptor_seqs[OF this(1)] obtain t0 t1' t2' where
          seg: "seg = sweep_calls env ?ex @ redirect_calls (stdin c) 0 t0 @
                  redirect_calls (stdout c) 1 t1' @ redirect_calls (stderr c) 2 t2'" by blast
        from open_pidfile_Raised[OF s3] obtain n p where
          p: "trace w' = trace w2 @ p" "prefix p (pidfile_calls env (pidfile c) n)"
          and o: "is_open c' = is_open c" by auto
        have "prefix ((signal_calls c @ seg) @ p) ((signal_calls c @ seg) @ pidfile_calls env (pidfile c) n @ [])"
          using p(2) by (rule prefix_append_left)
        then have "prefix (signal_calls c @ seg @ p) (daemon_calls env c t0 t1' t2' n)"
          by (simp add: daemon_calls_def seg)
        moreover have "trace w' = trace w @ (signal_calls c @ seg @ p)" using p(1) t2 t1 by simp
        ultimately show ?thesis using o by blast
      qed
    qed
  qed
  then show ?goal and "is_open c' = is_open c" by blast+
qed

lemma open_daemon_not_Exited: "open_daemon env c w \<noteq> (c', Exited st w')"
proof (cases "make_signal_handler_map c")
  case (Inl e0)
  then show ?thesis by (simp add: open_daemon_def)
next
  case (Inr hm)
  note S = emits_set_signal_handlers[of env hm w]
  show ?thesis
  proof (cases "set_signal_handlers env hm w")
    case (Returned u1 w1)
    note D = emits_open_descriptors[of env "fst (get_exclude_file_descriptors c)"
                "snd (get_exclude_file_descriptors c)" w1]
    show ?thesis
    proof (cases "open_descriptors env (fst (get_exclude_file_descriptors c))
                    (snd (get_exclude_file_descriptors c)) w1")
      case r: (Returned u2 w2)
      with Inr Returned show ?thesis by (simp add: open_daemon_def open_pidfile_not_Exited)
    next
      case r: (Raised e2 w2)
      with Inr Returned show ?thesis by (simp add: open_daemon_def)
    next
      case r: (Exited st2 w2)
      with D show ?thesis by (simp add: emits_def)
    qed
  next
    case (Raised e1 w1)
    with Inr show ?thesis by (simp add: open_daemon_def)
  next
    case (Exited st1 w1)
    with S show ?thesis by (simp add: emits_def)
  qed
qed

lemma fork_then_exit_parent_world:
  assumes "fork_then_exit_parent env pfo msg w = Some r" "\<And>st w'. r \<noteq> Exited st w'"
  shows "world_of r = log Fork w"
proof (cases "fault env (trace w) Fork")
  case (Some f)
  with assms(1) show ?thesis
    by (cases f) (auto simp: fork_then_exit_parent_def os_call_def)
next
  case None
  show ?thesis
  proof (cases "0 < fork_result env (trace w @ [Fork])")
    case False
    with None assms(1) show ?thesis by (auto simp: fork_then_exit_parent_def os_call_def)
  next
    case True
    show ?thesis
    proof (cases pfo)
      case N: None
      with None True assms(1) show ?thesis by (auto simp: fork_then_exit_parent_def os_call_def)
    next
      case (Some pf)
      with None True assms show ?thesis
        by (cases "wait_for_path env (path pf) (log Fork w)")
           (auto simp: fork_then_exit_parent_def os_call_def)
    qed
  qed
qed

lemma detach_Returned:
  assumes "detach_process_context env pfo w = Some (Returned u w')"
  shows "trace w' = trace w @ [Fork, Setsid, Fork]"
proof -
  from assms obtain u1 w1 where 1: "fork_then_exit_parent env pfo ''Failed first fork'' w = Some (Returned u1 w1)"
    by (auto simp: detach_process_context_def split: option.splits outcome.splits)
  with assms obtain u2 w2 where 2: "os_call env Setsid w1 = Returned u2 w2"
    and 3: "fork_then_exit_parent env pfo ''Failed second fork'' w2 = Some (Returned u w')"
    by (cases "os_call env Setsid w1") (auto simp: detach_process_context_def)
  from fork_then_exit_parent_world[OF 1] have "w1 = log Fork w" by simp
  moreover from os_call_Returned[OF 2] have "w2 = log Setsid w1" by simp
  moreover from fork_then_exit_parent_world[OF 3] have "w' = log Fork w2" by simp
  ultimately show ?thesis by simp
qed

lemma detach_Raised:
  assumes "detach_process_context env pfo w = Some (Raised e w')"
  shows "\<exists>p. trace w' = trace w @ p \<and> prefix p [Fork, Setsid, Fork]"
proof (cases "fork_then_exit_parent env pfo ''Failed first fork'' w")
  case None
  with assms show ?thesis by (simp add: detach_process_context_def)
next
  case (Some r)
  show ?thesis
  proof (cases r)
    case (Raised e1 w1)
    with Some assms have "w' = w1" by (simp add: detach_process_context_def)
    moreover from fork_then_exit_parent_world[OF Some] Raised have "w1 = log Fork w" by simp
    ultimately have "trace w' = trace w @ [Fork]" by simp
    then show ?thesis by (intro exI[of _ "[Fork]"]) simp
  next
    case (Exited st w1)
    with Some assms show ?thesis by (simp add: detach_process_context_def)
  next
    case (Returned u1 w1)
    from fork_then_exit_parent_world[OF Some] Returned have w1: "w1 = log Fork w" by simp
    show ?thesis
    proof (cases "os_call env Setsid w1")
      case r2: (Raised e2 w2)
      with Some Returned assms have "w' = w2" by (simp add: detach_process_context_def)
      moreover from os_call_Raised[OF r2] have "w2 = log Setsid w1" by simp
      ultimately have "trace w' = trace w @ [Fork, Setsid]" using w1 by simp
      then show ?thesis by (intro exI[of _ "[Fork, Setsid]"]) simp
    next
      case r2: (Exited st w2)
      then show ?thesis by simp
    next
      case r2: (Returned u2 w2)
      with Some Returned assms have 3: "fork_then_exit_parent env pfo ''Failed second fork'' w2 = Some (Raised e w')"
        by (simp add: detach_process_context_def)
      from os_call_Returned[OF r2] have "w2 = log Setsid w1" by simp
      moreover from fork_then_exit_parent_world[OF 3] have "w' = log Fork w2" by simp
      ultimately have "trace w' = trace w @ [Fork, Setsid, Fork]" using w1 by simp
      then show ?thesis by (intro exI[of _ "[Fork, Setsid, Fork]"]) simp
    qed
  qed
qed

lemma strict_prefix_snoc: "prefix p xs \<Longrightarrow> strict_prefix p (xs @ [a])"
  by (auto simp: strict_prefix_def prefix_def)

lemma open_Returned:
  assumes "\<not> is_open c" "DaemonContext_open env c w = Some (c', Returned u w')"
  shows "\<exists>t0 t1 t2 n. trace w' = trace w @ open_calls env c t0 t1 t2 n" and "is_open c'"
proof -
  from assms obtain u1 w1 where 1: "open_environment env c w = Returned u1 w1"
    by (cases "open_environment env c w") (simp_all add: DaemonContext_open_def)
  let ?d = "if detach_process c then detach_process_context env (pidfile c) w1 else Some (Returned () w1)"
  from assms 1 obtain u2 w2 where 2: "?d = Some (Returned u2 w2)"
    and 3: "open_daemon env c w2 = (c', Returned u w')"
    by (auto simp: DaemonContext_open_def split: option.splits outcome.splits)
  from emits_open_environment[of env c w] 1 have t1: "trace w1 = trace w @ environment_calls c"
    by (simp add: emits_def)
  have t2: "trace w2 = trace w1 @ (if detach_process c then [Fork, Setsid, Fork] else [])"
  proof (cases "detach_process c")
    case True
    with 2 detach_Returned show ?thesis by simp
  next
    case False
    with 2 show ?thesis by simp
  qed
  from open_daemon_Returned[OF 3] obtain t0 t1' t2' n where
    t3: "trace w' = trace w2 @ daemon_calls env c t0 t1' t2' n @ [AtexitRegister Close_hook]"
    and o: "is_open c'" by blast
  have "trace w' = trace w @ open_calls env c t0 t1' t2' n"
    by (simp add: t3 t2 t1 open_calls_def)
  then show "\<exists>t0 t1 t2 n. trace w' = trace w @ open_calls env c t0 t1 t2 n" by blast
  from o show "is_open c'" .
qed

lemma open_Raised:
  assumes "\<not> is_open c" "DaemonContext_open env c w = Some (c', Raised e w')"
  shows "\<exists>t0 t1 t2 n p. trace w' = trace w @ p \<and> strict_prefix p (open_calls env c t0 t1 t2 n)"
    and "\<not> is_open c'"
proof -
  let ?goal = "\<exists>t0 t1 t2 n p. trace w' = trace w @ p \<and> strict_prefix p (open_calls env c t0 t1 t2 n)"
  let ?dc = "if detach_process c then [Fork, Setsid, Fork] else []"
  note E = emits_open_environment[of env c w]
  have "?goal \<and> \<not> is_open c'"
  proof (cases "open_environment env c w")
    case (Raised e1 w1)
    with assms have eq: "w' = w1" "c' = c" by (simp_all add: DaemonContext_open_def)
    from E Raised obtain p where p: "trace w1 = trace w @ p" "prefix p (environment_calls c)"
      by (auto simp: emits_def)
    have "prefix p (environment_calls c @ ?dc @ daemon_calls env c 0 0 0 0)"
      using p(2) by (rule prefix_append_more)
    then have "strict_prefix p (open_calls env c 0 0 0 0)"
      unfolding open_calls_def using strict_prefix_snoc[of p "environment_calls c @ ?dc @ daemon_calls env c 0 0 0 0"]
      by simp
    with p(1) eq assms(1) show ?thesis by blast
  next
    case (Exited st w1)
    with E show ?thesis by (simp add: emits_def)
  next
    case (Returned u1 w1)
    with E have t1: "trace w1 = trace w @ environment_calls c" by (simp add: emits_def)
    let ?d = "if detach_process c then detach_process_context env (pidfile c) w1 else Some (Returned () w1)"
    show ?thesis
    proof (cases ?d)
      case None
      with assms Returned show ?thesis by (simp add: DaemonContext_open_def)
    next
      case (Some r)
      show ?thesis
      proof (cases r)
        case r: (Raised e2 w2)
        with assms Returned Some have eq: "w' = w2" "c' = c" by (simp_all add: DaemonContext_open_def)
        from Some r have "detach_process c" by (cases "detach_process c") simp_all
        with Some r have "detach_process_context env (pidfile c) w1 = Some (Raised e2 w2)" by simp
        from detach_Raised[OF this] obtain p where p: "trace w2 = trace w1 @ p" "prefix p [Fork, Setsid, Fork]"
          by blast
        have "prefix (environment_calls c @ p) (environment_calls c @ [Fork, Setsid, Fork] @ daemon_calls env c 0 0 0 0)"
          using p(2) by (rule prefix_append_left)
        then have "prefix (environment_calls c @ p) (environment_calls c @ ?dc @ daemon_calls env c 0 0 0 0)"
          using \<open>detach_process c\<close> by simp
        then have "strict_prefix (environment_calls c @ p) (open_calls env c 0 0 0 0)"
          unfolding open_calls_def
          using strict_prefix_snoc[of "environment_calls c @ p" "environment_calls c @ ?dc @ daemon_calls env c 0 0 0 0"]
          by simp
        moreover have "trace w' = trace w @ (environment_calls c @ p)" using eq p(1) t1 by simp
        ultimately show ?thesis using eq assms(1) by blast
      next
        case r: (Exited st w2)
        with assms Returned Some show ?thesis by (simp add: DaemonContext_open_def)
      next
        case r: (Returned u2 w2)
        with assms Returned Some have 3: "open_daemon env c w2 = (c', Raised e w')"
          by (simp add: DaemonContext_open_def)
        have t2: "trace w2 = trace w1 @ ?dc"
        proof (cases "detach_process c")
          case True
          with Some r detach_Returned show ?thesis by simp
        next
          case False
          with Some r show ?thesis by simp
        qed
        from open_daemon_Raised[OF 3] obtain t0 t1' t2' n p where
          p: "trace w' = trace w2 @ p" "prefix p (daemon_calls env c t0 t1' t2' n)"
          and o: "is_open c' = is_open c" by blast
        have "prefix ((environment_calls c @ ?dc) @ p) ((environment_calls c @ ?dc) @ daemon_calls env c t0 t1' t2' n @ [])"
          using p(2) by (rule prefix_append_left)
        then have "prefix (environment_calls c @ ?dc @ p) (environment_calls c @ ?dc @ daemon_calls env c t0 t1' t2' n)"
          by simp
        then have "strict_prefix (environment_calls c @ ?dc @ p) (open_calls env c t0 t1' t2' n)"
          unfolding open_calls_def
          using strict_prefix_snoc[of "environment_calls c @ ?dc @ p" "environment_calls c @ ?dc @ daemon_calls env c t0 t1' t2' n"]
          by simp
        moreover have "trace w' = trace w @ (environment_calls c @ ?dc @ p)" using p(1) t2 t1 by simp
        ultimately show ?thesis using o assms(1) by blast
      qed
    qed
  qed
  then show ?goal and "\<not> is_open c'" by blast+
qed



lemma no_failure_last: "no_failure env F t0 s \<Longrightarrow> failure_last env F t0 s"
  by (induction s arbitrary: t0) auto





lemma sound_Raised [simp]: "sound env F w (Raised e w)"
  by (simp add: sound_def)












lemma keeps_fds_simps [simp]:
  "keeps_fds w (Returned x w' :: 'a outcome) = (open_fds w' = open_fds w)"
  "keeps_fds w (Raised e w' :: 'a outcome) = (open_fds w' = open_fds w)"
  "keeps_fds w (Exited st w' :: 'a outcome) = (open_fds w' = open_fds w)"
  by (simp_all add: keeps_fds_def)













lemma sound_same_trace:
  "trace w' = trace w \<Longrightarrow> sound env F w (Returned x w')"
  "trace w' = trace w \<Longrightarrow> sound env F w (Raised e w')"
  "trace w' = trace w @ [ev] \<Longrightarrow> sound env F w (Raised e w')"
  by (simp_all add: sound_def)



























lemmas open_eval_defs =
  DaemonContext_open_def open_environment_def open_daemon_def open_descriptors_def
  open_pidfile_def change_root_directory_def prevent_core_dump_def
  change_file_creation_mask_def change_working_directory_def change_process_owner_def
  except_Exception_def detach_process_context_def fork_then_exit_parent_def
  make_signal_handler_map_def make_signal_handler_def context_attributes_def dict_of_def
  get_exclude_file_descriptors_def close_all_open_files_def get_maximum_file_descriptors_def
  range_list_def close_file_descriptor_if_open_def redirect_stream_def os_open_devnull_def
  os_dup2_def register_atexit_function_def





subsection \<open>The cause of the module's exceptions\<close>

lemma builtin_chained: "builtin_only r \<Longrightarrow> chained_only env r"
  by (cases r) (simp_all add: builtin_only_def chained_only_def chained_def)

lemma not_daemon_fault [simp]: "\<not> isinstance_DaemonError (exn_of_fault f)"
  by (cases f) simp_all

lemma builtin_os_call: "builtin_only (os_call env ev w)"
  by (cases "fault env (trace w) ev") (simp_all add: os_call_def builtin_only_def)

lemma builtin_bind:
  "builtin_only m \<Longrightarrow> (\<And>x w1. builtin_only (f x w1)) \<Longrightarrow> builtin_only (bind m f)"
  by (cases m) (simp_all add: builtin_only_def)

lemma chained_bind:
  "chained_only env m \<Longrightarrow> (\<And>x w1. chained_only env (f x w1)) \<Longrightarrow> chained_only env (bind m f)"
  by (cases m) (simp_all add: chained_only_def)

lemma builtin_Returned [simp]: "builtin_only (Returned x w)"
  by (simp add: builtin_only_def)

lemma outcome_only_simps [simp]:
  "chained_only env (Raised e w :: 'a outcome) = chained env w e"
  "chained_only env (Exited st w :: 'a outcome)"
  "builtin_only (Raised e w :: 'a outcome) = (\<not> isinstance_DaemonError e)"
  "builtin_only (Exited st w :: 'a outcome)"
  by (simp_all add: chained_only_def builtin_only_def)

lemma chained_Returned [simp]: "chained_only env (Returned x w)"
  by (simp add: chained_only_def)

lemma chained_new_env:
  "trace w' = tr @ [ev] \<Longrightarrow> fault env tr ev = Some f \<Longrightarrow>
   chained env w' (new_DaemonOSEnvironmentError (Some (exn_of_fault f)) m)"
  unfolding chained_def new_DaemonOSEnvironmentError_def by auto

lemma chained_new_detach:
  "trace w' = tr @ [ev] \<Longrightarrow> fault env tr ev = Some f \<Longrightarrow>
   chained env w' (new_DaemonProcessDetachError (Some (exn_of_fault f)) m)"
  unfolding chained_def new_DaemonProcessDetachError_def by auto

lemma chained_not_daemon: "\<not> isinstance_DaemonError e \<Longrightarrow> chained env w' e"
  by (simp add: chained_def)

lemma faulting_os_call: "faulting env (os_call env ev w)"
  by (cases "fault env (trace w) ev") (simp_all add: os_call_def faulting_def)

lemma faulting_bind:
  "faulting env m \<Longrightarrow> (\<And>x w1. faulting env (f x w1)) \<Longrightarrow> faulting env (bind m f)"
  by (cases m) (simp_all add: faulting_def)

lemma chained_except_Exception: "faulting env r \<Longrightarrow> chained_only env (except_Exception msg r)"
proof (cases r)
  case (Raised e w')
  assume "faulting env r"
  with Raised obtain tr ev f where
    f: "trace w' = tr @ [ev]" "fault env tr ev = Some f" "e = exn_of_fault f"
    by (auto simp: faulting_def)
  have "isinstance_Exception (exn_of_fault f)" by (cases f) simp_all
  with chained_new_env[OF f(1,2)] f(3) Raised show ?thesis
    by (simp add: except_Exception_def chained_only_def)
qed (simp_all add: except_Exception_def chained_only_def)

lemma chained_change_working_directory: "chained_only env (change_working_directory env d w)"
  unfolding change_working_directory_def by (intro chained_except_Exception faulting_os_call)

lemma chained_change_file_creation_mask: "chained_only env (change_file_creation_mask env m w)"
  unfolding change_file_creation_mask_def by (intro chained_except_Exception faulting_os_call)

lemma chained_change_root_directory: "chained_only env (change_root_directory env d w)"
  unfolding change_root_directory_def
  by (intro chained_except_Exception faulting_bind faulting_os_call)

lemma chained_change_process_owner: "chained_only env (change_process_owner env u g w)"
  unfolding change_process_owner_def
  by (intro chained_except_Exception faulting_bind faulting_os_call)

lemma chained_prevent_core_dump: "chained_only env (prevent_core_dump env w)"
proof (cases "os_call env GetrlimitCore w")
  case (Returned u w1)
  then show ?thesis
    using builtin_chained[OF builtin_os_call[of env "SetrlimitCore 0 0" w1]]
    by (simp add: prevent_core_dump_def)
next
  case (Raised e w1)
  from os_call_Raised[OF this] obtain f where
    f: "w1 = log GetrlimitCore w" "fault env (trace w) GetrlimitCore = Some f" "e = exn_of_fault f"
    by blast
  have "trace w1 = trace w @ [GetrlimitCore]" using f(1) by simp
  from chained_new_env[OF this f(2)] f(3) Raised show ?thesis
    by (simp add: prevent_core_dump_def chained_only_def chained_not_daemon)
next
  case (Exited st w1)
  then show ?thesis by simp
qed

lemma chained_open_environment: "chained_only env (open_environment env c w)"
proof -
  have A: "chained_only env (case chroot_directory c of None \<Rightarrow> Returned () w
                          | Some d \<Rightarrow> change_root_directory env d w)"
    by (cases "chroot_directory c") (simp_all add: chained_change_root_directory)
  have B: "\<And>w1. chained_only env (if prevent_core c then prevent_core_dump env w1 else Returned () w1)"
    by (simp add: chained_prevent_core_dump)
  show ?thesis
    unfolding open_environment_def
    by (intro chained_bind A B chained_change_file_creation_mask chained_change_working_directory
          chained_change_process_owner)
qed

lemma chained_fork:
  assumes "fork_then_exit_parent env pfo msg w = Some r"
  shows "chained_only env r"
proof (cases "fault env (trace w) Fork")
  case (Some f)
  have "trace (log Fork w) = trace w @ [Fork]" by simp
  from chained_new_detach[OF this Some] Some assms show ?thesis
    by (cases f) (auto simp: fork_then_exit_parent_def os_call_def chained_only_def
        chained_not_daemon)
next
  case None
  show ?thesis
  proof (cases "0 < fork_result env (trace w @ [Fork])")
    case False
    with None assms show ?thesis by (auto simp: fork_then_exit_parent_def os_call_def)
  next
    case True
    show ?thesis
    proof (cases pfo)
      case N: None
      with None True assms show ?thesis
        by (auto simp: fork_then_exit_parent_def os_call_def chained_only_def chained_not_daemon)
    next
      case (Some pf)
      with None True assms show ?thesis
        by (cases "wait_for_path env (path pf) (log Fork w)")
           (auto simp: fork_then_exit_parent_def os_call_def chained_only_def)
    qed
  qed
qed

lemma chained_detach:
  assumes "detach_process_context env pfo w = Some r"
  shows "chained_only env r"
proof (cases "fork_then_exit_parent env pfo ''Failed first fork'' w")
  case None
  with assms show ?thesis by (simp add: detach_process_context_def)
next
  case (Some r1)
  note C1 = chained_fork[OF Some]
  show ?thesis
  proof (cases r1)
    case (Returned u1 w1)
    show ?thesis
    proof (cases "os_call env Setsid w1")
      case r2: (Returned u2 w2)
      with Some Returned assms have "fork_then_exit_parent env pfo ''Failed second fork'' w2 = Some r"
        by (simp add: detach_process_context_def)
      then show ?thesis by (rule chained_fork)
    next
      case r2: (Raised e2 w2)
      with Some Returned assms have "r = Raised e2 w2" by (simp add: detach_process_context_def)
      with builtin_chained[OF builtin_os_call[of env Setsid w1]] r2 show ?thesis by simp
    next
      case r2: (Exited st w2)
      then show ?thesis by simp
    qed
  next
    case (Raised e1 w1)
    with Some assms have "r = r1" by (simp add: detach_process_context_def)
    with C1 show ?thesis by simp
  next
    case (Exited st w1)
    with Some assms have "r = r1" by (simp add: detach_process_context_def)
    with C1 show ?thesis by simp
  qed
qed

lemma builtin_set_signal_handlers: "builtin_only (set_signal_handlers env hm w)"
proof (induction hm arbitrary: w)
  case Nil
  then show ?case by simp
next
  case (Cons a hm)
  obtain n h where a: "a = (n, h)" by (cases a)
  show ?case unfolding a set_signal_handlers.simps
    by (intro builtin_bind builtin_os_call Cons)
qed

lemma chained_close_if_open: "chained_only env (close_file_descriptor_if_open env d w)"
proof (cases "d \<in> set (open_fds w)")
  case False
  then show ?thesis by (simp add: close_if_open_not_open)
next
  case True
  show ?thesis
  proof (cases "fault env (trace w) (Close d)")
    case None
    with True show ?thesis
      by (simp add: close_file_descriptor_if_open_def os_close_def os_call_def)
  next
    case (Some f)
    have "trace (closed_fd d (log (Close d) w)) = trace w @ [Close d]" by simp
    from chained_new_env[OF this Some] True Some show ?thesis
      by (cases f) (simp_all add: close_file_descriptor_if_open_def os_close_def os_call_def
          chained_only_def chained_not_daemon)
  qed
qed

lemma chained_close_each: "chained_only env (close_each env ex ds w)"
proof (induction ds arbitrary: w)
  case Nil
  then show ?case by simp
next
  case (Cons d ds)
  show ?case
  proof (cases "in_exclude d ex")
    case True
    then show ?thesis using Cons[of w] by simp
  next
    case False
    have "chained_only env (bind (close_file_descriptor_if_open env d w) (\<lambda>_. close_each env ex ds))"
      by (intro chained_bind chained_close_if_open Cons)
    with False show ?thesis by simp
  qed
qed

lemma chained_close_all: "chained_only env (close_all_open_files env ex w)"
  unfolding close_all_open_files_def get_maximum_file_descriptors_def
  by (intro chained_bind builtin_chained[OF builtin_os_call] chained_close_each chained_Returned)

lemma builtin_redirect_stream: "builtin_only (redirect_stream env system_fd target_stream w)"
proof -
  have d: "\<And>t w1. builtin_only (os_dup2 env t system_fd w1)"
  proof -
    fix t w1
    show "builtin_only (os_dup2 env t system_fd w1)"
      by (cases "fault env (trace w1) (Dup2 t system_fd)")
         (simp_all add: os_dup2_def os_call_def builtin_only_def bad_file_descriptor_def)
  qed
  have o: "builtin_only (os_open_devnull env w)"
    by (cases "fault env (trace w) OpenDevnull") (simp_all add: os_open_devnull_def os_call_def builtin_only_def)
  have f: "\<And>t. builtin_only (call_fileno t w)"
  proof -
    fix t show "builtin_only (call_fileno t w)"
    proof (cases t)
      case (PyFile r)
      then show ?thesis by (cases r) (simp_all add: builtin_only_def)
    qed (simp_all add: builtin_only_def)
  qed
  show ?thesis
    unfolding redirect_stream_def
    by (cases target_stream) (auto intro!: builtin_bind d o f)
qed

lemma chained_open_descriptors: "chained_only env (open_descriptors env c ex w)"
  unfolding open_descriptors_def
  by (intro chained_bind chained_close_all builtin_chained[OF builtin_redirect_stream])

lemma builtin_except_IOError_exit: "builtin_only r \<Longrightarrow> builtin_only (except_IOError_exit msg r)"
  by (cases r) (simp_all add: except_IOError_exit_def sys_exit_def builtin_only_def)

lemma builtin_fcntl_flock: "builtin_only (fcntl_flock env f op w)"
proof (cases "fault env (trace w) (Flock (fo_fd f) op)")
  case None
  then show ?thesis
    by (cases op) (simp_all add: fcntl_flock_def os_call_def builtin_only_def
        closed_file_error_def bad_file_descriptor_def)
next
  case (Some a)
  then show ?thesis
    by (cases op) (simp_all add: fcntl_flock_def os_call_def builtin_only_def
        closed_file_error_def bad_file_descriptor_def)
qed

lemma builtin_file_seek: "builtin_only (file_seek env f n w)"
  by (cases "fault env (trace w) (FileSeek (fo_fd f) n)")
     (simp_all add: file_seek_def os_call_def builtin_only_def closed_file_error_def)

lemma builtin_file_truncate: "builtin_only (file_truncate env f w)"
  by (cases "fault env (trace w) (FileTruncate (fo_fd f))")
     (simp_all add: file_truncate_def os_call_def builtin_only_def closed_file_error_def)

lemma builtin_file_write: "builtin_only (file_write env f s w)"
  by (cases "fault env (trace w) (FileWrite (fo_fd f) s)")
     (simp_all add: file_write_def os_call_def builtin_only_def closed_file_error_def)

lemma builtin_file_flush: "builtin_only (file_flush env f w)"
  by (cases "fault env (trace w) (FileFlush (fo_fd f))")
     (simp_all add: file_flush_def os_call_def builtin_only_def closed_file_error_def)

lemma builtin_builtin_open: "builtin_only (builtin_open env p w)"
  by (cases "fault env (trace w) (OpenFile p)")
     (simp_all add: builtin_open_def os_call_def builtin_only_def)

lemma builtin_PidFile_enter: "builtin_only (snd (PidFile_enter env pf w))"
proof (cases "builtin_open env (path pf) w")
  case (Returned f w1)
  have "builtin_only (bind (except_IOError_exit (enter_err_msg pf) (fcntl_flock env f LOCK_EX_NB w1))
             (\<lambda>_ w2. bind (file_seek env f 0 w2)
               (\<lambda>_ w3. bind (file_truncate env f w3)
                 (\<lambda>_ w4. bind (file_write env f (str_int (getpid env)) (log Getpid w4))
                   (\<lambda>_ w5. bind (file_flush env f w5)
                     (\<lambda>_ w6. bind (file_seek env f 0 w6)
                       (\<lambda>_. Returned f)))))))"
    by (intro builtin_bind builtin_except_IOError_exit builtin_fcntl_flock builtin_file_seek
          builtin_file_truncate builtin_file_write builtin_file_flush builtin_Returned)
  then show ?thesis by (simp add: PidFile_enter_def Returned)
next
  case (Raised e w1)
  with builtin_builtin_open[of env "path pf" w] show ?thesis
    by (simp add: PidFile_enter_def builtin_only_def)
next
  case (Exited st w1)
  then show ?thesis by (simp add: PidFile_enter_def builtin_only_def)
qed

lemma chained_open_pidfile: "chained_only env (snd (open_pidfile env c w))"
proof (cases "pidfile c")
  case None
  then show ?thesis by (simp add: open_pidfile_def register_atexit_function_def)
next
  case (Some pf)
  from builtin_chained[OF builtin_PidFile_enter[of env pf w]] show ?thesis
    by (cases "snd (PidFile_enter env pf w)")
       (simp_all add: open_pidfile_def Some register_atexit_function_def)
qed

lemma chained_open_daemon: "chained_only env (snd (open_daemon env c w))"
proof (cases "make_signal_handler_map c")
  case (Inl e)
  then have "\<not> isinstance_DaemonError e"
  proof -
    have "\<And>l e. handler_pairs c l = Inl e \<Longrightarrow> \<not> isinstance_DaemonError e"
    proof -
      fix l :: "(int \<times> target) list" and e
      show "handler_pairs c l = Inl e \<Longrightarrow> \<not> isinstance_DaemonError e"
      proof (induction l)
        case Nil
        then show ?case by simp
      next
        case (Cons a l)
        obtain n t where a: "a = (n, t)" by (cases a)
        from Cons show ?case
          by (auto simp: a make_signal_handler_def split: sum.splits target.splits if_splits)
      qed
    qed
    with Inl show ?thesis by (auto simp: make_signal_handler_map_def split: sum.splits)
  qed
  with Inl show ?thesis by (simp add: open_daemon_def chained_only_def chained_not_daemon)
next
  case (Inr hm)
  note S = builtin_chained[OF builtin_set_signal_handlers[of env hm w]]
  show ?thesis
  proof (cases "set_signal_handlers env hm w")
    case (Returned u1 w1)
    note D = chained_open_descriptors[of env "fst (get_exclude_file_descriptors c)"
               "snd (get_exclude_file_descriptors c)" w1]
    show ?thesis
    proof (cases "open_descriptors env (fst (get_exclude_file_descriptors c))
                    (snd (get_exclude_file_descriptors c)) w1")
      case r: (Returned u2 w2)
      with Inr Returned show ?thesis by (simp add: open_daemon_def chained_open_pidfile)
    next
      case r: (Raised e2 w2)
      with Inr Returned D show ?thesis by (simp add: open_daemon_def)
    next
      case r: (Exited st w2)
      with Inr Returned show ?thesis by (simp add: open_daemon_def)
    qed
  next
    case (Raised e1 w1)
    with Inr S show ?thesis by (simp add: open_daemon_def)
  next
    case (Exited st w1)
    with Inr show ?thesis by (simp add: open_daemon_def)
  qed
qed

lemma chained_open:
  assumes "DaemonContext_open env c w = Some (c', r)"
  shows "chained_only env r"
proof (cases "is_open c")
  case True
  with assms show ?thesis by (auto simp: DaemonContext_open_def)
next
  case False
  note E = chained_open_environment[of env c w]
  show ?thesis
  proof (cases "open_environment env c w")
    case (Raised e1 w1)
    with assms False have "r = open_environment env c w" by (simp add: DaemonContext_open_def)
    with E show ?thesis by simp
  next
    case (Exited st w1)
    with assms False have "r = open_environment env c w" by (simp add: DaemonContext_open_def)
    with E show ?thesis by simp
  next
    case (Returned u1 w1)
    let ?d = "if detach_process c then detach_process_context env (pidfile c) w1 else Some (Returned () w1)"
    show ?thesis
    proof (cases ?d)
      case None
      with assms False Returned show ?thesis by (simp add: DaemonContext_open_def)
    next
      case (Some r1)
      have C: "chained_only env r1"
      proof (cases "detach_process c")
        case True
        with Some have "detach_process_context env (pidfile c) w1 = Some r1" by simp
        then show ?thesis by (rule chained_detach)
      next
        case F: False
        with Some show ?thesis by auto
      qed
      show ?thesis
      proof (cases r1)
        case r: (Returned u2 w2)
        with assms False Returned Some have "r = snd (open_daemon env c w2)"
          by (simp add: DaemonContext_open_def)
        then show ?thesis by (simp add: chained_open_daemon)
      next
        case r: (Raised e2 w2)
        with assms False Returned Some have "r = r1" by (simp add: DaemonContext_open_def)
        with C show ?thesis by simp
      next
        case r: (Exited st w2)
        with assms False Returned Some have "r = r1" by (simp add: DaemonContext_open_def)
        with C show ?thesis by simp
      qed
    qed
  qed
qed

lemma is_Exception_fault [simp]: "isinstance_Exception (exn_of_fault f)"
  by (cases f) simp_all

text \<open>
  C8. An instance of \<^verbatim>\<open>DaemonOSEnvironmentError\<close> or \<^verbatim>\<open>DaemonProcessDetachError\<close>
  has for cause the exception that was being handled when it was constructed. The
  module constructs them inside handlers only: every exception of these classes that
  \<^verbatim>\<open>open\<close> or the sweep raises has for cause the exception with which the
  operating system failed the last call made, the call that triggered it. So the one
  raised for a failed \<^verbatim>\<open>os.chdir\<close> has for cause the exception of that call, and the
  one raised for a failed \<^verbatim>\<open>os.fork\<close> the \<^verbatim>\<open>OSError\<close> of the fork.
\<close>

theorem errors_carry_cause:
  "cause (new_DaemonOSEnvironmentError existing_exc m) = existing_exc \<and>
   cause (new_DaemonProcessDetachError existing_exc m) = existing_exc \<and>
   (DaemonContext_open env c w = Some (c', Raised e w') \<and> isinstance_DaemonError e \<longrightarrow>
      (\<exists>tr ev f. trace w' = tr @ [ev] \<and> fault env tr ev = Some f \<and>
                 cause e = Some (exn_of_fault f))) \<and>
   (close_all_open_files env exclude w = Raised e w' \<and> isinstance_DaemonError e \<longrightarrow>
      (\<exists>tr ev f. trace w' = tr @ [ev] \<and> fault env tr ev = Some f \<and>
                 cause e = Some (exn_of_fault f))) \<and>
   (fault env (trace w) (Chdir d) = Some f \<longrightarrow>
      (\<exists>msg. change_working_directory env d w =
         Raised (DaemonOSEnvironmentError msg (Some (exn_of_fault f))) (log (Chdir d) w))) \<and>
   (fault env (trace w) Fork = Some (EnvFault n s t) \<longrightarrow>
      (\<exists>msg. detach_process_context env pfo w =
         Some (Raised (DaemonProcessDetachError msg (Some (OSError n s t))) (log Fork w))))"
proof (intro conjI impI)
  show "cause (new_DaemonOSEnvironmentError existing_exc m) = existing_exc"
    by (simp add: new_DaemonOSEnvironmentError_def)
  show "cause (new_DaemonProcessDetachError existing_exc m) = existing_exc"
    by (simp add: new_DaemonProcessDetachError_def)
next
  assume a: "DaemonContext_open env c w = Some (c', Raised e w') \<and> isinstance_DaemonError e"
  then have "chained_only env (Raised e w' :: unit outcome)" using chained_open by blast
  with a show "\<exists>tr ev f. trace w' = tr @ [ev] \<and> fault env tr ev = Some f \<and>
                 cause e = Some (exn_of_fault f)"
    by (simp add: chained_def)
next
  assume a: "close_all_open_files env exclude w = Raised e w' \<and> isinstance_DaemonError e"
  with chained_close_all[of env exclude w] have "chained env w' e" by simp
  with a show "\<exists>tr ev f. trace w' = tr @ [ev] \<and> fault env tr ev = Some f \<and>
                 cause e = Some (exn_of_fault f)"
    by (simp add: chained_def)
next
  assume "fault env (trace w) (Chdir d) = Some f"
  then show "\<exists>msg. change_working_directory env d w =
         Raised (DaemonOSEnvironmentError msg (Some (exn_of_fault f))) (log (Chdir d) w)"
    by (simp add: change_working_directory_def os_call_def except_Exception_def
        new_DaemonOSEnvironmentError_def)
next
  assume "fault env (trace w) Fork = Some (EnvFault n s t)"
  then show "\<exists>msg. detach_process_context env pfo w =
         Some (Raised (DaemonProcessDetachError msg (Some (OSError n s t))) (log Fork w))"
    by (simp add: detach_process_context_def fork_then_exit_parent_def os_call_def
        new_DaemonProcessDetachError_def)
qed

lemma open_owner_failure_example:
  "\<exists>c' w'. DaemonContext_open env_eperm ctx_full world0 =
     Some (c', Raised (DaemonOSEnvironmentError
        ''Unable to change process owner ([Errno 1] Operation not permitted)''
        (Some (OSError 1 ''Operation not permitted'' ''[Errno 1] Operation not permitted''))) w')"
  by (simp add: open_eval_defs eval_defs ctx_full_def ctx0_def env_eperm_def env_small_def
      env0_def world0_def pidfile0_def new_DaemonOSEnvironmentError_def)

lemma sweep_failure_example:
  "\<exists>m w'. close_all_open_files env_eio {} world_many =
     Raised (DaemonOSEnvironmentError m
       (Some (OSError 5 ''Input/output error'' ''[Errno 5] Input/output error''))) w'"
  by (simp add: close_all_open_files_def get_maximum_file_descriptors_def os_call_def env_eio_def
      env0_def world_many_def world0_def range_list_def upt_16 close_file_descriptor_if_open_def
      os_close_def log_def closed_fd_def bad_file_descriptor_def EBADF_def
      new_DaemonOSEnvironmentError_def)

theorem errors_carry_cause_witness:
  "(\<exists>c' e w'. DaemonContext_open env_eperm ctx_full world0 = Some (c', Raised e w') \<and>
      isinstance_DaemonError e \<and>
      cause e = Some (OSError 1 ''Operation not permitted'' ''[Errno 1] Operation not permitted'')) \<and>
   (\<exists>e w'. close_all_open_files env_eio {} world_many = Raised e w' \<and>
      isinstance_DaemonError e \<and>
      cause e = Some (OSError 5 ''Input/output error'' ''[Errno 5] Input/output error'')) \<and>
   (\<exists>msg. change_working_directory env_faults ''/nowhere'' world0 =
      Raised (DaemonOSEnvironmentError msg
        (Some (OSError 2 ''No such file or directory'' ''[Errno 2] No such file or directory'')))
        (log (Chdir ''/nowhere'') world0)) \<and>
   (\<exists>msg. detach_process_context env_faults None world0 =
      Some (Raised (DaemonProcessDetachError msg
        (Some (OSError 11 ''Resource temporarily unavailable''
                 ''[Errno 11] Resource temporarily unavailable''))) (log Fork world0)))"
proof (intro conjI)
  from open_owner_failure_example obtain c' w' e where
    r: "DaemonContext_open env_eperm ctx_full world0 = Some (c', Raised e w')"
    and e: "isinstance_DaemonError e"
    by fastforce
  with errors_carry_cause [of None "[]" env_eperm ctx_full world0 c' e w' "{}" "[]" "ValFault []" 0 "[]" "[]" None]
  obtain tr ev f where f: "fault env_eperm tr ev = Some f" "cause e = Some (exn_of_fault f)"
    by blast
  from f(1) have "f = EnvFault 1 ''Operation not permitted'' ''[Errno 1] Operation not permitted''"
    by (simp add: env_eperm_def env_small_def env0_def split: if_splits)
  with f(2) r e show "\<exists>c' e w'. DaemonContext_open env_eperm ctx_full world0 = Some (c', Raised e w') \<and>
      isinstance_DaemonError e \<and>
      cause e = Some (OSError 1 ''Operation not permitted'' ''[Errno 1] Operation not permitted'')"
    by auto
next
  from sweep_failure_example obtain e w' where
    r: "close_all_open_files env_eio {} world_many = Raised e w'" and e: "isinstance_DaemonError e"
    by fastforce
  with errors_carry_cause [of None "[]" env_eio ctx_full world_many ctx_full e w' "{}" "[]" "ValFault []" 0 "[]" "[]" None]
  obtain tr ev f where f: "fault env_eio tr ev = Some f" "cause e = Some (exn_of_fault f)"
    by blast
  from f(1) have "f = EnvFault 5 ''Input/output error'' ''[Errno 5] Input/output error''"
    by (simp add: env_eio_def env0_def split: if_splits)
  with f(2) r e show "\<exists>e w'. close_all_open_files env_eio {} world_many = Raised e w' \<and>
      isinstance_DaemonError e \<and>
      cause e = Some (OSError 5 ''Input/output error'' ''[Errno 5] Input/output error'')"
    by auto
next
  have "fault env_faults (trace world0) (Chdir ''/nowhere'') =
          Some (EnvFault 2 ''No such file or directory'' ''[Errno 2] No such file or directory'')"
    by (simp add: env_faults_def env0_def)
  with errors_carry_cause [of None "[]" env_faults ctx_full world0 ctx_full "ValueError []" world0 "{}"
      "''/nowhere''" "EnvFault 2 ''No such file or directory'' ''[Errno 2] No such file or directory''"
      0 "[]" "[]" None]
  show "\<exists>msg. change_working_directory env_faults ''/nowhere'' world0 =
      Raised (DaemonOSEnvironmentError msg
        (Some (OSError 2 ''No such file or directory'' ''[Errno 2] No such file or directory'')))
        (log (Chdir ''/nowhere'') world0)"
    by simp
next
  have "fault env_faults (trace world0) Fork =
          Some (EnvFault 11 ''Resource temporarily unavailable''
                  ''[Errno 11] Resource temporarily unavailable'')"
    by (simp add: env_faults_def env0_def)
  with errors_carry_cause [of None "[]" env_faults ctx_full world0 ctx_full "ValueError []" world0 "{}"
      "[]" "ValFault []" 11 "''Resource temporarily unavailable''"
      "''[Errno 11] Resource temporarily unavailable''" None]
  show "\<exists>msg. detach_process_context env_faults None world0 =
      Some (Raised (DaemonProcessDetachError msg
        (Some (OSError 11 ''Resource temporarily unavailable''
                 ''[Errno 11] Resource temporarily unavailable''))) (log Fork world0))"
    by simp
qed

subsection \<open>Opening and closing twice\<close>

lemma open_flag:
  assumes "DaemonContext_open env c w = Some (c', r)"
  shows "is_open c' = (is_open c \<or> (\<exists>w'. r = Returned () w'))"
proof (cases "is_open c")
  case True
  with assms show ?thesis by (auto simp: DaemonContext_open_def)
next
  case False
  show ?thesis
  proof (cases r)
    case (Returned u w')
    with assms open_Returned(2)[OF False, of env w c' u w'] show ?thesis by simp
  next
    case (Raised e w')
    with assms open_Raised(2)[OF False, of env w c' e w'] False show ?thesis by simp
  next
    case (Exited st w')
    have "c' = c"
    proof (cases "open_environment env c w")
      case r1: (Returned u1 w1)
      let ?d = "if detach_process c then detach_process_context env (pidfile c) w1 else Some (Returned () w1)"
      show ?thesis
      proof (cases ?d)
        case None
        with assms False r1 show ?thesis by (simp add: DaemonContext_open_def)
      next
        case (Some r2)
        show ?thesis
        proof (cases r2)
          case r3: (Returned u2 w2)
          with assms False r1 Some Exited have "open_daemon env c w2 = (c', Exited st w')"
            by (simp add: DaemonContext_open_def)
          with open_daemon_not_Exited show ?thesis by blast
        next
          case r3: (Raised e2 w2)
          with assms False r1 Some show ?thesis by (simp add: DaemonContext_open_def)
        next
          case r3: (Exited st2 w2)
          with assms False r1 Some show ?thesis by (simp add: DaemonContext_open_def)
        qed
      qed
    next
      case r1: (Raised e1 w1)
      with assms False show ?thesis by (simp add: DaemonContext_open_def)
    next
      case r1: (Exited st1 w1)
      with assms False show ?thesis by (simp add: DaemonContext_open_def)
    qed
    with Exited False show ?thesis by simp
  qed
qed

lemma close_flag:
  assumes "DaemonContext_close env c w = (c', r)"
  shows "is_open c' = (is_open c \<and> \<not> (\<exists>w'. r = Returned () w'))"
proof (cases "is_open c")
  case False
  with assms show ?thesis by (auto simp: DaemonContext_close_def)
next
  case True
  show ?thesis
  proof (cases "pidfile c")
    case None
    with assms True show ?thesis by (auto simp: DaemonContext_close_def)
  next
    case (Some pf)
    show ?thesis
    proof (cases "snd (PidFile_exit env pf w)")
      case (Returned u w1)
      with assms True Some have "r = Returned () w1" "\<not> is_open c'"
        by (auto simp: DaemonContext_close_def)
      with True show ?thesis by simp
    next
      case (Raised e w1)
      with assms True Some have "r = Raised e w1" "is_open c'"
        by (auto simp: DaemonContext_close_def)
      with True show ?thesis by simp
    next
      case (Exited st w1)
      with assms True Some have "r = Exited st w1" "is_open c'"
        by (auto simp: DaemonContext_close_def)
      with True show ?thesis by simp
    qed
  qed
qed

lemma os_remove_trace: "os_remove env p w = Returned u w' \<Longrightarrow> trace w' = trace w @ [Remove p]"
proof -
  assume a: "os_remove env p w = Returned u w'"
  then have "bind (os_call env (Remove p) w)
             (\<lambda>_ w'. Returned () (w'\<lparr>fs := (fs w')(p := None), locks := (locks w')(p := None)\<rparr>)) = Returned u w'"
    by (simp add: os_remove_def split: if_splits)
  from bind_os_call_Returned[OF this] show ?thesis by auto
qed

lemma PidFile_exit_trace:
  assumes "snd (PidFile_exit env pf w) = Returned u w'"
  shows "trace w' = trace w @ (if fo_closed (handle pf) then [] else [Close (fo_fd (handle pf))]) @
           [Remove (path pf)]"
proof -
  let ?c = "case snd (file_close env (handle pf) w) of
              Raised err w1 \<Rightarrow>
                (case err of
                   OSError n s t \<Rightarrow> (if n \<noteq> 9 then Raised err w1 else Returned () w1)
                 | _ \<Rightarrow> Raised err w1)
            | r \<Rightarrow> r"
  from assms have "bind ?c (\<lambda>_. os_remove env (path pf)) = Returned u w'"
    by (simp add: PidFile_exit_def)
  from bind_Returned[OF this] obtain x w1 where
    c: "?c = Returned x w1" and r: "os_remove env (path pf) w1 = Returned u w'"
    by blast
  have "trace w1 = trace w @ (if fo_closed (handle pf) then [] else [Close (fo_fd (handle pf))])"
  proof (cases "fo_closed (handle pf)")
    case True
    with c show ?thesis by (simp add: file_close_def)
  next
    case False
    then have fc: "snd (file_close env (handle pf) w) = os_close env (fo_fd (handle pf)) w"
      by (simp add: file_close_def)
    have "world_of ?c = world_of (os_close env (fo_fd (handle pf)) w)"
    proof (cases "os_close env (fo_fd (handle pf)) w")
      case (Raised e w2)
      then show ?thesis by (cases e) (simp_all add: fc)
    qed (simp_all add: fc)
    with c have "w1 = world_of (os_close env (fo_fd (handle pf)) w)" by simp
    with os_close_world(1)[of env "fo_fd (handle pf)" w] False show ?thesis by simp
  qed
  with os_remove_trace[OF r] show ?thesis by simp
qed

text \<open>
  C2, as the code has it. \<^verbatim>\<open>open\<close> on an open context and \<^verbatim>\<open>close\<close> on a closed one
  return at once and change nothing. The flag \<open>is_open\<close> is set by a call of
  \<^verbatim>\<open>open\<close> that returns and by nothing else in \<^verbatim>\<open>open\<close>; it is cleared by a call
  of \<^verbatim>\<open>close\<close> that returns and by nothing else in \<^verbatim>\<open>close\<close>: a call that raises
  leaves the flag as it was. Hence a second \<^verbatim>\<open>open\<close> after one that returned makes no
  call, and after a \<^verbatim>\<open>close\<close> that returned, a second \<^verbatim>\<open>close\<close> and the exit hook
  make none: the one \<^verbatim>\<open>close\<close> of an open context with a lock file closes the file
  if it is not closed and removes the path, once.
\<close>

theorem open_close_idempotent:
  "(is_open c \<longrightarrow> DaemonContext_open env c w = Some (c, Returned () w)) \<and>
   (\<not> is_open c \<longrightarrow>
      DaemonContext_close env c w = (c, Returned () w) \<and>
      call_hook env Close_hook c w = (c, Returned () w)) \<and>
   (DaemonContext_open env c w = Some (c', r) \<longrightarrow>
      is_open c' = (is_open c \<or> (\<exists>w'. r = Returned () w'))) \<and>
   (DaemonContext_close env c w = (c', r) \<longrightarrow>
      is_open c' = (is_open c \<and> \<not> (\<exists>w'. r = Returned () w'))) \<and>
   (DaemonContext_open env c w = Some (c', Returned () w') \<longrightarrow>
      DaemonContext_open env2 c' w' = Some (c', Returned () w')) \<and>
   (DaemonContext_close env c w = (c', Returned () w') \<longrightarrow>
      DaemonContext_close env2 c' w' = (c', Returned () w') \<and>
      call_hook env2 Close_hook c' w' = (c', Returned () w')) \<and>
   (is_open c \<and> pidfile c = Some pf \<and> DaemonContext_close env c w = (c', Returned () w') \<longrightarrow>
      trace w' = trace w @ (if fo_closed (handle pf) then [] else [Close (fo_fd (handle pf))]) @
                   [Remove (path pf)])"
proof (intro conjI impI)
  assume "is_open c"
  then show "DaemonContext_open env c w = Some (c, Returned () w)"
    by (simp add: DaemonContext_open_def)
next
  assume "\<not> is_open c"
  then show "DaemonContext_close env c w = (c, Returned () w)"
    and "call_hook env Close_hook c w = (c, Returned () w)"
    by (simp_all add: DaemonContext_close_def)
next
  assume "DaemonContext_open env c w = Some (c', r)"
  then show "is_open c' = (is_open c \<or> (\<exists>w'. r = Returned () w'))" by (rule open_flag)
next
  assume "DaemonContext_close env c w = (c', r)"
  then show "is_open c' = (is_open c \<and> \<not> (\<exists>w'. r = Returned () w'))" by (rule close_flag)
next
  assume "DaemonContext_open env c w = Some (c', Returned () w')"
  from open_flag[OF this] have "is_open c'" by simp
  then show "DaemonContext_open env2 c' w' = Some (c', Returned () w')"
    by (simp add: DaemonContext_open_def)
next
  assume "DaemonContext_close env c w = (c', Returned () w')"
  from close_flag[OF this] have "\<not> is_open c'" by simp
  then show "DaemonContext_close env2 c' w' = (c', Returned () w')"
    and "call_hook env2 Close_hook c' w' = (c', Returned () w')"
    by (simp_all add: DaemonContext_close_def)
next
  assume a: "is_open c \<and> pidfile c = Some pf \<and> DaemonContext_close env c w = (c', Returned () w')"
  then have "snd (PidFile_exit env pf w) = Returned () w'"
    by (cases "snd (PidFile_exit env pf w)") (auto simp: DaemonContext_close_def)
  then show "trace w' = trace w @ (if fo_closed (handle pf) then [] else [Close (fo_fd (handle pf))]) @
                   [Remove (path pf)]"
    by (rule PidFile_exit_trace)
qed

lemma open_then_close_example:
  "\<exists>w' c'' w''.
     DaemonContext_open env_small ctx_full world0 =
       Some (ctx_full\<lparr>pidfile := Some (pidfile0\<lparr>handle :=
               \<lparr>fo_fd = 3, fo_path = ''/run/q.pid'', fo_closed = False\<rparr>\<rparr>), is_open := True\<rparr>,
             Returned () w') \<and>
     DaemonContext_close env_small
       (ctx_full\<lparr>pidfile := Some (pidfile0\<lparr>handle :=
               \<lparr>fo_fd = 3, fo_path = ''/run/q.pid'', fo_closed = False\<rparr>\<rparr>), is_open := True\<rparr>) w' =
       (c'', Returned () w'')"
  by (simp add: open_eval_defs eval_defs DaemonContext_close_def ctx_full_def ctx0_def env_small_def
      env0_def world0_def pidfile0_def upt_rec EBADF_def)

theorem open_close_idempotent_witness:
  "\<exists>c' w' c'' w''.
     DaemonContext_open env_small ctx_full world0 = Some (c', Returned () w') \<and> is_open c' \<and>
     DaemonContext_open env_small c' w' = Some (c', Returned () w') \<and>
     DaemonContext_close env_small c' w' = (c'', Returned () w'') \<and> \<not> is_open c'' \<and>
     trace w'' = trace w' @ [Close 3, Remove ''/run/q.pid''] \<and>
     DaemonContext_close env_small c'' w'' = (c'', Returned () w'') \<and>
     call_hook env_small Close_hook c'' w'' = (c'', Returned () w'')"
proof -
  let ?pf = "pidfile0\<lparr>handle := \<lparr>fo_fd = 3, fo_path = ''/run/q.pid'', fo_closed = False\<rparr>\<rparr>"
  let ?c' = "ctx_full\<lparr>pidfile := Some ?pf, is_open := True\<rparr>"
  from open_then_close_example obtain w' c'' w'' where
    o: "DaemonContext_open env_small ctx_full world0 = Some (?c', Returned () w')"
    and x: "DaemonContext_close env_small ?c' w' = (c'', Returned () w'')"
    by blast
  note A = open_close_idempotent [of ctx_full env_small world0 ?c' "Returned () w'" w' env_small ?pf]
  note B = open_close_idempotent [of ?c' env_small w' c'' "Returned () w''" w'' env_small ?pf]
  have 1: "is_open ?c'" by simp
  from A o have 2: "DaemonContext_open env_small ?c' w' = Some (?c', Returned () w')" by blast
  from B x have 3: "is_open c'' = (is_open ?c' \<and> \<not> (\<exists>v. Returned () w'' = Returned () v))" by blast
  then have 4: "\<not> is_open c''" by simp
  from B x have 5: "DaemonContext_close env_small c'' w'' = (c'', Returned () w'')"
    and 6: "call_hook env_small Close_hook c'' w'' = (c'', Returned () w'')" by blast+
  have "is_open ?c' \<and> pidfile ?c' = Some ?pf \<and> DaemonContext_close env_small ?c' w' = (c'', Returned () w'')"
    using x by simp
  with B have "trace w'' = trace w' @ (if fo_closed (handle ?pf) then [] else [Close (fo_fd (handle ?pf))]) @
                   [Remove (path ?pf)]" by blast
  then have 7: "trace w'' = trace w' @ [Close 3, Remove ''/run/q.pid'']" by (simp add: pidfile0_def)
  from o 1 2 x 4 7 5 6 show ?thesis by blast
qed

text \<open>
  Without the condition that the first call returns, the steps are run again. Where the
  removal of the path fails, \<^verbatim>\<open>close\<close> raises out of \<^verbatim>\<open>PidFile.__exit__\<close> and the
  context stays open; the second \<^verbatim>\<open>close\<close> runs \<^verbatim>\<open>PidFile.__exit__\<close> a second time
  and removes the path. Where the change of the user fails, \<^verbatim>\<open>open\<close> raises and the
  context stays closed; the second \<^verbatim>\<open>open\<close> makes the same calls again.
\<close>

theorem repeated_call_counterexample:
  "snd (DaemonContext_close env_remove ctx_entered world_entered) =
     Raised (OSError 13 ''Permission denied'' ''[Errno 13] Permission denied'')
       (world_of (snd (DaemonContext_close env_remove ctx_entered world_entered))) \<and>
   trace (world_of (snd (DaemonContext_close env_remove ctx_entered world_entered))) =
     [Close 3, Remove ''/run/q.pid''] \<and>
   is_open (fst (DaemonContext_close env_remove ctx_entered world_entered)) \<and>
   snd (DaemonContext_close env_remove
          (fst (DaemonContext_close env_remove ctx_entered world_entered))
          (world_of (snd (DaemonContext_close env_remove ctx_entered world_entered)))) =
     Returned ()
       (world_of (snd (DaemonContext_close env_remove
          (fst (DaemonContext_close env_remove ctx_entered world_entered))
          (world_of (snd (DaemonContext_close env_remove ctx_entered world_entered)))))) \<and>
   trace (world_of (snd (DaemonContext_close env_remove
          (fst (DaemonContext_close env_remove ctx_entered world_entered))
          (world_of (snd (DaemonContext_close env_remove ctx_entered world_entered)))))) =
     [Close 3, Remove ''/run/q.pid'', Remove ''/run/q.pid''] \<and>
   \<not> is_open (fst (the (DaemonContext_open env_eperm ctx_full world0))) \<and>
   trace (world_of (snd (the (DaemonContext_open env_eperm ctx_full world0)))) =
     [Chdir ''/srv'', Chroot ''/srv'', GetrlimitCore, SetrlimitCore 0 0, Umask 0, Chdir ''/'',
      Setgid 1000, Setuid 1000] \<and>
   trace (world_of (snd (the (DaemonContext_open env_eperm
       (fst (the (DaemonContext_open env_eperm ctx_full world0)))
       (world_of (snd (the (DaemonContext_open env_eperm ctx_full world0)))))))) =
     [Chdir ''/srv'', Chroot ''/srv'', GetrlimitCore, SetrlimitCore 0 0, Umask 0, Chdir ''/'',
      Setgid 1000, Setuid 1000,
      Chdir ''/srv'', Chroot ''/srv'', GetrlimitCore, SetrlimitCore 0 0, Umask 0, Chdir ''/'',
      Setgid 1000, Setuid 1000]"
proof (intro conjI)
  note close_defs = DaemonContext_close_def eval_defs ctx_entered_def ctx0_def pidfile0_def
      world_entered_def world0_def env_remove_def env0_def
  show "snd (DaemonContext_close env_remove ctx_entered world_entered) =
     Raised (OSError 13 ''Permission denied'' ''[Errno 13] Permission denied'')
       (world_of (snd (DaemonContext_close env_remove ctx_entered world_entered)))"
    by (simp add: close_defs)
  show "trace (world_of (snd (DaemonContext_close env_remove ctx_entered world_entered))) =
     [Close 3, Remove ''/run/q.pid'']"
    by (simp add: close_defs)
  show "is_open (fst (DaemonContext_close env_remove ctx_entered world_entered))"
    by (simp add: close_defs)
  show "snd (DaemonContext_close env_remove
          (fst (DaemonContext_close env_remove ctx_entered world_entered))
          (world_of (snd (DaemonContext_close env_remove ctx_entered world_entered)))) =
     Returned ()
       (world_of (snd (DaemonContext_close env_remove
          (fst (DaemonContext_close env_remove ctx_entered world_entered))
          (world_of (snd (DaemonContext_close env_remove ctx_entered world_entered))))))"
    by (simp add: close_defs)
  show "trace (world_of (snd (DaemonContext_close env_remove
          (fst (DaemonContext_close env_remove ctx_entered world_entered))
          (world_of (snd (DaemonContext_close env_remove ctx_entered world_entered)))))) =
     [Close 3, Remove ''/run/q.pid'', Remove ''/run/q.pid'']"
    by (simp add: close_defs)
next
  note open_defs = open_eval_defs eval_defs ctx_full_def ctx0_def env_eperm_def env_small_def
      env0_def world0_def pidfile0_def new_DaemonOSEnvironmentError_def
  show "\<not> is_open (fst (the (DaemonContext_open env_eperm ctx_full world0)))"
    by (simp add: open_defs)
  show "trace (world_of (snd (the (DaemonContext_open env_eperm ctx_full world0)))) =
     [Chdir ''/srv'', Chroot ''/srv'', GetrlimitCore, SetrlimitCore 0 0, Umask 0, Chdir ''/'',
      Setgid 1000, Setuid 1000]"
    by (simp add: open_defs)
  show "trace (world_of (snd (the (DaemonContext_open env_eperm
       (fst (the (DaemonContext_open env_eperm ctx_full world0)))
       (world_of (snd (the (DaemonContext_open env_eperm ctx_full world0)))))))) =
     [Chdir ''/srv'', Chroot ''/srv'', GetrlimitCore, SetrlimitCore 0 0, Umask 0, Chdir ''/'',
      Setgid 1000, Setuid 1000,
      Chdir ''/srv'', Chroot ''/srv'', GetrlimitCore, SetrlimitCore 0 0, Umask 0, Chdir ''/'',
      Setgid 1000, Setuid 1000]"
    by (simp add: open_defs)
qed

end
